(* ===== verification/Prelude.thy ===== *)
theory Prelude
  imports Main
begin

text \<open>
  Shared vocabulary of the development: the Python string primitives the pipeline
  script calls (\<open>str.isspace\<close>, \<open>strip\<close>, \<open>split\<close>, \<open>lower\<close>, \<open>zfill\<close>, \<open>int()\<close>,
  \<open>str()\<close> of an int, format spec \<open>02\<close>) and the Python dictionary built from a list
  of key/value pairs. Characters are HOL's 8-bit \<open>char\<close>; the predicates below follow
  CPython on the code points 0 to 255.
\<close>

named_theorems py_simps "evaluation rules of the Python string primitives"

subsection \<open>Characters\<close>

text \<open>\<open>str.isspace\<close> on code points below 256: 9--13, 28--32, 133 and 160.\<close>

definition py_isspace :: "char \<Rightarrow> bool" where
  "py_isspace c = (let n = (of_char c :: nat) in
      (9 \<le> n \<and> n \<le> 13) \<or> (28 \<le> n \<and> n \<le> 32) \<or> n = 133 \<or> n = 160)"

definition is_digit :: "char \<Rightarrow> bool" where
  "is_digit c = (let n = (of_char c :: nat) in 48 \<le> n \<and> n \<le> 57)"

definition digit_val :: "char \<Rightarrow> nat" where
  "digit_val c = of_char c - 48"

definition digit_char :: "nat \<Rightarrow> char" where
  "digit_char d = char_of (48 + d)"

text \<open>\<open>str.lower\<close> on code points below 256: ASCII and Latin-1 capitals.\<close>

definition py_lower_char :: "char \<Rightarrow> char" where
  "py_lower_char c = (let n = (of_char c :: nat) in
      if (65 \<le> n \<and> n \<le> 90) \<or> (192 \<le> n \<and> n \<le> 222 \<and> n \<noteq> 215)
      then char_of (n + 32) else c)"

definition py_lower :: "string \<Rightarrow> string" where
  "py_lower s = map py_lower_char s"

subsection \<open>Stripping and splitting\<close>

definition py_strip :: "string \<Rightarrow> string" where
  "py_strip s = rev (dropWhile py_isspace (rev (dropWhile py_isspace s)))"

text \<open>\<open>str.split()\<close> without arguments: maximal runs of non-space characters.\<close>

fun py_split_acc :: "string \<Rightarrow> string \<Rightarrow> string list" where
  "py_split_acc cur [] = (if cur = [] then [] else [rev cur])"
| "py_split_acc cur (c # cs) =
     (if py_isspace c
      then (if cur = [] then py_split_acc [] cs else rev cur # py_split_acc [] cs)
      else py_split_acc (c # cur) cs)"

definition py_split :: "string \<Rightarrow> string list" where
  "py_split s = py_split_acc [] s"

subsection \<open>\<open>str.zfill\<close>\<close>

definition zfill :: "string \<Rightarrow> nat \<Rightarrow> string" where
  "zfill s w =
     (if w \<le> length s then s
      else (case s of
              [] \<Rightarrow> replicate w CHR ''0''
            | c # cs \<Rightarrow>
                if c = CHR ''+'' \<or> c = CHR ''-''
                then c # replicate (w - length s) CHR ''0'' @ cs
                else replicate (w - length s) CHR ''0'' @ s))"

subsection \<open>\<open>int()\<close> on a string and \<open>str()\<close> of an int\<close>

definition digits_val :: "string \<Rightarrow> nat" where
  "digits_val s = foldl (\<lambda>n c. 10 * n + digit_val c) 0 s"

text \<open>An underscore of an integer literal must be followed by a digit.\<close>

fun us_ok :: "string \<Rightarrow> bool" where
  "us_ok [] = True"
| "us_ok (c # cs) =
     ((if c = CHR ''_'' then cs \<noteq> [] \<and> is_digit (hd cs) else True) \<and> us_ok cs)"

definition int_body_ok :: "string \<Rightarrow> bool" where
  "int_body_ok s =
     (s \<noteq> [] \<and> is_digit (hd s) \<and> list_all (\<lambda>c. is_digit c \<or> c = CHR ''_'') s \<and> us_ok s)"

definition body_val :: "string \<Rightarrow> nat" where
  "body_val s = digits_val (filter is_digit s)"

text \<open>
  \<open>int(s)\<close> for a string: surrounding white space, one optional sign, decimal digits
  with single underscores between them; anything else raises \<open>ValueError\<close> (\<open>None\<close>).
\<close>

definition py_int :: "string \<Rightarrow> int option" where
  "py_int s =
     (case py_strip s of
        [] \<Rightarrow> None
      | c # cs \<Rightarrow>
          if c = CHR ''-'' then (if int_body_ok cs then Some (- int (body_val cs)) else None)
          else if c = CHR ''+'' then (if int_body_ok cs then Some (int (body_val cs)) else None)
          else if int_body_ok (c # cs) then Some (int (body_val (c # cs))) else None)"

fun show_nat :: "nat \<Rightarrow> string" where
  "show_nat n = (if n < 10 then [digit_char n] else show_nat (n div 10) @ [digit_char (n mod 10)])"

declare show_nat.simps [simp del]

definition py_str_int :: "int \<Rightarrow> string" where
  "py_str_int i = (if i < 0 then CHR ''-'' # show_nat (nat (- i)) else show_nat (nat i))"

text \<open>\<open>format(i, '02')\<close>: the sign-aware zero padding of \<open>zfill\<close> to width 2.\<close>

definition fmt02 :: "int \<Rightarrow> string" where
  "fmt02 i = zfill (py_str_int i) 2"

text \<open>Exactly \<open>k\<close> decimal digits of \<open>n mod 10 ^ k\<close>, zero padded (\<open>%02d\<close>-style).\<close>

primrec fixed_digits :: "nat \<Rightarrow> nat \<Rightarrow> string" where
  "fixed_digits 0 n = []"
| "fixed_digits (Suc k) n = fixed_digits k (n div 10) @ [digit_char (n mod 10)]"

subsection \<open>Dictionaries\<close>

text \<open>
  A dict literal, or \<open>dict(zip(keys, values))\<close>, inserts its pairs from left to
  right: a repeated key keeps the last value.
\<close>

definition py_dict :: "('k \<times> 'v) list \<Rightarrow> 'k \<rightharpoonup> 'v" where
  "py_dict ps = fold (\<lambda>(k, v) m. m(k \<mapsto> v)) ps Map.empty"

definition dict_get :: "('k \<rightharpoonup> 'v) \<Rightarrow> 'k \<Rightarrow> 'v \<Rightarrow> 'v" where
  "dict_get m k d = (case m k of Some v \<Rightarrow> v | None \<Rightarrow> d)"

section \<open>Lemmas\<close>

subsection \<open>Digits and integer text\<close>

lemma is_digit_digit_char [simp]: "d < 10 \<Longrightarrow> is_digit (digit_char d)"
  by (simp add: is_digit_def digit_char_def)
lemma digit_val_digit_char [simp]: "d < 10 \<Longrightarrow> digit_val (digit_char d) = d"
  by (simp add: digit_val_def digit_char_def)
lemma digit_not_space [simp]: "is_digit c \<Longrightarrow> \<not> py_isspace c"
  by (simp add: is_digit_def py_isspace_def Let_def)
lemma digit_not_sign [simp]:
  "is_digit c \<Longrightarrow> c \<noteq> CHR ''-''" "is_digit c \<Longrightarrow> c \<noteq> CHR ''+''"
  "is_digit c \<Longrightarrow> c \<noteq> CHR ''_''"
  by (auto simp: is_digit_def)

lemma foldl_digits_acc:
  "foldl (\<lambda>n c. 10 * n + digit_val c) a ys
   = a * 10 ^ length ys + foldl (\<lambda>n c. 10 * n + digit_val c) 0 ys"
proof (induction ys arbitrary: a)
  case Nil
  then show ?case by simp
next
  case (Cons y ys)
  have l: "foldl (\<lambda>n c. 10 * n + digit_val c) a (y # ys)
        = (10 * a + digit_val y) * 10 ^ length ys + foldl (\<lambda>n c. 10 * n + digit_val c) 0 ys"
    using Cons.IH[of "10 * a + digit_val y"] by (simp only: foldl_Cons mult_zero_right add_0)
  have r: "foldl (\<lambda>n c. 10 * n + digit_val c) 0 (y # ys)
        = digit_val y * 10 ^ length ys + foldl (\<lambda>n c. 10 * n + digit_val c) 0 ys"
    using Cons.IH[of "digit_val y"] by (simp only: foldl_Cons mult_zero_right add_0)
  show ?case unfolding l r by (simp add: algebra_simps)
qed

lemma digits_val_append [simp]:
  "digits_val (xs @ ys) = digits_val xs * 10 ^ length ys + digits_val ys"
  unfolding digits_val_def foldl_append
  by (rule foldl_digits_acc)

lemma digit_char_inj:
  "d < 10 \<Longrightarrow> e < 10 \<Longrightarrow> digit_char d = digit_char e \<longleftrightarrow> d = e"
  by (metis digit_val_digit_char)

lemma py_strip_digits:
  assumes "list_all is_digit s"
  shows "py_strip s = s"
proof (cases s rule: rev_cases)
  case Nil
  then show ?thesis by (simp add: py_strip_def)
next
  case (snoc ys y)
  with assms have "is_digit y" and "s \<noteq> []" by auto
  moreover from assms \<open>s \<noteq> []\<close> have "is_digit (hd s)" by (cases s) auto
  ultimately have "dropWhile py_isspace s = s"
    by (simp add: dropWhile_eq_self_iff)
  moreover have "dropWhile py_isspace (rev s) = rev s"
    using snoc \<open>is_digit y\<close> by simp
  ultimately show ?thesis by (simp add: py_strip_def)
qed

lemma us_ok_digits: "list_all is_digit s \<Longrightarrow> us_ok s"
  by (induction s) auto

lemma py_int_digits:
  assumes "s \<noteq> []" and "list_all is_digit s"
  shows "py_int s = Some (int (digits_val s))"
proof -
  obtain c cs where s: "s = c # cs" using assms(1) by (cases s) auto
  have "is_digit c" using assms(2) s by simp
  moreover have "int_body_ok s"
    using assms s by (auto simp: int_body_ok_def list_all_iff us_ok_digits)
  moreover have "body_val s = digits_val s"
    using assms(2) by (simp add: body_val_def list_all_iff)
  ultimately show ?thesis
    using assms s by (simp add: py_int_def py_strip_digits)
qed

lemma digits_val_single [simp]: "digits_val [c] = digit_val c"
  by (simp add: digits_val_def)

lemma show_nat_small [simp]: "n < 10 \<Longrightarrow> show_nat n = [digit_char n]"
  by (simp add: show_nat.simps)

lemma show_nat_big: "10 \<le> n \<Longrightarrow> show_nat n = show_nat (n div 10) @ [digit_char (n mod 10)]"
  by (simp add: show_nat.simps [of n])

lemma show_nat_digits:
  "list_all is_digit (show_nat n) \<and> show_nat n \<noteq> [] \<and> digits_val (show_nat n) = n"
proof (induction n rule: show_nat.induct)
  case (1 n)
  show ?case
  proof (cases "n < 10")
    case True
    then show ?thesis by simp
  next
    case False
    then have IH: "list_all is_digit (show_nat (n div 10))"
        "digits_val (show_nat (n div 10)) = n div 10"
      using "1.IH" by auto
    have "digits_val (show_nat n) = n div 10 * 10 + n mod 10"
      using False IH(2) by (simp add: show_nat_big)
    also have "\<dots> = n" by simp
    finally show ?thesis
      using False IH(1) by (simp add: show_nat_big)
  qed
qed

lemma py_int_show_nat [simp]: "py_int (show_nat n) = Some (int n)"
  using show_nat_digits[of n] by (simp add: py_int_digits)

lemma zfill_length [simp]: "length (zfill s w) = max w (length s)"
  by (auto simp: zfill_def split: list.splits)

lemma py_dict_fold: "fold (\<lambda>(k, v) m. m(k \<mapsto> v)) ps m = m ++ map_of (rev ps)"
  by (induction ps arbitrary: m) (auto simp: map_add_def fun_eq_iff split: option.splits)

lemma py_dict_map_of: "py_dict ps = map_of (rev ps)"
  by (simp add: py_dict_def py_dict_fold)
lemma digits_val_Nil [simp]: "digits_val [] = 0"
  by (simp add: digits_val_def)

lemma digit_char_0: "digit_char 0 = CHR ''0''"
proof -
  have "(of_char (CHR ''0'') :: nat) = 48" by simp
  then show ?thesis unfolding digit_char_def by (metis add_0_right char_of_char)
qed

lemma zfill_unsigned:
  "s \<noteq> [] \<Longrightarrow> hd s \<noteq> CHR ''+'' \<Longrightarrow> hd s \<noteq> CHR ''-'' \<Longrightarrow>
   zfill s w = replicate (w - length s) CHR ''0'' @ s"
  by (cases s) (auto simp: zfill_def)

lemma show_nat_hd: "show_nat n \<noteq> [] \<and> is_digit (hd (show_nat n))"
  using show_nat_digits[of n] by (cases "show_nat n") auto

lemma zfill_show_nat:
  "zfill (show_nat n) w = replicate (w - length (show_nat n)) CHR ''0'' @ show_nat n"
  using show_nat_hd[of n] by (simp add: zfill_unsigned)

lemma fixed_digits_length [simp]: "length (fixed_digits k n) = k"
  by (induction k arbitrary: n) auto

lemma fixed_digits_digits: "list_all is_digit (fixed_digits k n)"
  by (induction k arbitrary: n) auto

lemma fixed_digits_zero: "fixed_digits k 0 = replicate k CHR ''0''"
  by (induction k) (simp_all add: digit_char_0 replicate_append_same)

lemma fixed_digits_val: "digits_val (fixed_digits k n) = n mod 10 ^ k"
proof (induction k arbitrary: n)
  case 0
  then show ?case by simp
next
  case (Suc k)
  have "digits_val (fixed_digits (Suc k) n) = n div 10 mod 10 ^ k * 10 + n mod 10"
    using Suc.IH[of "n div 10"] by simp
  also have "\<dots> = n mod 10 ^ Suc k"
    by (simp add: mod_mult2_eq mult.commute)
  finally show ?case .
qed

lemma fixed_digits_add:
  "fixed_digits (a + b) n = fixed_digits a (n div 10 ^ b) @ fixed_digits b n"
  by (induction b arbitrary: n) (simp_all add: div_mult2_eq mult.commute)

lemma show_nat_padded:
  "0 < k \<Longrightarrow> n < 10 ^ k \<Longrightarrow> replicate (k - length (show_nat n)) CHR ''0'' @ show_nat n = fixed_digits k n"
proof (induction k arbitrary: n)
  case 0
  then show ?case by simp
next
  case (Suc k)
  show ?case
  proof (cases "n < 10")
    case True
    then have "fixed_digits (Suc k) n = replicate k CHR ''0'' @ [digit_char n]"
      by (simp add: fixed_digits_zero)
    with True show ?thesis by simp
  next
    case False
    then have lt: "n div 10 < 10 ^ k" using Suc.prems by auto
    have k: "0 < k" using False Suc.prems by (cases k) auto
    have "length (show_nat n) = Suc (length (show_nat (n div 10)))"
      using False by (simp add: show_nat_big)
    then have "replicate (Suc k - length (show_nat n)) CHR ''0'' @ show_nat n
        = (replicate (k - length (show_nat (n div 10))) CHR ''0'' @ show_nat (n div 10))
          @ [digit_char (n mod 10)]"
      using False by (simp add: show_nat_big)
    also have "\<dots> = fixed_digits (Suc k) n"
      using Suc.IH[OF k lt] by simp
    finally show ?thesis .
  qed
qed

lemma zfill_show_nat_fixed:
  "0 < k \<Longrightarrow> n < 10 ^ k \<Longrightarrow> zfill (show_nat n) k = fixed_digits k n"
  by (simp add: zfill_show_nat show_nat_padded)

lemma py_int_fixed_digits:
  "0 < k \<Longrightarrow> py_int (fixed_digits k n) = Some (int (n mod 10 ^ k))"
proof -
  assume "0 < k"
  then have "fixed_digits k n \<noteq> []"
    using fixed_digits_length[of k n] by (metis length_0_conv less_irrefl)
  then show ?thesis
    using fixed_digits_digits[of k n] by (simp add: py_int_digits fixed_digits_val)
qed

lemma fmt02_nat: "n < 100 \<Longrightarrow> fmt02 (int n) = fixed_digits 2 n"
  using zfill_show_nat_fixed[of 2 n] by (simp add: fmt02_def py_str_int_def)

subsection \<open>Characters that survive stripping\<close>

lemma in_set_dropWhile: "c \<in> set s \<Longrightarrow> \<not> P c \<Longrightarrow> c \<in> set (dropWhile P s)"
  by (induction s) auto

lemma in_set_py_strip: "c \<in> set s \<Longrightarrow> \<not> py_isspace c \<Longrightarrow> c \<in> set (py_strip s)"
  unfolding py_strip_def by (auto intro!: in_set_dropWhile)

lemma py_int_non_digit:
  assumes "c \<in> set t" and "\<not> is_digit c" and "\<not> py_isspace c"
    and "c \<noteq> CHR ''_''" and "c \<noteq> CHR ''+''" and "c \<noteq> CHR ''-''"
  shows "py_int t = None"
proof -
  have "c \<in> set (py_strip t)" using assms(1,3) by (rule in_set_py_strip)
  then show ?thesis
    using assms(2,4-6)
    by (auto simp: py_int_def int_body_ok_def list_all_iff split: list.splits)
qed

lemma py_int_dot: "CHR ''.'' \<in> set t \<Longrightarrow> py_int t = None"
  by (rule py_int_non_digit[of "CHR ''.''"]) (simp_all add: is_digit_def py_isspace_def)

lemma py_strip_id:
  assumes "s \<noteq> []" and "\<not> py_isspace (hd s)" and "\<not> py_isspace (last s)"
  shows "py_strip s = s"
proof -
  have "dropWhile py_isspace s = s" using assms(1,2) by (simp add: dropWhile_eq_self_iff)
  moreover have "dropWhile py_isspace (rev s) = rev s"
    using assms(1,3) by (simp add: dropWhile_eq_self_iff hd_rev)
  ultimately show ?thesis by (simp add: py_strip_def)
qed

subsection \<open>Dictionary lookups\<close>

lemma py_dict_SomeD: "py_dict ps k = Some v \<Longrightarrow> (k, v) \<in> set ps"
  by (simp add: py_dict_map_of) (drule map_of_SomeD, simp)

lemma py_dict_None: "k \<notin> set (map fst ps) \<Longrightarrow> py_dict ps k = None"
  by (simp add: py_dict_map_of map_of_eq_None_iff image_iff)

lemma map_of_filter_key: "map_of (filter (\<lambda>p. fst p = k) xs) k = map_of xs k"
  by (induction xs) auto

lemma py_dict_unique:
  assumes "filter (\<lambda>p. fst p = k) ps = [(k, v)]"
  shows "py_dict ps k = Some v"
proof -
  have "map_of (filter (\<lambda>p. fst p = k) (rev ps)) k = Some v"
    using assms by (simp add: rev_filter [symmetric])
  then show ?thesis by (simp add: py_dict_map_of map_of_filter_key)
qed


subsection \<open>Index labels\<close>

text \<open>A sorted list of distinct labels that is not \<open>0 .. n-1\<close> misses one of them.\<close>

lemma sorted_distinct_gap:
  assumes "sorted xs" and "distinct xs" and "xs \<noteq> [0..<length xs]"
  shows "\<exists>l < length xs. l \<notin> set xs"
proof (rule ccontr)
  assume "\<not> (\<exists>l < length xs. l \<notin> set xs)"
  then have sub: "set [0..<length xs] \<subseteq> set xs" by auto
  have "card (set xs) = card (set [0..<length xs])" using assms(2) by (simp add: distinct_card)
  with sub have "set [0..<length xs] = set xs"
    by (intro card_subset_eq) simp_all
  then have "xs = [0..<length xs]"
    using sorted_distinct_set_unique[of xs "[0..<length xs]"] assms(1,2) by simp
  with assms(3) show False ..
qed


subsection \<open>Splitting and lowering digit strings\<close>

lemma py_split_acc_no_space:
  "list_all (\<lambda>c. \<not> py_isspace c) s \<Longrightarrow>
   py_split_acc cur s = (if cur = [] \<and> s = [] then [] else [rev cur @ s])"
  by (induction s arbitrary: cur) auto

lemma py_split_no_space:
  "s \<noteq> [] \<Longrightarrow> list_all (\<lambda>c. \<not> py_isspace c) s \<Longrightarrow> py_split s = [s]"
  by (simp add: py_split_def py_split_acc_no_space)

lemma py_lower_digits: "list_all is_digit s \<Longrightarrow> py_lower s = s"
  by (induction s) (auto simp: py_lower_def py_lower_char_def is_digit_def Let_def)

lemma digits_val_zeros [simp]: "digits_val (replicate m CHR ''0'') = 0"
proof (induction m)
  case (Suc m)
  have "replicate (Suc m) CHR ''0'' = [CHR ''0''] @ replicate m CHR ''0''" by simp
  then show ?case by (simp only: digits_val_append) (simp add: Suc digit_val_def)
qed (simp add: digits_val_def)

lemma digits_val_zfill_show_nat [simp]: "digits_val (zfill (show_nat k) w) = k"
  using show_nat_digits[of k] by (simp add: zfill_show_nat)


lemma length_show_nat_ge: "10 ^ k \<le> n \<Longrightarrow> k < length (show_nat n)"
proof (induction k arbitrary: n)
  case 0
  then show ?case using show_nat_hd[of n] by simp
next
  case (Suc k)
  have "(10::nat) \<le> 10 ^ Suc k" using one_le_power[of "10::nat" k] by simp
  with Suc.prems have "10 \<le> n" by linarith
  moreover have "10 ^ k \<le> n div 10" using Suc.prems by (simp add: less_eq_div_iff_mult_less_eq mult.commute)
  ultimately show ?case using Suc.IH by (simp add: show_nat_big)
qed

lemma show_nat_fixed: "10 ^ (k - 1) \<le> n \<Longrightarrow> n < 10 ^ k \<Longrightarrow> 0 < k \<Longrightarrow> show_nat n = fixed_digits k n"
proof -
  assume a: "10 ^ (k - 1) \<le> n" "n < 10 ^ k" "0 < k"
  have "k - 1 < length (show_nat n)" using a(1) by (rule length_show_nat_ge)
  then have "k - length (show_nat n) = 0" by simp
  with show_nat_padded[OF a(3,2)] show ?thesis by simp
qed

end
