(* ===== verification/Frame.thy ===== *)
theory Frame
  imports Prelude "HOL-Library.Sublist"
begin

text \<open>
  The pandas \<open>DataFrame\<close> as the pipeline script uses it: a list of index labels and
  a list of named columns, each holding one cell per label. A cell is text or missing
  (\<open>None\<close> is \<open>NaN\<close>/\<open>pd.NA\<close>). Before STEP 2 the columns still carry pandas'
  dtypes (\<open>raw_col\<close>); after it every column is text. Column access raises
  \<open>KeyError\<close>; assigning \<open>df[name] = values\<close> replaces a column in place or appends
  it; \<open>head\<close> keeps a prefix of the rows; a boolean mask keeps the rows it marks.
\<close>

type_synonym cell = "string option"

datatype pd_error = KeyError string | TypeError | ValueError | InvalidIndexError

record frame =
  idx :: "nat list"
  cols :: "(string \<times> cell list) list"

text \<open>
  A column as \<open>read_csv\<close> types it: text (\<open>object\<close>), integers (\<open>int64\<close>, no
  missing values possible) or floats (\<open>float64\<close>, a value given by its Python
  \<open>repr\<close> text, since the script only ever turns floats into text).
\<close>

datatype raw_col = ObjCol "cell list" | IntCol "int list" | FloatCol "cell list"

record raw_frame =
  raw_idx :: "nat list"
  raw_cols :: "(string \<times> raw_col) list"

definition bindE :: "'e + 'a \<Rightarrow> ('a \<Rightarrow> 'e + 'b) \<Rightarrow> 'e + 'b" where
  "bindE r f = (case r of Inl e \<Rightarrow> Inl e | Inr x \<Rightarrow> f x)"

definition n_rows :: "frame \<Rightarrow> nat" where
  "n_rows df = length (idx df)"

definition col_names :: "frame \<Rightarrow> string list" where
  "col_names df = map fst (cols df)"

text \<open>\<open>df[name]\<close>.\<close>

definition get_col :: "frame \<Rightarrow> string \<Rightarrow> pd_error + cell list" where
  "get_col df n = (case map_of (cols df) n of None \<Rightarrow> Inl (KeyError n) | Some c \<Rightarrow> Inr c)"

text \<open>\<open>df[name] = values\<close>, for values aligned with the frame's index.\<close>

fun replace_col :: "string \<Rightarrow> cell list \<Rightarrow> (string \<times> cell list) list \<Rightarrow> (string \<times> cell list) list" where
  "replace_col n c [] = []"
| "replace_col n c ((m, d) # xs) = (if m = n then (m, c) else (m, d)) # replace_col n c xs"

definition set_col :: "string \<Rightarrow> cell list \<Rightarrow> frame \<Rightarrow> frame" where
  "set_col n c df =
     (if n \<in> set (col_names df)
      then df\<lparr>cols := replace_col n c (cols df)\<rparr>
      else df\<lparr>cols := cols df @ [(n, c)]\<rparr>)"

text \<open>\<open>df[name] = df[name].apply(f)\<close> and the like: a cell-wise map of one column.\<close>

definition map_col :: "string \<Rightarrow> (cell \<Rightarrow> cell) \<Rightarrow> frame \<Rightarrow> pd_error + frame" where
  "map_col n f df = bindE (get_col df n) (\<lambda>c. Inr (set_col n (map f c) df))"

text \<open>\<open>Series.astype(str)\<close> on an object column: a missing value becomes \<open>"nan"\<close>.\<close>

definition cell_str :: "cell \<Rightarrow> string" where
  "cell_str c = (case c of None \<Rightarrow> ''nan'' | Some s \<Rightarrow> s)"

text \<open>\<open>fillna(v)\<close> on one cell.\<close>

definition fillna :: "string \<Rightarrow> cell \<Rightarrow> cell" where
  "fillna v c = (case c of None \<Rightarrow> Some v | Some s \<Rightarrow> Some s)"

fun select_mask :: "bool list \<Rightarrow> 'a list \<Rightarrow> 'a list" where
  "select_mask [] xs = []"
| "select_mask (b # bs) [] = []"
| "select_mask (b # bs) (x # xs) = (if b then x # select_mask bs xs else select_mask bs xs)"

text \<open>\<open>df[mask]\<close>: the rows a boolean mask marks, index labels kept.\<close>

definition select_rows :: "bool list \<Rightarrow> frame \<Rightarrow> frame" where
  "select_rows m df =
     \<lparr>idx = select_mask m (idx df), cols = map (\<lambda>(n, c). (n, select_mask m c)) (cols df)\<rparr>"

text \<open>\<open>df.head(k)\<close>.\<close>

definition head_rows :: "nat \<Rightarrow> frame \<Rightarrow> frame" where
  "head_rows k df = \<lparr>idx = take k (idx df), cols = map (\<lambda>(n, c). (n, take k c)) (cols df)\<rparr>"

text \<open>Well-formed frame: distinct column names, every column as long as the index.\<close>

definition frame_wf :: "frame \<Rightarrow> bool" where
  "frame_wf df =
     (distinct (col_names df) \<and> list_all (\<lambda>(n, c). length c = n_rows df) (cols df))"

text \<open>No missing cell: the null-free invariant of the canonical dataset.\<close>

definition no_null :: "frame \<Rightarrow> bool" where
  "no_null df = list_all (\<lambda>(n, c). list_all (\<lambda>x. x \<noteq> None) c) (cols df)"

text \<open>\<open>df.fillna(v)\<close> on the whole frame.\<close>

definition fillna_frame :: "string \<Rightarrow> frame \<Rightarrow> frame" where
  "fillna_frame v df = df\<lparr>cols := map (\<lambda>(n, c). (n, map (fillna v) c)) (cols df)\<rparr>"

text \<open>
  \<open>pd.concat([a, b], axis=1)\<close> (outer join, \<open>sort=False\<close>). Equal indexes are
  kept; otherwise the result index is the union, the labels of \<open>a\<close> followed by the
  new labels of \<open>b\<close> in their order (\<open>Index.union(sort=False)\<close>), and every column
  is reindexed onto it by label, a label its frame lacks giving \<open>NaN\<close>. Reindexing
  a frame whose index has a repeated label raises \<open>InvalidIndexError\<close>.
\<close>

definition union_idx :: "nat list \<Rightarrow> nat list \<Rightarrow> nat list" where
  "union_idx a b = a @ filter (\<lambda>l. l \<notin> set a) b"

definition reindex :: "nat list \<Rightarrow> nat list \<Rightarrow> cell list \<Rightarrow> cell list" where
  "reindex old new c = map (\<lambda>l. case map_of (zip old c) l of None \<Rightarrow> None | Some x \<Rightarrow> x) new"

abbreviation concat_frame :: "frame \<Rightarrow> frame \<Rightarrow> frame" where
  "concat_frame a b \<equiv> \<lparr>idx = union_idx (idx a) (idx b),
           cols = map (\<lambda>(n, c). (n, reindex (idx a) (union_idx (idx a) (idx b)) c)) (cols a) @
                  map (\<lambda>(n, c). (n, reindex (idx b) (union_idx (idx a) (idx b)) c)) (cols b)\<rparr>"

definition concat_axis1 :: "frame \<Rightarrow> frame \<Rightarrow> pd_error + frame" where
  "concat_axis1 a b =
     (if idx a = idx b then Inr \<lparr>idx = idx a, cols = cols a @ cols b\<rparr>
      else if \<not> distinct (idx a) \<or> \<not> distinct (idx b) then Inl InvalidIndexError
      else Inr (concat_frame a b))"

section \<open>Lemmas\<close>

named_theorems frame_simps "simplification rules of the frame operations"

lemma bindE_simps [simp, frame_simps]:
  "bindE (Inl e) f = Inl e" "bindE (Inr x) f = f x"
  by (simp_all add: bindE_def)

lemma bindE_Inr_iff: "bindE r f = Inr y \<longleftrightarrow> (\<exists>x. r = Inr x \<and> f x = Inr y)"
  by (cases r) simp_all

lemma get_col_Inr_iff: "get_col df n = Inr c \<longleftrightarrow> map_of (cols df) n = Some c"
  by (simp add: get_col_def split: option.splits)

lemma get_col_KeyError: "n \<notin> set (col_names df) \<Longrightarrow> get_col df n = Inl (KeyError n)"
  by (simp add: get_col_def col_names_def map_of_eq_None_iff [THEN iffD2])

lemma map_fst_replace_col [simp]: "map fst (replace_col n c xs) = map fst xs"
  by (induction xs rule: replace_col.induct) auto

lemma map_of_replace_col:
  "map_of (replace_col n c xs) k = (if k = n \<and> k \<in> set (map fst xs) then Some c else map_of xs k)"
  by (induction xs rule: replace_col.induct) (auto, force+)

lemma in_set_replace_col: "(a, b) \<in> set (replace_col n c xs) \<Longrightarrow> (a, b) \<in> set xs \<or> b = c"
  by (induction xs rule: replace_col.induct) (auto split: if_splits)

lemma idx_set_col [simp, frame_simps]: "idx (set_col n c df) = idx df"
  by (simp add: set_col_def)

lemma n_rows_set_col [simp, frame_simps]: "n_rows (set_col n c df) = n_rows df"
  by (simp add: n_rows_def)

lemma col_names_set_col:
  "col_names (set_col n c df) =
     (if n \<in> set (col_names df) then col_names df else col_names df @ [n])"
  by (simp add: set_col_def col_names_def)

lemma set_col_names [simp, frame_simps]:
  "set (col_names (set_col n c df)) = insert n (set (col_names df))"
  by (auto simp: col_names_set_col)

lemma map_of_set_col:
  "map_of (cols (set_col n c df)) m = (if m = n then Some c else map_of (cols df) m)"
proof (cases "n \<in> set (col_names df)")
  case True
  then show ?thesis by (simp add: set_col_def col_names_def map_of_replace_col)
next
  case False
  then have "map_of (cols df) n = None"
    by (simp add: col_names_def map_of_eq_None_iff)
  with False show ?thesis
    by (simp add: set_col_def map_add_def split: option.splits)
qed

lemma get_col_set_col [simp, frame_simps]:
  "get_col (set_col n c df) m = (if m = n then Inr c else get_col df m)"
  by (simp add: get_col_def map_of_set_col)

lemma frame_wf_set_col:
  "frame_wf df \<Longrightarrow> length c = n_rows df \<Longrightarrow> frame_wf (set_col n c df)"
  by (auto simp: frame_wf_def set_col_def col_names_def list_all_iff n_rows_def
           dest!: in_set_replace_col)

lemma map_col_Inr:
  "map_of (cols df) n = Some c \<Longrightarrow> map_col n f df = Inr (set_col n (map f c) df)"
  by (simp add: map_col_def get_col_def)

lemma map_col_KeyError:
  "n \<notin> set (col_names df) \<Longrightarrow> map_col n f df = Inl (KeyError n)"
  by (simp add: map_col_def get_col_KeyError)

lemma map_col_wf:
  assumes "frame_wf df" and "map_col n f df = Inr df'"
  shows "frame_wf df'"
proof -
  obtain c where c: "map_of (cols df) n = Some c" and df': "df' = set_col n (map f c) df"
    using assms(2) by (auto simp: map_col_def bindE_Inr_iff get_col_Inr_iff)
  from c have "(n, c) \<in> set (cols df)" by (rule map_of_SomeD)
  with assms(1) have "length (map f c) = n_rows df"
    by (auto simp: frame_wf_def list_all_iff)
  with assms(1) df' show ?thesis by (simp add: frame_wf_set_col)
qed

lemma select_mask_map: "select_mask m (map f xs) = map f (select_mask m xs)"
  by (induction m xs rule: select_mask.induct) auto

lemma select_mask_length:
  "length m = length xs \<Longrightarrow> length (select_mask m xs) = length (filter id m)"
  by (induction m xs rule: select_mask.induct) auto

lemma select_mask_subseq: "subseq (select_mask m xs) xs"
  by (induction m xs rule: select_mask.induct) auto

lemma select_mask_length_le: "length (select_mask m xs) \<le> length xs"
  by (induction m xs rule: select_mask.induct) auto

lemma select_rows_simps [simp, frame_simps]:
  "idx (select_rows m df) = select_mask m (idx df)"
  "col_names (select_rows m df) = col_names df"
  by (simp_all add: select_rows_def col_names_def comp_def case_prod_beta)

lemma map_of_select_rows:
  "map_of (cols (select_rows m df)) n = map_option (select_mask m) (map_of (cols df) n)"
  by (simp add: select_rows_def map_of_map case_prod_beta)

lemma get_col_select_rows:
  "get_col df n = Inr c \<Longrightarrow> get_col (select_rows m df) n = Inr (select_mask m c)"
  by (simp add: get_col_Inr_iff map_of_select_rows)

lemma frame_wf_select_rows:
  assumes "frame_wf df" and "length m = n_rows df"
  shows "frame_wf (select_rows m df)"
  using assms
  by (auto simp: frame_wf_def select_rows_def col_names_def n_rows_def list_all_iff
                 comp_def case_prod_beta select_mask_length)

lemma frame_wf_col_length:
  "frame_wf df \<Longrightarrow> get_col df n = Inr c \<Longrightarrow> length c = n_rows df"
  by (auto simp: frame_wf_def get_col_Inr_iff list_all_iff dest!: map_of_SomeD)


lemma no_null_fillna_frame: "no_null (fillna_frame v df)"
  by (auto simp: no_null_def fillna_frame_def list_all_iff fillna_def split: option.splits)

lemma fillna_frame_simps [simp, frame_simps]:
  "idx (fillna_frame v df) = idx df"
  "col_names (fillna_frame v df) = col_names df"
  "n_rows (fillna_frame v df) = n_rows df"
  by (simp_all add: fillna_frame_def col_names_def n_rows_def comp_def case_prod_beta)

lemma map_of_fillna_frame:
  "map_of (cols (fillna_frame v df)) n = map_option (map (fillna v)) (map_of (cols df) n)"
  by (simp add: fillna_frame_def map_of_map case_prod_beta)

lemma frame_wf_fillna_frame: "frame_wf df \<Longrightarrow> frame_wf (fillna_frame v df)"
  by (auto simp: frame_wf_def list_all_iff fillna_frame_def n_rows_def col_names_def
                 comp_def case_prod_beta)

lemma length_union_idx_gt:
  "l \<in> set b \<Longrightarrow> l \<notin> set a \<Longrightarrow> length a < length (union_idx a b)"
proof -
  assume "l \<in> set b" "l \<notin> set a"
  then have "filter (\<lambda>l. l \<notin> set a) b \<noteq> []" by (auto simp: filter_empty_conv)
  then show ?thesis by (simp add: union_idx_def)
qed

lemma union_idx_prefix: "p < length a \<Longrightarrow> union_idx a b ! p = a ! p"
  by (simp add: union_idx_def nth_append)

lemma set_union_idx [simp]: "set (union_idx a b) = set a \<union> set b"
  by (auto simp: union_idx_def)

lemma length_reindex [simp]: "length (reindex old new c) = length new"
  by (simp add: reindex_def)

lemma reindex_nth:
  assumes "distinct old" and "length c = length old" and "q < length old"
    and "p < length new" and "new ! p = old ! q"
  shows "reindex old new c ! p = c ! q"
proof -
  have "map_of (zip old c) (old ! q) = Some (c ! q)"
    using assms(1-3) by (simp add: map_of_zip_nth)
  with assms(4,5) show ?thesis by (simp add: reindex_def)
qed

lemma reindex_missing:
  assumes "p < length new" and "new ! p \<notin> set old" and "length c = length old"
  shows "reindex old new c ! p = None"
proof -
  have "map_of (zip old c) (new ! p) = None"
    using assms(2,3) by simp
  with assms(1) show ?thesis by (simp add: reindex_def)
qed


lemma reindex_same: "distinct old \<Longrightarrow> length c = length old \<Longrightarrow> reindex old old c = c"
  by (rule nth_equalityI) (simp_all add: reindex_nth)

lemma union_idx_same [simp]: "union_idx a a = a"
  by (simp add: union_idx_def)

text \<open>
  Either branch of \<open>concat_axis1\<close> on frames with unique labels is the reindexing
  onto the union.
\<close>

lemma concat_axis1_union:
  assumes "distinct (idx a)" and "distinct (idx b)" and "frame_wf a" and "frame_wf b"
  shows "concat_axis1 a b = Inr (concat_frame a b)"
proof (cases "idx a = idx b")
  case True
  have "map (\<lambda>(n, c). (n, reindex (idx a) (idx a) c)) (cols a) = cols a"
    using assms(1,3) by (auto simp: frame_wf_def list_all_iff n_rows_def reindex_same
                              intro!: map_idI)
  moreover have "map (\<lambda>(n, c). (n, reindex (idx b) (idx b) c)) (cols b) = cols b"
    using assms(2,4) by (auto simp: frame_wf_def list_all_iff n_rows_def reindex_same
                              intro!: map_idI)
  ultimately show ?thesis using True by (simp add: concat_axis1_def)
next
  case False
  with assms(1,2) show ?thesis by (simp add: concat_axis1_def)
qed


lemma get_col_concat_left:
  "get_col a n = Inr c \<Longrightarrow> get_col (concat_frame a b) n = Inr (reindex (idx a) (union_idx (idx a) (idx b)) c)"
  by (simp add: get_col_Inr_iff map_of_map case_prod_beta map_add_def)

lemma get_col_concat_right:
  "n \<notin> set (col_names a) \<Longrightarrow> get_col b n = Inr c \<Longrightarrow>
   get_col (concat_frame a b) n = Inr (reindex (idx b) (union_idx (idx a) (idx b)) c)"
  by (simp add: get_col_Inr_iff map_of_map case_prod_beta map_add_def col_names_def
                map_of_eq_None_iff [THEN iffD2] split: option.splits)

lemma no_null_get_col: "no_null df \<Longrightarrow> get_col df n = Inr c \<Longrightarrow> None \<notin> set c"
  by (auto simp: no_null_def list_all_iff get_col_Inr_iff dest!: map_of_SomeD)


subsection \<open>The null-free invariant under the operations\<close>

lemma no_null_set_col: "no_null df \<Longrightarrow> None \<notin> set c \<Longrightarrow> no_null (set_col n c df)"
  by (auto simp: no_null_def set_col_def list_all_iff dest!: in_set_replace_col)
     (metis not_None_eq)+

lemma no_null_map_col:
  assumes "no_null df" and "map_col n f df = Inr df'" and "\<And>s. f (Some s) \<noteq> None"
  shows "no_null df'"
proof -
  obtain c where c: "map_of (cols df) n = Some c" and df': "df' = set_col n (map f c) df"
    using assms(2) by (auto simp: map_col_def bindE_Inr_iff get_col_Inr_iff)
  have "None \<notin> set c" using assms(1) c by (auto simp: no_null_def list_all_iff dest!: map_of_SomeD)
  then have "None \<notin> set (map f c)" using assms(3) by (auto simp: image_iff) (metis not_None_eq)
  with assms(1) df' show ?thesis by (simp add: no_null_set_col)
qed

lemma map_col_names:
  assumes "map_col n f df = Inr df'"
  shows "set (col_names df') = set (col_names df) \<and> idx df' = idx df"
proof -
  obtain c where c: "map_of (cols df) n = Some c" and df': "df' = set_col n (map f c) df"
    using assms by (auto simp: map_col_def bindE_Inr_iff get_col_Inr_iff)
  have "n \<in> set (col_names df)" using c by (force simp: col_names_def dest: map_of_SomeD)
  with df' show ?thesis by (simp add: col_names_set_col)
qed

lemma get_col_present:
  "n \<in> set (col_names df) \<Longrightarrow> \<exists>c. get_col df n = Inr c"
proof -
  assume "n \<in> set (col_names df)"
  then have "map_of (cols df) n \<noteq> None" by (simp add: col_names_def map_of_eq_None_iff)
  then show ?thesis by (auto simp: get_col_def)
qed

lemma map_col_present:
  "n \<in> set (col_names df) \<Longrightarrow> \<exists>df'. map_col n f df = Inr df'"
  by (auto simp: map_col_def dest!: get_col_present)

lemma set_select_mask: "set (select_mask m xs) \<subseteq> set xs"
  by (induction m xs rule: select_mask.induct) auto

lemma list_all_select_mask: "list_all P xs \<Longrightarrow> list_all P (select_mask m xs)"
  by (induction m xs rule: select_mask.induct) auto

lemma no_null_select_rows: "no_null df \<Longrightarrow> no_null (select_rows m df)"
  unfolding no_null_def select_rows_def frame.select_convs list.pred_map
  by (erule list.pred_mono_strong) (auto simp: list_all_select_mask)

lemma select_mask_all: "length xs \<le> length m \<Longrightarrow> list_all id m \<Longrightarrow> select_mask m xs = xs"
  by (induction m xs rule: select_mask.induct) auto

lemma select_rows_all:
  assumes "frame_wf df" and "length m = n_rows df" and "list_all id m"
  shows "select_rows m df = df"
proof -
  have "map (\<lambda>(n, c). (n, select_mask m c)) (cols df) = cols df"
  proof (rule map_idI)
    fix p assume "p \<in> set (cols df)"
    with assms(1,2) have "length (snd p) = length m" by (auto simp: frame_wf_def list_all_iff n_rows_def)
    with assms(3) show "(\<lambda>(n, c). (n, select_mask m c)) p = p" by (cases p) (simp add: select_mask_all)
  qed
  with assms(2,3) show ?thesis by (simp add: select_rows_def select_mask_all n_rows_def)
qed


end
