(* ===== verification/Missing.thy ===== *)
theory Missing
  imports Frame
begin

text \<open>
  STEP 2 of the cleaning script (lines 26--31): for every column, an object column
  has its blank strings (\<open>replace(r'^\s*$', pd.NA, regex=True)\<close>) and its missing
  values replaced by \<open>"Unknown"\<close>; any other column is filled with \<open>"Unknown"\<close> and
  turned into text with \<open>astype(str)\<close>. The regular expression matches exactly the
  strings made of \<open>str.isspace\<close> characters.
\<close>

definition is_blank :: "string \<Rightarrow> bool" where
  "is_blank s = list_all py_isspace s"

definition blank_to_na :: "cell \<Rightarrow> cell" where
  "blank_to_na c = (case c of None \<Rightarrow> None | Some s \<Rightarrow> if is_blank s then None else Some s)"

fun clean_column :: "raw_col \<Rightarrow> cell list" where
  "clean_column (ObjCol c) = map (fillna ''Unknown'') (map blank_to_na c)"
| "clean_column (IntCol xs) = map (\<lambda>i. Some (py_str_int i)) xs"
| "clean_column (FloatCol c) = map (fillna ''Unknown'') c"

definition clean_missing :: "raw_frame \<Rightarrow> frame" where
  "clean_missing rf =
     \<lparr>idx = raw_idx rf, cols = map (\<lambda>(n, c). (n, clean_column c)) (raw_cols rf)\<rparr>"

fun raw_col_length :: "raw_col \<Rightarrow> nat" where
  "raw_col_length (ObjCol c) = length c"
| "raw_col_length (IntCol xs) = length xs"
| "raw_col_length (FloatCol c) = length c"

text \<open>A raw frame as \<open>read_csv\<close> builds it: distinct names, equal column lengths.\<close>

definition raw_wf :: "raw_frame \<Rightarrow> bool" where
  "raw_wf rf =
     (distinct (map fst (raw_cols rf)) \<and>
      list_all (\<lambda>(n, c). raw_col_length c = length (raw_idx rf)) (raw_cols rf))"

text \<open>The float values of a raw frame, by their \<open>repr\<close> texts, are not blank.\<close>

fun float_reprs_ok :: "raw_col \<Rightarrow> bool" where
  "float_reprs_ok (FloatCol c) = list_all (\<lambda>x. case x of None \<Rightarrow> True | Some r \<Rightarrow> \<not> is_blank r) c"
| "float_reprs_ok _ = True"

definition text_cell :: "cell \<Rightarrow> bool" where
  "text_cell x = (case x of None \<Rightarrow> False | Some s \<Rightarrow> \<not> is_blank s)"

section \<open>Lemmas\<close>

lemma length_clean_column [simp]: "length (clean_column c) = raw_col_length c"
  by (cases c) simp_all

lemma not_blank_Unknown [simp]: "\<not> is_blank ''Unknown''"
  by (simp add: is_blank_def py_isspace_def)

lemma not_blank_show_nat: "\<not> is_blank (show_nat n)"
proof -
  obtain c cs where "show_nat n = c # cs" and "is_digit c"
    using show_nat_hd[of n] by (cases "show_nat n") auto
  then show ?thesis by (simp add: is_blank_def)
qed

lemma not_blank_py_str_int [simp]: "\<not> is_blank (py_str_int i)"
  using not_blank_show_nat by (simp add: py_str_int_def is_blank_def)

lemma clean_column_text:
  "float_reprs_ok c \<Longrightarrow> list_all text_cell (clean_column c)"
  by (cases c) (auto simp: list_all_iff text_cell_def fillna_def blank_to_na_def
                     split: option.splits)

lemma clean_column_not_None: "list_all (\<lambda>x. x \<noteq> None) (clean_column c)"
  by (cases c) (auto simp: list_all_iff fillna_def split: option.splits)

lemma clean_missing_simps [simp]:
  "idx (clean_missing rf) = raw_idx rf"
  "col_names (clean_missing rf) = map fst (raw_cols rf)"
  by (simp_all add: clean_missing_def col_names_def comp_def case_prod_beta)

lemma clean_obj_cell:
  "fillna ''Unknown'' (blank_to_na x) =
     Some (case x of None \<Rightarrow> ''Unknown'' | Some s \<Rightarrow> if is_blank s then ''Unknown'' else s)"
  by (simp add: fillna_def blank_to_na_def split: option.splits)

lemma map_of_clean_missing:
  "map_of (cols (clean_missing rf)) n = map_option clean_column (map_of (raw_cols rf) n)"
  by (simp add: clean_missing_def map_of_map case_prod_beta)

section \<open>Properties of STEP 2\<close>

text \<open>
  C8. After STEP 2 no cell of the table is missing: every column, whatever its
  dtype, holds text in every row.
\<close>

theorem clean_missing_no_null: "no_null (clean_missing rf)"
  using clean_column_not_None [unfolded list_all_iff]
  by (auto simp: no_null_def clean_missing_def list_all_iff)

text \<open>
  After STEP 2 no cell is blank either, provided the float values \<open>read_csv\<close>
  produced print as non-blank text (as every Python float \<open>repr\<close> does).
\<close>

theorem clean_missing_text:
  assumes "list_all (\<lambda>(n, c). float_reprs_ok c) (raw_cols rf)"
  shows "list_all (\<lambda>(n, c). list_all text_cell c) (cols (clean_missing rf))"
  using assms clean_column_text [unfolded list_all_iff]
  by (fastforce simp: clean_missing_def list_all_iff)

theorem clean_missing_text_witness:
  "list_all (\<lambda>(n, c). float_reprs_ok c)
     (raw_cols \<lparr>raw_idx = [0, 1], raw_cols = [(''DR_NO'', IntCol [10, 11]),
        (''Mocodes'', ObjCol [Some '' '', None]), (''LAT'', FloatCol [Some ''34.05'', None])]\<rparr>) \<and>
   list_all (\<lambda>(n, c). list_all text_cell c)
     (cols (clean_missing \<lparr>raw_idx = [0, 1], raw_cols = [(''DR_NO'', IntCol [10, 11]),
        (''Mocodes'', ObjCol [Some '' '', None]), (''LAT'', FloatCol [Some ''34.05'', None])]\<rparr>))"
proof -
  let ?rf = "\<lparr>raw_idx = [0, 1], raw_cols = [(''DR_NO'', IntCol [10, 11]),
        (''Mocodes'', ObjCol [Some '' '', None]), (''LAT'', FloatCol [Some ''34.05'', None])]\<rparr>"
  have h: "list_all (\<lambda>(n, c). float_reprs_ok c) (raw_cols ?rf)"
    by (simp add: is_blank_def py_isspace_def)
  show ?thesis using h clean_missing_text[OF h] by simp
qed

text \<open>
  STEP 2 keeps the shape of the table: a well-formed raw table becomes a
  well-formed frame with the same index and the same column names, in order.
\<close>

theorem clean_missing_wf:
  assumes "raw_wf rf"
  shows "frame_wf (clean_missing rf) \<and> idx (clean_missing rf) = raw_idx rf \<and>
         col_names (clean_missing rf) = map fst (raw_cols rf)"
  using assms
  by (auto simp: raw_wf_def frame_wf_def clean_missing_def col_names_def n_rows_def
                 list_all_iff comp_def case_prod_beta)

theorem clean_missing_wf_witness:
  "raw_wf \<lparr>raw_idx = [0, 1], raw_cols = [(''DR_NO'', IntCol [10, 11]), (''Mocodes'', ObjCol [Some '' '', None])]\<rparr> \<and>
   frame_wf (clean_missing \<lparr>raw_idx = [0, 1], raw_cols = [(''DR_NO'', IntCol [10, 11]), (''Mocodes'', ObjCol [Some '' '', None])]\<rparr>)"
proof -
  let ?rf = "\<lparr>raw_idx = [0::nat, 1], raw_cols = [(''DR_NO'', IntCol [10, 11]), (''Mocodes'', ObjCol [Some '' '', None])]\<rparr>"
  have h: "raw_wf ?rf" by (simp add: raw_wf_def)
  show ?thesis using h clean_missing_wf[OF h] by simp
qed

text \<open>
  On an object column STEP 2 maps a missing or blank cell to \<open>"Unknown"\<close> and
  keeps every other text unchanged.
\<close>

theorem clean_missing_object:
  assumes "map_of (raw_cols rf) n = Some (ObjCol c)"
  shows "get_col (clean_missing rf) n =
           Inr (map (\<lambda>x. Some (case x of None \<Rightarrow> ''Unknown''
                                    | Some s \<Rightarrow> if is_blank s then ''Unknown'' else s)) c)"
  using assms by (simp add: get_col_def map_of_clean_missing clean_obj_cell)

theorem clean_missing_object_witness:
  "map_of (raw_cols \<lparr>raw_idx = [0, 1, 2], raw_cols = [(''Vict Sex'', ObjCol [Some '' '', None, Some ''M''])]\<rparr>) ''Vict Sex''
     = Some (ObjCol [Some '' '', None, Some ''M'']) \<and>
   get_col (clean_missing \<lparr>raw_idx = [0, 1, 2], raw_cols = [(''Vict Sex'', ObjCol [Some '' '', None, Some ''M''])]\<rparr>) ''Vict Sex''
     = Inr [Some ''Unknown'', Some ''Unknown'', Some ''M'']"
proof -
  let ?rf = "\<lparr>raw_idx = [0::nat, 1, 2], raw_cols = [(''Vict Sex'', ObjCol [Some '' '', None, Some ''M''])]\<rparr>"
  have h: "map_of (raw_cols ?rf) ''Vict Sex'' = Some (ObjCol [Some '' '', None, Some ''M''])" by simp
  show ?thesis using h clean_missing_object[OF h] by (simp add: is_blank_def py_isspace_def)
qed

end
