(* ===== verification/Dedup.thy ===== *)
theory Dedup
  imports Frame
begin

text \<open>
  STEP 3 of the cleaning script (lines 38--40): \<open>DR_NO\<close> is turned into text and
  \<open>drop_duplicates(subset='DR_NO')\<close> keeps the first row of each key, in the order of
  the table and with the surviving rows' index labels (no \<open>reset_index\<close>). pandas
  marks duplicates in one pass with a table of the keys seen so far; that pass is
  \<open>first_occ\<close>, and the rows are then selected with the mask.
\<close>

fun first_occ :: "'a list \<Rightarrow> 'a list \<Rightarrow> bool list" where
  "first_occ seen [] = []"
| "first_occ seen (x # xs) = (x \<notin> set seen) # first_occ (x # seen) xs"

definition keep_first_mask :: "'a list \<Rightarrow> bool list" where
  "keep_first_mask xs = first_occ [] xs"

definition drop_duplicates :: "string \<Rightarrow> frame \<Rightarrow> pd_error + frame" where
  "drop_duplicates key df = bindE (get_col df key) (\<lambda>c. Inr (select_rows (keep_first_mask c) df))"

definition dedup_step :: "frame \<Rightarrow> pd_error + frame" where
  "dedup_step df =
     bindE (map_col ''DR_NO'' (\<lambda>x. Some (cell_str x)) df) (drop_duplicates ''DR_NO'')"

section \<open>Lemmas\<close>

lemma length_first_occ [simp]: "length (first_occ seen xs) = length xs"
  by (induction xs arbitrary: seen) auto

lemma first_occ_nth:
  "i < length xs \<Longrightarrow> first_occ seen xs ! i = (xs ! i \<notin> set seen \<and> xs ! i \<notin> set (take i xs))"
proof (induction xs arbitrary: seen i)
  case Nil
  then show ?case by simp
next
  case (Cons x xs)
  then show ?case by (cases i) auto
qed

lemma remdups_snoc: "remdups (ys @ [x]) = filter (\<lambda>y. y \<noteq> x) (remdups ys) @ [x]"
  by (induction ys) auto

lemma rev_remdups_rev_Cons:
  "rev (remdups (rev xs @ [x])) = x # filter (\<lambda>y. y \<noteq> x) (rev (remdups (rev xs)))"
  by (simp add: remdups_snoc rev_filter)

lemma select_first_occ:
  "select_mask (first_occ seen xs) xs = filter (\<lambda>y. y \<notin> set seen) (rev (remdups (rev xs)))"
proof (induction xs arbitrary: seen)
  case Nil
  then show ?case by simp
next
  case (Cons x xs)
  show ?case
  proof (cases "x \<in> set seen")
    case True
    then have "filter (\<lambda>y. y \<notin> set seen) (filter (\<lambda>y. y \<noteq> x) (rev (remdups (rev xs))))
               = filter (\<lambda>y. y \<notin> set seen) (rev (remdups (rev xs)))"
      by (auto simp: filter_filter intro: filter_cong)
    with True Cons.IH show ?thesis by (simp add: rev_remdups_rev_Cons)
  next
    case False
    have "filter (\<lambda>y. y \<notin> set (x # seen)) (rev (remdups (rev xs)))
          = filter (\<lambda>y. y \<notin> set seen) (filter (\<lambda>y. y \<noteq> x) (rev (remdups (rev xs))))"
      by (auto simp: filter_filter intro: filter_cong)
    with False Cons.IH[of "x # seen"] show ?thesis by (simp add: rev_remdups_rev_Cons)
  qed
qed

lemma keep_first_mask_nth:
  "i < length xs \<Longrightarrow> keep_first_mask xs ! i = (xs ! i \<notin> set (take i xs))"
  by (simp add: keep_first_mask_def first_occ_nth)

lemma select_keep_first: "select_mask (keep_first_mask xs) xs = rev (remdups (rev xs))"
  using select_first_occ[of "[]" xs] by (simp add: keep_first_mask_def)

lemma dedup_step_Inr:
  assumes "get_col df ''DR_NO'' = Inr c"
  shows "dedup_step df =
           Inr (select_rows (keep_first_mask (map (\<lambda>x. Some (cell_str x)) c))
                 (set_col ''DR_NO'' (map (\<lambda>x. Some (cell_str x)) c) df))"
  using assms by (simp add: dedup_step_def map_col_def drop_duplicates_def)

lemma dedup_step_Inr_iff:
  "dedup_step df = Inr df' \<longleftrightarrow>
     (\<exists>c. get_col df ''DR_NO'' = Inr c \<and>
          df' = select_rows (keep_first_mask (map (\<lambda>x. Some (cell_str x)) c))
                 (set_col ''DR_NO'' (map (\<lambda>x. Some (cell_str x)) c) df))"
  by (cases "get_col df ''DR_NO''") (auto simp: dedup_step_def map_col_def drop_duplicates_def)

section \<open>Properties of STEP 3\<close>

text \<open>
  C5. After STEP 3 the \<open>DR_NO\<close> column is the list of the distinct keys in order of
  first appearance (the reference \<open>rev (remdups (rev keys))\<close>), so \<open>DR_NO\<close> is a
  unique key of the table.
\<close>

theorem dedup_step_keys:
  assumes "get_col df ''DR_NO'' = Inr c"
  shows "\<exists>df'. dedup_step df = Inr df' \<and>
           get_col df' ''DR_NO'' = Inr (rev (remdups (rev (map (\<lambda>x. Some (cell_str x)) c)))) \<and>
           distinct (rev (remdups (rev (map (\<lambda>x. Some (cell_str x)) c))))"
  using assms
  by (simp add: dedup_step_Inr get_col_select_rows select_keep_first)

theorem dedup_step_keys_witness:
  "get_col \<lparr>idx = [0, 1, 2], cols = [(''DR_NO'', [Some ''7'', Some ''8'', Some ''7''])]\<rparr> ''DR_NO''
     = Inr [Some ''7'', Some ''8'', Some ''7''] \<and>
   dedup_step \<lparr>idx = [0, 1, 2], cols = [(''DR_NO'', [Some ''7'', Some ''8'', Some ''7''])]\<rparr>
     = Inr \<lparr>idx = [0, 1], cols = [(''DR_NO'', [Some ''7'', Some ''8''])]\<rparr>"
proof -
  let ?df = "\<lparr>idx = [0::nat, 1, 2], cols = [(''DR_NO'', [Some ''7'', Some ''8'', Some ''7''])]\<rparr>"
  have h: "get_col ?df ''DR_NO'' = Inr [Some ''7'', Some ''8'', Some ''7'']"
    by (simp add: get_col_def)
  from dedup_step_keys[OF h] obtain df' where "dedup_step ?df = Inr df'" by blast
  moreover have "dedup_step ?df = Inr \<lparr>idx = [0, 1], cols = [(''DR_NO'', [Some ''7'', Some ''8''])]\<rparr>"
    using h by (simp add: dedup_step_Inr set_col_def col_names_def select_rows_def
                          keep_first_mask_def cell_str_def)
  ultimately show ?thesis using h by simp
qed

text \<open>
  C6. The one-pass duplicate mask agrees with its positional specification: row
  \<open>i\<close> is kept exactly when its key does not occur in an earlier row.
\<close>

theorem keep_first_mask_spec:
  assumes "i < length keys"
  shows "keep_first_mask keys ! i \<longleftrightarrow> keys ! i \<notin> set (take i keys)"
  using assms by (rule keep_first_mask_nth)

theorem keep_first_mask_spec_witness:
  "2 < length [''7'', ''8'', ''7''] \<and> \<not> keep_first_mask [''7'', ''8'', ''7''] ! 2"
  using keep_first_mask_spec[of 2 "[''7'', ''8'', ''7'']"] by simp

text \<open>
  C7. STEP 3 keeps the frame well formed, keeps its columns, and keeps whole rows:
  the surviving index labels are a subsequence of the original ones, in order, and
  every other column is cut by the same mask as the key.
\<close>

theorem dedup_step_rows:
  assumes "frame_wf df" and "dedup_step df = Inr df'"
  shows "frame_wf df' \<and> col_names df' = col_names df \<and> subseq (idx df') (idx df) \<and>
         (\<exists>m. length m = n_rows df \<and> idx df' = select_mask m (idx df) \<and>
               (\<forall>n d. n \<noteq> ''DR_NO'' \<longrightarrow> get_col df n = Inr d \<longrightarrow>
                      get_col df' n = Inr (select_mask m d)))"
proof -
  obtain c where c: "get_col df ''DR_NO'' = Inr c"
    and df': "df' = select_rows (keep_first_mask (map (\<lambda>x. Some (cell_str x)) c))
                 (set_col ''DR_NO'' (map (\<lambda>x. Some (cell_str x)) c) df)"
    using assms(2) by (auto simp: dedup_step_Inr_iff)
  let ?m = "keep_first_mask (map (\<lambda>x. Some (cell_str x)) c)"
  have len: "length c = n_rows df" using assms(1) c by (rule frame_wf_col_length)
  have wf1: "frame_wf (set_col ''DR_NO'' (map (\<lambda>x. Some (cell_str x)) c) df)"
    using assms(1) len by (simp add: frame_wf_set_col)
  have mlen: "length ?m = n_rows df" using len by (simp add: keep_first_mask_def)
  have "DR_NO_in": "''DR_NO'' \<in> set (col_names df)"
    using c by (force simp: get_col_Inr_iff col_names_def dest: map_of_SomeD)
  have "frame_wf df'"
    using frame_wf_select_rows[OF wf1] mlen df' by simp
  moreover have "col_names df' = col_names df"
    using df' DR_NO_in by (simp add: col_names_set_col)
  moreover have "idx df' = select_mask ?m (idx df)" using df' by simp
  moreover have "\<forall>n d. n \<noteq> ''DR_NO'' \<longrightarrow> get_col df n = Inr d \<longrightarrow>
                      get_col df' n = Inr (select_mask ?m d)"
    using df' by (simp add: get_col_select_rows)
  ultimately show ?thesis using mlen select_mask_subseq by metis
qed

theorem dedup_step_rows_witness:
  "frame_wf \<lparr>idx = [0, 1, 2], cols = [(''DR_NO'', [Some ''7'', Some ''8'', Some ''7'']),
       (''AREA'', [Some ''1'', Some ''2'', Some ''3''])]\<rparr> \<and>
   dedup_step \<lparr>idx = [0, 1, 2], cols = [(''DR_NO'', [Some ''7'', Some ''8'', Some ''7'']),
       (''AREA'', [Some ''1'', Some ''2'', Some ''3''])]\<rparr>
     = Inr \<lparr>idx = [0, 1], cols = [(''DR_NO'', [Some ''7'', Some ''8'']), (''AREA'', [Some ''1'', Some ''2''])]\<rparr> \<and>
   frame_wf \<lparr>idx = [0, 1], cols = [(''DR_NO'', [Some ''7'', Some ''8'']), (''AREA'', [Some ''1'', Some ''2''])]\<rparr>"
proof -
  let ?df = "\<lparr>idx = [0::nat, 1, 2], cols = [(''DR_NO'', [Some ''7'', Some ''8'', Some ''7'']),
       (''AREA'', [Some ''1'', Some ''2'', Some ''3''])]\<rparr>"
  let ?df' = "\<lparr>idx = [0::nat, 1], cols = [(''DR_NO'', [Some ''7'', Some ''8'']), (''AREA'', [Some ''1'', Some ''2''])]\<rparr>"
  have wf: "frame_wf ?df" by (simp add: frame_wf_def col_names_def n_rows_def)
  have d: "dedup_step ?df = Inr ?df'"
    by (simp add: dedup_step_Inr get_col_def set_col_def col_names_def select_rows_def
                  keep_first_mask_def cell_str_def)
  have "frame_wf ?df'" using dedup_step_rows[OF wf d] by blast
  with wf d show ?thesis by simp
qed

text \<open>A table without a \<open>DR_NO\<close> column stops STEP 3 with \<open>KeyError\<close>.\<close>

theorem dedup_step_KeyError:
  assumes "''DR_NO'' \<notin> set (col_names df)"
  shows "dedup_step df = Inl (KeyError ''DR_NO'')"
  using assms by (simp add: dedup_step_def map_col_KeyError)

theorem dedup_step_KeyError_witness:
  "''DR_NO'' \<notin> set (col_names \<lparr>idx = [0], cols = [(''AREA'', [Some ''1''])]\<rparr>) \<and>
   dedup_step \<lparr>idx = [0], cols = [(''AREA'', [Some ''1''])]\<rparr> = Inl (KeyError ''DR_NO'')"
proof -
  have h: "''DR_NO'' \<notin> set (col_names \<lparr>idx = [0::nat], cols = [(''AREA'', [Some ''1''])]\<rparr>)"
    by (simp add: col_names_def)
  show ?thesis using h dedup_step_KeyError[OF h] by simp
qed

end
