(* ===== verification/Time.thy ===== *)
theory Time
  imports Frame
begin

text \<open>
  STEP 5 of \<open>src/Scripts/Data Cleaning and Curation Pipeline.py\<close>: the conversion of
  \<open>TIME OCC\<close> from 24-hour text to \<open>hh:mm AM/PM\<close> by \<open>military_to_am_pm\<close>
  (lines 64--71). The Python function pads its argument with \<open>zfill(4)\<close>, reads the
  hour from the first two characters and the minute from the rest with \<open>int()\<close>,
  builds \<open>pd.Timestamp(f'{hour:02}:{minute:02}')\<close> and prints it with
  \<open>strftime('%I:%M %p')\<close>; any exception yields \<open>"Unknown"\<close>.
  \<open>pd.Timestamp\<close> is modelled on the strings this code can hand it: it accepts
  \<open>"hh:mm"\<close> with two digits each, hour at most 23 and minute at most 59, and
  rejects everything else (\<open>None\<close> is the raised \<open>ValueError\<close>).
\<close>

definition pd_timestamp_hm :: "string \<Rightarrow> (nat \<times> nat) option" where
  "pd_timestamp_hm t =
     (case t of
        [a, b, c, d, e] \<Rightarrow>
          if c = CHR '':'' \<and> list_all is_digit [a, b, d, e]
          then (let h = digits_val [a, b]; m = digits_val [d, e] in
                if h \<le> 23 \<and> m \<le> 59 then Some (h, m) else None)
          else None
      | _ \<Rightarrow> None)"

text \<open>\<open>strftime('%I:%M %p')\<close> in the C locale.\<close>

definition strftime_12h :: "nat \<Rightarrow> nat \<Rightarrow> string" where
  "strftime_12h h m =
     fixed_digits 2 (if h mod 12 = 0 then 12 else h mod 12) @ '':'' @ fixed_digits 2 m @
     (if h < 12 then '' AM'' else '' PM'')"

definition military_to_am_pm :: "string \<Rightarrow> string" where
  "military_to_am_pm military_str =
     (let z = zfill military_str 4 in
      case (py_int (take 2 z), py_int (drop 2 z)) of
        (Some hour, Some minute) \<Rightarrow>
          (case pd_timestamp_hm (fmt02 hour @ '':'' @ fmt02 minute) of
             Some (h, m) \<Rightarrow> strftime_12h h m
           | None \<Rightarrow> ''Unknown'')
      | _ \<Rightarrow> ''Unknown'')"

text \<open>Line 73: \<open>crime_df['TIME OCC'] = crime_df['TIME OCC'].apply(military_to_am_pm)\<close>;
  the function's \<open>str()\<close> of its argument is \<open>cell_str\<close>.\<close>

definition convert_time :: "frame \<Rightarrow> pd_error + frame" where
  "convert_time df = map_col ''TIME OCC'' (\<lambda>x. Some (military_to_am_pm (cell_str x))) df"

text \<open>
  The canonical 12-hour form, read back to a 24-hour time: two-digit hour 01--12, a
  colon, two-digit minute 00--59, then \<open>" AM"\<close> or \<open>" PM"\<close>. It is the
  specification of a well-formed \<open>occurrence_time_12h\<close> value.
\<close>

definition parse_12h :: "string \<Rightarrow> (nat \<times> nat) option" where
  "parse_12h t =
     (if length t = 8 \<and> t ! 2 = CHR '':'' \<and> list_all is_digit [t ! 0, t ! 1, t ! 3, t ! 4]
         \<and> (drop 5 t = '' AM'' \<or> drop 5 t = '' PM'')
      then (let hh = digits_val [t ! 0, t ! 1]; mm = digits_val [t ! 3, t ! 4] in
            if 1 \<le> hh \<and> hh \<le> 12 \<and> mm \<le> 59
            then Some ((hh mod 12) + (if drop 5 t = '' PM'' then 12 else 0), mm)
            else None)
      else None)"

definition time12_wf :: "string \<Rightarrow> bool" where
  "time12_wf t = (parse_12h t \<noteq> None)"

section \<open>Lemmas\<close>

lemma fixed_digits_2 [simp]:
  "fixed_digits 2 n = [digit_char (n div 10 mod 10), digit_char (n mod 10)]"
  by (simp add: numeral_2_eq_2)

lemma fixed_digits_4:
  "fixed_digits 4 n = fixed_digits 2 (n div 100) @ fixed_digits 2 n"
  using fixed_digits_add[of 2 2 n] by simp

lemma digits_val_two [simp]:
  "a < 10 \<Longrightarrow> b < 10 \<Longrightarrow> digits_val [digit_char a, digit_char b] = 10 * a + b"
  using digits_val_append[of "[digit_char a]" "[digit_char b]"] by simp

lemma pd_timestamp_hm_fixed:
  "h < 100 \<Longrightarrow> m < 100 \<Longrightarrow>
   pd_timestamp_hm (fixed_digits 2 h @ '':'' @ fixed_digits 2 m) =
     (if h \<le> 23 \<and> m \<le> 59 then Some (h, m) else None)"
  by (simp add: pd_timestamp_hm_def)

lemma pd_timestamp_hm_range:
  "pd_timestamp_hm t = Some (h, m) \<Longrightarrow> h \<le> 23 \<and> m \<le> 59"
  by (auto simp: pd_timestamp_hm_def Let_def split: list.splits if_splits)

text \<open>The digits of a four-digit code, as \<open>zfill(4)\<close> and the two slices see them.\<close>

lemma military_slices:
  assumes "n < 10000"
  shows "take 2 (zfill (show_nat n) 4) = fixed_digits 2 (n div 100)"
    and "drop 2 (zfill (show_nat n) 4) = fixed_digits 2 n"
proof -
  have z: "zfill (show_nat n) 4 = fixed_digits 2 (n div 100) @ fixed_digits 2 n"
    using zfill_show_nat_fixed[of 4 n] assms fixed_digits_4[of n] by simp
  show "take 2 (zfill (show_nat n) 4) = fixed_digits 2 (n div 100)"
    unfolding z by (simp del: fixed_digits_2)
  show "drop 2 (zfill (show_nat n) 4) = fixed_digits 2 n"
    unfolding z by (simp del: fixed_digits_2)
qed

lemma military_fields:
  assumes "n < 10000"
  shows "py_int (take 2 (zfill (show_nat n) 4)) = Some (int (n div 100))"
    and "py_int (drop 2 (zfill (show_nat n) 4)) = Some (int (n mod 100))"
proof -
  have "n div 100 < 100" using assms by simp
  then show "py_int (take 2 (zfill (show_nat n) 4)) = Some (int (n div 100))"
    using military_slices(1)[OF assms] py_int_fixed_digits[of 2 "n div 100"] by simp
  show "py_int (drop 2 (zfill (show_nat n) 4)) = Some (int (n mod 100))"
    using military_slices(2)[OF assms] py_int_fixed_digits[of 2 n] by simp
qed

lemma military_to_am_pm_code:
  assumes "n < 10000"
  shows "military_to_am_pm (show_nat n) =
           (case pd_timestamp_hm (fixed_digits 2 (n div 100) @ '':'' @ fixed_digits 2 (n mod 100)) of
              Some (h, m) \<Rightarrow> strftime_12h h m
            | None \<Rightarrow> ''Unknown'')"
proof -
  have "n div 100 < 100" "n mod 100 < 100" using assms by simp_all
  then show ?thesis
    using military_fields[OF assms]
    by (simp add: military_to_am_pm_def fmt02_nat del: fixed_digits_2)
qed

lemma parse_12h_digits:
  assumes "a < 10" "b < 10" "c < 10" "d < 10"
    and "sfx = '' AM'' \<or> sfx = '' PM''"
  shows "parse_12h ([digit_char a, digit_char b, CHR '':'', digit_char c, digit_char d] @ sfx) =
           (let hh = 10 * a + b; mm = 10 * c + d in
            if 1 \<le> hh \<and> hh \<le> 12 \<and> mm \<le> 59
            then Some (hh mod 12 + (if sfx = '' PM'' then 12 else 0), mm) else None)"
  using assms by (auto simp: parse_12h_def Let_def)

lemma strftime_12h_parse:
  assumes "h < 24" and "m < 60"
  shows "parse_12h (strftime_12h h m) = Some (h, m)"
proof -
  define i where "i = (if h mod 12 = 0 then 12 else h mod 12)"
  define sfx where "sfx = (if h < 12 then '' AM'' else '' PM'')"
  have i: "1 \<le> i" "i \<le> 12" "i mod 12 = h mod 12" by (auto simp: i_def)
  have s: "strftime_12h h m =
      [digit_char (i div 10 mod 10), digit_char (i mod 10), CHR '':'',
       digit_char (m div 10 mod 10), digit_char (m mod 10)] @ sfx"
    by (simp add: strftime_12h_def i_def sfx_def)
  have hh: "10 * (i div 10 mod 10) + i mod 10 = i" using i(2) by simp
  have mm: "10 * (m div 10 mod 10) + m mod 10 = m" using assms(2) by simp
  have hour: "h mod 12 + (if sfx = '' PM'' then 12 else 0) = h"
  proof (cases "h < 12")
    case True
    then show ?thesis by (simp add: sfx_def)
  next
    case False
    then have "h mod 12 = h - 12" using assms(1) by (simp add: le_mod_geq)
    with False show ?thesis by (simp add: sfx_def)
  qed
  have "sfx = '' AM'' \<or> sfx = '' PM''" by (simp add: sfx_def)
  then have p: "parse_12h (strftime_12h h m) =
      (let hh = 10 * (i div 10 mod 10) + i mod 10; mm = 10 * (m div 10 mod 10) + m mod 10 in
       if 1 \<le> hh \<and> hh \<le> 12 \<and> mm \<le> 59
       then Some (hh mod 12 + (if sfx = '' PM'' then 12 else 0), mm) else None)"
    unfolding s by (intro parse_12h_digits) simp_all
  then have "parse_12h (strftime_12h h m) =
      (if 1 \<le> i \<and> i \<le> 12 \<and> m \<le> 59
       then Some (i mod 12 + (if sfx = '' PM'' then 12 else 0), m) else None)"
    by (simp only: hh mm Let_def)
  then show ?thesis using i assms(2) hour by simp
qed

lemma military_to_am_pm_cases:
  "military_to_am_pm s = ''Unknown'' \<or>
   (\<exists>h m. h \<le> 23 \<and> m \<le> 59 \<and> military_to_am_pm s = strftime_12h h m)"
  by (auto simp: military_to_am_pm_def Let_def dest: pd_timestamp_hm_range
           split: option.splits prod.splits)

lemma zfill_float_text:
  "drop 2 (zfill (show_nat n @ ''.0'') 4) = drop 2 (replicate (4 - Suc (Suc (length (show_nat n)))) CHR ''0'' @ show_nat n) @ ''.0''"
proof -
  have "zfill (show_nat n @ ''.0'') 4 =
        replicate (4 - Suc (Suc (length (show_nat n)))) CHR ''0'' @ show_nat n @ ''.0''"
    using show_nat_hd[of n] by (subst zfill_unsigned) auto
  moreover have "2 \<le> length (replicate (4 - Suc (Suc (length (show_nat n)))) CHR ''0'' @ show_nat n)"
    using show_nat_hd[of n] by (cases "show_nat n") auto
  ultimately show ?thesis by simp
qed

section \<open>Properties of the conversion\<close>

text \<open>
  C9. Every valid four-digit 24-hour code, as \<open>str()\<close> of the integer \<open>TIME OCC\<close>
  value (so \<open>5\<close> for 00:05 and \<open>1345\<close> for 13:45), is converted to the
  \<open>strftime('%I:%M %p')\<close> text of that hour and minute.
\<close>

theorem military_to_am_pm_valid:
  assumes "h < 24" and "m < 60"
  shows "military_to_am_pm (show_nat (100 * h + m)) = strftime_12h h m"
proof -
  have n: "100 * h + m < 10000" using assms by simp
  have "(100 * h + m) div 100 = h" "(100 * h + m) mod 100 = m" using assms by simp_all
  then show ?thesis
    using military_to_am_pm_code[OF n] pd_timestamp_hm_fixed[of h m] assms by simp
qed

theorem military_to_am_pm_valid_witness:
  "13 < (24::nat) \<and> 45 < (60::nat) \<and> military_to_am_pm ''1345'' = ''01:45 PM''"
proof -
  have "military_to_am_pm (show_nat (100 * 13 + 45)) = strftime_12h 13 45"
    by (rule military_to_am_pm_valid) simp_all
  moreover have "show_nat (100 * 13 + 45) = ''1345''" by (simp add: show_nat_big) code_simp
  moreover have "strftime_12h 13 45 = ''01:45 PM''" by code_simp
  ultimately show ?thesis by simp
qed

text \<open>
  The conversion never raises and never passes a raw code through: its result is
  either \<open>"Unknown"\<close> or a well-formed \<open>hh:mm AM/PM\<close> text.
\<close>

theorem military_to_am_pm_wf:
  "military_to_am_pm s = ''Unknown'' \<or> time12_wf (military_to_am_pm s)"
  using military_to_am_pm_cases[of s]
  by (auto simp: time12_wf_def strftime_12h_parse)

text \<open>
  C10. Round trip: reading the 12-hour text back gives the hour and minute of the
  original 24-hour code, so no two valid codes are converted to the same text.
\<close>

theorem military_to_am_pm_roundtrip:
  assumes "h < 24" and "m < 60"
  shows "parse_12h (military_to_am_pm (show_nat (100 * h + m))) = Some (h, m)"
  using assms military_to_am_pm_valid strftime_12h_parse by simp

theorem military_to_am_pm_roundtrip_witness:
  "0 < (24::nat) \<and> 5 < (60::nat) \<and> parse_12h (military_to_am_pm ''5'') = Some (0, 5)"
proof -
  have "parse_12h (military_to_am_pm (show_nat (100 * 0 + 5))) = Some (0, 5)"
    by (rule military_to_am_pm_roundtrip) simp_all
  moreover have "show_nat (100 * 0 + 5) = ''5''" by (simp add: show_nat_big) code_simp
  ultimately show ?thesis by simp
qed

text \<open>
  A four-digit code whose hour is 24 or more or whose minute is 60 or more
  (\<open>"9999"\<close>, \<open>"2400"\<close>, \<open>"1360"\<close>) becomes \<open>"Unknown"\<close>.
\<close>

theorem military_to_am_pm_out_of_range:
  assumes "n < 10000" and "24 \<le> n div 100 \<or> 60 \<le> n mod 100"
  shows "military_to_am_pm (show_nat n) = ''Unknown''"
proof -
  have "n div 100 < 100" "n mod 100 < 100" using assms(1) by simp_all
  then show ?thesis
    using military_to_am_pm_code[OF assms(1)] pd_timestamp_hm_fixed[of "n div 100" "n mod 100"] assms(2)
    by auto
qed

theorem military_to_am_pm_out_of_range_witness:
  "(9999::nat) < 10000 \<and> (24 \<le> (9999::nat) div 100 \<or> 60 \<le> (9999::nat) mod 100) \<and>
   military_to_am_pm ''9999'' = ''Unknown''"
proof -
  have "military_to_am_pm (show_nat 9999) = ''Unknown''"
    by (rule military_to_am_pm_out_of_range) simp_all
  moreover have "show_nat 9999 = ''9999''" by (simp add: show_nat_big) code_simp
  ultimately show ?thesis by simp
qed

text \<open>
  C11. When the \<open>TIME OCC\<close> column has a missing value, pandas reads it as float and
  STEP 2 turns every value into text such as \<open>"1345.0"\<close>; every such text, for
  every code, is then converted to \<open>"Unknown"\<close>, valid times included.
\<close>

theorem military_to_am_pm_float_text:
  "military_to_am_pm (show_nat n @ ''.0'') = ''Unknown''"
proof -
  have "CHR ''.'' \<in> set (drop 2 (zfill (show_nat n @ ''.0'') 4))"
    by (simp add: zfill_float_text)
  then have "py_int (drop 2 (zfill (show_nat n @ ''.0'') 4)) = None"
    by (rule py_int_dot)
  then show ?thesis
    by (simp add: military_to_am_pm_def Let_def split: option.splits)
qed

end
