(* ===== verification/Demographics.thy ===== *)
theory Demographics
  imports Frame
begin

text \<open>
  STEP 6 of the cleaning script (lines 80--104): victim age, sex and descent. The age
  column is turned into text and \<open>"0"\<close> becomes \<open>"Unknown"\<close>; sex goes through
  \<open>Series.replace\<close> with a four-entry dict (codes outside it pass through); descent
  goes through \<open>Series.map\<close> with a 19-entry dict and \<open>fillna('Unknown')\<close>; rows with
  both sex and descent \<open>"Unknown"\<close> get age \<open>"Unknown"\<close>; the age group is
  \<open>pd.cut(pd.to_numeric(age, errors='coerce'), bins, labels)\<close>, right-closed, with
  \<open>"Unknown"\<close> for what falls outside.

  \<open>pd.to_numeric\<close> is modelled on decimal texts: white space, an optional sign, digits
  and an optional fraction; the value \<open>(m, e)\<close> stands for \<open>m / 10 ^ e\<close>, so that the
  bins are compared exactly. Exponent forms and \<open>inf\<close>/\<open>nan\<close> are read as missing.
\<close>

subsection \<open>Age\<close>

text \<open>\<open>replace(['0', 0], 'Unknown')\<close> on the text column.\<close>

definition replace_age_zero :: "cell \<Rightarrow> cell" where
  "replace_age_zero c = (if c = Some ''0'' then Some ''Unknown'' else c)"

definition pd_to_numeric :: "string \<Rightarrow> (int \<times> nat) option" where
  "pd_to_numeric s =
     (let t = py_strip s;
          (neg, u) = (case t of
                        [] \<Rightarrow> (False, [])
                      | c # cs \<Rightarrow> if c = CHR ''-'' then (True, cs)
                                 else if c = CHR ''+'' then (False, cs) else (False, t));
          ip = takeWhile is_digit u;
          rest = dropWhile is_digit u;
          sgn = (\<lambda>k::nat. if neg then - int k else int k)
      in if rest = [] then (if ip = [] then None else Some (sgn (digits_val ip), 0))
         else if hd rest = CHR ''.'' \<and> list_all is_digit (tl rest) \<and> (ip \<noteq> [] \<or> tl rest \<noteq> [])
         then Some (sgn (digits_val (ip @ tl rest)), length (tl rest))
         else None)"

definition dec_in :: "int \<times> nat \<Rightarrow> int \<Rightarrow> int \<Rightarrow> bool" where
  "dec_in x lo hi = (case x of (m, e) \<Rightarrow> lo * 10 ^ e < m \<and> m \<le> hi * 10 ^ e)"

text \<open>\<open>pd.cut(x, bins, labels)\<close> with \<open>right=True\<close>: the label of the interval
  \<open>(bins[i], bins[i+1]]\<close> holding \<open>x\<close>, missing if there is none.\<close>

fun pd_cut :: "int list \<Rightarrow> string list \<Rightarrow> int \<times> nat \<Rightarrow> string option" where
  "pd_cut (lo # hi # bs) (l # ls) x = (if dec_in x lo hi then Some l else pd_cut (hi # bs) ls x)"
| "pd_cut _ _ x = None"

definition age_bins :: "int list" where
  "age_bins = [0, 12, 18, 25, 35, 50, 65, 100, 150]"

definition age_labels :: "string list" where
  "age_labels = [''Child (0-12)'', ''Teen (13-18)'', ''Young Adult (19-25)'', ''Adult (26-35)'',
                 ''Middle Age (36-50)'', ''Senior (51-65)'', ''Elderly (66-100)'',
                 ''Super Elderly (100+)'']"

definition age_group_cell :: "cell \<Rightarrow> cell" where
  "age_group_cell a =
     fillna ''Unknown''
       (case a of
          None \<Rightarrow> None
        | Some s \<Rightarrow> (case pd_to_numeric s of None \<Rightarrow> None | Some x \<Rightarrow> pd_cut age_bins age_labels x))"

subsection \<open>Sex and descent\<close>

definition sex_table :: "(string \<times> string) list" where
  "sex_table = [('''', ''Unknown''), (''X'', ''Unknown''), (''M'', ''Male''), (''F'', ''Female'')]"

text \<open>\<open>Series.replace(dict)\<close>: a value that is a key is replaced, any other kept.\<close>

definition sex_replace :: "string \<Rightarrow> string" where
  "sex_replace s = dict_get (py_dict sex_table) s s"

definition descent_table :: "(string \<times> string) list" where
  "descent_table =
     [(''A'', ''Other Asian''), (''B'', ''Black''), (''C'', ''Chinese''), (''D'', ''Cambodian''),
      (''F'', ''Filipino''), (''G'', ''Guamanian''), (''H'', ''Hispanic/Latin/Mexican''),
      (''I'', ''American Indian/Alaskan Native''), (''J'', ''Japanese''), (''K'', ''Korean''),
      (''L'', ''Laotian''), (''O'', ''Other''), (''P'', ''Pacific Islander''), (''S'', ''Samoan''),
      (''U'', ''Hawaiian''), (''V'', ''Vietnamese''), (''W'', ''White''), (''X'', ''Unknown''),
      (''Z'', ''Asian Indian'')]"

definition descent_mapping :: "string \<rightharpoonup> string" where
  "descent_mapping = py_dict descent_table"

text \<open>\<open>Series.map(dict).fillna('Unknown')\<close> on one cell.\<close>

definition descent_map_cell :: "cell \<Rightarrow> cell" where
  "descent_map_cell c = fillna ''Unknown'' (case c of None \<Rightarrow> None | Some s \<Rightarrow> descent_mapping s)"

subsection \<open>The step on the table\<close>

text \<open>Lines 95--96: the mask of rows with both sex and descent unknown, and the
  assignment \<open>crime_df.loc[mask, 'Vict Age'] = 'Unknown'\<close>.\<close>

definition unknown_mask :: "cell list \<Rightarrow> cell list \<Rightarrow> bool list" where
  "unknown_mask sex desc = map2 (\<lambda>s d. s = Some ''Unknown'' \<and> d = Some ''Unknown'') sex desc"

definition override_age :: "frame \<Rightarrow> pd_error + frame" where
  "override_age df =
     bindE (get_col df ''Vict Sex'') (\<lambda>sex.
     bindE (get_col df ''Vict Descent'') (\<lambda>desc.
     bindE (get_col df ''Vict Age'') (\<lambda>age.
       Inr (set_col ''Vict Age''
              (map2 (\<lambda>m a. if m then Some ''Unknown'' else a) (unknown_mask sex desc) age) df))))"

text \<open>Lines 102--104: the new column \<open>Vict Age Group\<close>.\<close>

definition add_age_group :: "frame \<Rightarrow> pd_error + frame" where
  "add_age_group df =
     bindE (get_col df ''Vict Age'') (\<lambda>age. Inr (set_col ''Vict Age Group'' (map age_group_cell age) df))"

definition demographics_step :: "frame \<Rightarrow> pd_error + frame" where
  "demographics_step df =
     bindE (map_col ''Vict Age'' (\<lambda>x. Some (cell_str x)) df) (\<lambda>df.
     bindE (map_col ''Vict Age'' replace_age_zero df) (\<lambda>df.
     bindE (map_col ''Vict Sex'' (map_option sex_replace) df) (\<lambda>df.
     bindE (map_col ''Vict Descent'' descent_map_cell df) (\<lambda>df.
     bindE (override_age df) add_age_group))))"

text \<open>
  The same step read row by row: from the raw age, sex and descent cells of one row,
  the normalised age, sex, descent and the age group of that row.
\<close>

definition demographics_row :: "cell \<Rightarrow> cell \<Rightarrow> cell \<Rightarrow> cell \<times> cell \<times> cell \<times> cell" where
  "demographics_row a s d =
     (let a1 = replace_age_zero (Some (cell_str a));
          s' = map_option sex_replace s;
          d' = descent_map_cell d;
          a' = (if s' = Some ''Unknown'' \<and> d' = Some ''Unknown'' then Some ''Unknown'' else a1)
      in (a', s', d', age_group_cell a'))"

section \<open>Lemmas\<close>

lemma show_nat_parts:
  "takeWhile is_digit (show_nat n) = show_nat n" "dropWhile is_digit (show_nat n) = []"
  using show_nat_digits[of n] by (simp_all add: list_all_iff)

lemma minus_not_space: "\<not> py_isspace CHR ''-''"
  by (simp add: py_isspace_def)

lemma py_strip_py_str_int: "py_strip (py_str_int i) = py_str_int i"
proof (cases "i < 0")
  case True
  obtain c cs where sn: "show_nat (nat (- i)) = c # cs" "is_digit c"
    using show_nat_hd[of "nat (- i)"] by (cases "show_nat (nat (- i))") auto
  have "is_digit (last (show_nat (nat (- i))))"
    using show_nat_digits[of "nat (- i)"] sn by (simp add: list_all_iff)
  then show ?thesis
    using True sn minus_not_space by (intro py_strip_id) (simp_all add: py_str_int_def)
next
  case False
  then show ?thesis
    using show_nat_digits[of "nat i"] by (simp add: py_str_int_def py_strip_digits)
qed

lemma pd_to_numeric_digits:
  assumes "ds \<noteq> []" and "list_all is_digit ds"
  shows "pd_to_numeric ds = Some (int (digits_val ds), 0)"
    and "pd_to_numeric (CHR ''-'' # ds) = Some (- int (digits_val ds), 0)"
proof -
  obtain c cs where ds: "ds = c # cs" using assms(1) by (cases ds) auto
  have c: "is_digit c" "list_all is_digit cs" using assms(2) ds by auto
  have last: "is_digit (last ds)" using assms by (simp add: list_all_iff)
  have "py_strip ds = ds" using assms(2) by (rule py_strip_digits)
  then show "pd_to_numeric ds = Some (int (digits_val ds), 0)"
    using ds c by (simp add: pd_to_numeric_def Let_def list_all_iff takeWhile_eq_all_conv [THEN iffD2])
  have "py_strip (CHR ''-'' # ds) = CHR ''-'' # ds"
    using last ds minus_not_space by (intro py_strip_id) simp_all
  then show "pd_to_numeric (CHR ''-'' # ds) = Some (- int (digits_val ds), 0)"
    using ds c by (simp add: pd_to_numeric_def Let_def list_all_iff takeWhile_eq_all_conv [THEN iffD2])
qed

lemma pd_to_numeric_py_str_int: "pd_to_numeric (py_str_int i) = Some (i, 0)"
proof -
  have "show_nat (nat \<bar>i\<bar>) \<noteq> []" "list_all is_digit (show_nat (nat \<bar>i\<bar>))"
    "int (digits_val (show_nat (nat \<bar>i\<bar>))) = \<bar>i\<bar>"
    using show_nat_digits[of "nat \<bar>i\<bar>"] by auto
  then show ?thesis
    using pd_to_numeric_digits[of "show_nat (nat \<bar>i\<bar>)"]
    by (cases "i < 0") (simp_all add: py_str_int_def)
qed

lemma dec_in_int [simp]: "dec_in (n, 0) lo hi \<longleftrightarrow> lo < n \<and> n \<le> hi"
  by (simp add: dec_in_def)

lemma sorted_hd_le_nth:
  "sorted_wrt (<) (x # xs) \<Longrightarrow> j < length (x # xs) \<Longrightarrow> (x::int) \<le> (x # xs) ! j"
  by (cases j) (auto simp: less_imp_le)

lemma pd_cut_bin:
  assumes "sorted_wrt (<) bins" and "length bins = Suc (length labels)"
    and "i < length labels" and "dec_in x (bins ! i) (bins ! Suc i)"
  shows "pd_cut bins labels x = Some (labels ! i)"
  using assms
proof (induction labels arbitrary: bins i)
  case Nil
  then show ?case by simp
next
  case (Cons l ls)
  obtain lo hi bs where b: "bins = lo # hi # bs"
    using Cons.prems(2) by (cases bins; cases "tl bins") auto
  show ?case
  proof (cases i)
    case 0
    then show ?thesis using Cons.prems(4) b by simp
  next
    case (Suc j)
    obtain m e where x: "x = (m, e)" by (cases x)
    have "hi \<le> (hi # bs) ! j"
      using Cons.prems(1,2,3) b Suc by (intro sorted_hd_le_nth) auto
    then have M: "hi * 10 ^ e \<le> (hi # bs) ! j * 10 ^ e" by simp
    have "(hi # bs) ! j * 10 ^ e < m"
      using Cons.prems(4) b Suc x by (simp add: dec_in_def)
    then have "\<not> dec_in x lo hi" using M x by (simp only: dec_in_def prod.case) linarith
    moreover have "pd_cut (hi # bs) ls x = Some (ls ! j)"
      using Cons.prems b Suc by (intro Cons.IH) auto
    ultimately show ?thesis using b Suc by simp
  qed
qed

lemma pd_cut_Some:
  "pd_cut bins labels x = Some l \<Longrightarrow> l \<in> set labels"
  by (induction bins labels x rule: pd_cut.induct) (auto split: if_splits)

lemma pd_cut_range:
  "sorted_wrt (<) bins \<Longrightarrow> pd_cut bins labels x = Some l \<Longrightarrow> dec_in x (hd bins) (last bins)"
proof (induction bins labels x rule: pd_cut.induct)
  case (1 lo hi bs l' ls x)
  obtain m e where x: "x = (m, e)" by (cases x)
  have hl: "hi \<le> last (hi # bs)"
    using "1.prems"(1) by (cases bs rule: rev_cases) auto
  show ?case
  proof (cases "dec_in x lo hi")
    case True
    have M: "hi * 10 ^ e \<le> last (hi # bs) * 10 ^ e" using hl by simp
    have L: "last (lo # hi # bs) = last (hi # bs)" by simp
    show ?thesis unfolding L using True x M
      by (simp only: dec_in_def prod.case list.sel simp_thms) (blast intro: order_trans)
  next
    case False
    then have D: "dec_in x hi (last (hi # bs))" using "1" by simp
    have M: "lo * 10 ^ e < hi * 10 ^ e" using "1.prems"(1) by simp
    have L: "last (lo # hi # bs) = last (hi # bs)" by simp
    show ?thesis unfolding L using D M x
      by (simp only: dec_in_def prod.case list.sel simp_thms) (blast intro: less_trans)
  qed
qed simp_all

lemma age_bins_sorted: "sorted_wrt (<) age_bins"
  by (simp add: age_bins_def)

lemma age_group_cell_int:
  "age_group_cell (Some (py_str_int n)) =
     fillna ''Unknown'' (pd_cut age_bins age_labels (n, 0))"
  by (simp add: age_group_cell_def pd_to_numeric_py_str_int)

lemma age_group_lengths: "length age_bins = Suc (length age_labels)"
  by (simp add: age_bins_def age_labels_def)


lemma fillna_Some [simp]: "fillna v (Some s) = Some s"
  by (simp add: fillna_def)

lemma demographics_columns:
  assumes "length a = length s" and "length s = length d"
  shows "map2 (\<lambda>m x. if m then Some ''Unknown'' else x)
           (unknown_mask (map (map_option sex_replace) s) (map descent_map_cell d))
           (map replace_age_zero (map (\<lambda>x. Some (cell_str x)) a))
         = map (\<lambda>(a, s, d). fst (demographics_row a s d)) (zip a (zip s d))"
  using assms
proof (induction a s d rule: list_induct3)
  case Nil
  then show ?case by (simp add: unknown_mask_def)
next
  case (Cons x xs y ys z zs)
  then show ?case by (simp add: unknown_mask_def demographics_row_def Let_def)
qed

lemma demographics_step_Inr:
  assumes "get_col df ''Vict Age'' = Inr a" and "get_col df ''Vict Sex'' = Inr s"
    and "get_col df ''Vict Descent'' = Inr d"
  shows "demographics_step df =
    (let a1 = map replace_age_zero (map (\<lambda>x. Some (cell_str x)) a);
         s1 = map (map_option sex_replace) s;
         d1 = map descent_map_cell d;
         a2 = map2 (\<lambda>m x. if m then Some ''Unknown'' else x) (unknown_mask s1 d1) a1
     in Inr (set_col ''Vict Age Group'' (map age_group_cell a2)
              (set_col ''Vict Age'' a2
                (set_col ''Vict Descent'' d1
                  (set_col ''Vict Sex'' s1
                    (set_col ''Vict Age'' a1
                      (set_col ''Vict Age'' (map (\<lambda>x. Some (cell_str x)) a) df)))))))"
  using assms
  by (simp add: demographics_step_def map_col_def override_age_def add_age_group_def Let_def)

lemma demographics_step_at:
  assumes "frame_wf df" and "get_col df ''Vict Age'' = Inr a"
    and "get_col df ''Vict Sex'' = Inr s" and "get_col df ''Vict Descent'' = Inr d"
    and "p < n_rows df"
  shows "\<exists>df' A S G. demographics_step df = Inr df' \<and> get_col df' ''Vict Age'' = Inr A \<and>
     get_col df' ''Vict Sex'' = Inr S \<and> get_col df' ''Vict Age Group'' = Inr G \<and>
     S ! p = map_option sex_replace (s ! p) \<and>
     A ! p = (if map_option sex_replace (s ! p) = Some ''Unknown'' \<and> descent_map_cell (d ! p) = Some ''Unknown''
              then Some ''Unknown'' else replace_age_zero (Some (cell_str (a ! p)))) \<and>
     G ! p = age_group_cell (A ! p)"
proof -
  have la: "length a = n_rows df" using assms(1,2) by (rule frame_wf_col_length)
  have ls: "length s = n_rows df" using assms(1,3) by (rule frame_wf_col_length)
  have ld: "length d = n_rows df" using assms(1,4) by (rule frame_wf_col_length)
  show ?thesis
    using assms(5) la ls ld
    by (simp add: demographics_step_Inr[OF assms(2-4)] Let_def unknown_mask_def)
qed

section \<open>Properties of STEP 6\<close>

text \<open>
  C15. An integer age lands in the bin whose right-closed interval holds it: for the
  bin edges \<open>[0, 12, 18, 25, 35, 50, 65, 100, 150]\<close>, an age \<open>n\<close> with
  \<open>edge i < n \<le> edge (i+1)\<close> gets the \<open>i\<close>-th label (12 is a child, 13 a teen).
\<close>

theorem age_group_int_bin:
  assumes "i < 8" and "age_bins ! i < n" and "n \<le> age_bins ! Suc i"
  shows "age_group_cell (Some (py_str_int n)) = Some (age_labels ! i)"
proof -
  have "pd_cut age_bins age_labels (n, 0) = Some (age_labels ! i)"
    using assms age_bins_sorted age_group_lengths
    by (intro pd_cut_bin) (simp_all add: age_labels_def)
  then show ?thesis by (simp add: age_group_cell_int)
qed

theorem age_group_int_bin_witness:
  "0 < (8::nat) \<and> age_bins ! 0 < 12 \<and> 12 \<le> age_bins ! Suc 0 \<and>
   age_group_cell (Some ''12'') = Some ''Child (0-12)''"
proof -
  have "age_group_cell (Some (py_str_int 12)) = Some (age_labels ! 0)"
    by (rule age_group_int_bin) (simp_all add: age_bins_def)
  moreover have "py_str_int 12 = ''12''" by (simp add: py_str_int_def show_nat_big) code_simp
  ultimately show ?thesis by (simp add: age_bins_def age_labels_def)
qed

text \<open>
  An integer age of 0 or less, or above 150, gets the age group
  \<open>"Unknown"\<close> (age 999 is unknown, not super elderly).
\<close>

theorem age_group_int_out:
  assumes "n \<le> 0 \<or> 150 < n"
  shows "age_group_cell (Some (py_str_int n)) = Some ''Unknown''"
proof -
  have "pd_cut age_bins age_labels (n, 0) = None"
  proof (rule ccontr)
    assume "pd_cut age_bins age_labels (n, 0) \<noteq> None"
    then obtain l where "pd_cut age_bins age_labels (n, 0) = Some l" by blast
    then have "dec_in (n, 0) (hd age_bins) (last age_bins)"
      using age_bins_sorted by (rule pd_cut_range[rotated])
    with assms show False by (simp add: age_bins_def)
  qed
  then show ?thesis by (simp add: age_group_cell_int fillna_def)
qed

theorem age_group_int_out_witness:
  "((999::int) \<le> 0 \<or> 150 < (999::int)) \<and> age_group_cell (Some ''999'') = Some ''Unknown''"
proof -
  have "age_group_cell (Some (py_str_int 999)) = Some ''Unknown''"
    by (rule age_group_int_out) simp
  moreover have "py_str_int 999 = ''999''" by (simp add: py_str_int_def show_nat_big) code_simp
  ultimately show ?thesis by simp
qed

text \<open>
  The age group is always one of the eight bin labels or \<open>"Unknown"\<close>, whatever
  the age text.
\<close>

theorem age_group_vocab: "age_group_cell a \<in> Some ` set (''Unknown'' # age_labels)"
  by (auto simp: age_group_cell_def fillna_def dest: pd_cut_Some
           split: option.splits)



text \<open>
  The normalised descent is closed: it is always one of the long-form names of
  the descent table (\<open>X\<close> maps to \<open>"Unknown"\<close>) or \<open>"Unknown"\<close>.
\<close>

theorem descent_vocab:
  "descent_map_cell d \<in> Some ` insert ''Unknown'' (set (map snd descent_table))"
proof (cases "d")
  case None
  then show ?thesis by (simp add: descent_map_cell_def fillna_def)
next
  case (Some c)
  show ?thesis
  proof (cases "descent_mapping c")
    case None
    with Some show ?thesis by (simp add: descent_map_cell_def fillna_def)
  next
    case (Some v)
    then have "map_of (rev descent_table) c = Some v"
      by (simp add: descent_mapping_def py_dict_map_of)
    then have "(c, v) \<in> set (rev descent_table)" by (rule map_of_SomeD)
    then have "v \<in> set (map snd descent_table)" by force
    with Some \<open>d = Some c\<close> show ?thesis by (simp add: descent_map_cell_def fillna_def)
  qed
qed

text \<open>
  C18. The sex normalisation is open, unlike the descent one: in the table STEP 6
  returns, a row whose sex code is outside \<open>{"", "X", "M", "F"}\<close> and is not
  \<open>"Unknown"\<close> keeps that code in \<open>Vict Sex\<close>, so the normalised sex is not
  always one of Male, Female, Unknown, and the row keeps its age whatever its descent.
\<close>

theorem sex_open_policy:
  assumes "frame_wf df" and "get_col df ''Vict Age'' = Inr a"
    and "get_col df ''Vict Sex'' = Inr s" and "get_col df ''Vict Descent'' = Inr d"
    and "p < n_rows df" and "s ! p = Some x"
    and "x \<notin> set (map fst sex_table)" and "x \<noteq> ''Unknown''"
  shows "\<exists>df' S A. demographics_step df = Inr df' \<and> get_col df' ''Vict Sex'' = Inr S \<and>
     get_col df' ''Vict Age'' = Inr A \<and> S ! p = Some x \<and> A ! p = replace_age_zero (Some (cell_str (a ! p)))"
proof -
  have "py_dict sex_table x = None"
    using assms(7) by (simp add: py_dict_map_of map_of_eq_None_iff image_iff)
  then have x: "sex_replace x = x" by (simp add: sex_replace_def dict_get_def)
  show ?thesis using demographics_step_at[OF assms(1-5)] assms(6,8) x by auto
qed

theorem sex_open_policy_witness:
  "frame_wf \<lparr>idx = [0], cols = [(''Vict Age'', [Some ''34'']), (''Vict Sex'', [Some ''H'']),
       (''Vict Descent'', [Some ''X''])]\<rparr> \<and>
   ''H'' \<notin> set (map fst sex_table) \<and>
   (\<exists>df' S A. demographics_step \<lparr>idx = [0], cols = [(''Vict Age'', [Some ''34'']), (''Vict Sex'', [Some ''H'']),
       (''Vict Descent'', [Some ''X''])]\<rparr> = Inr df' \<and>
     get_col df' ''Vict Sex'' = Inr S \<and> get_col df' ''Vict Age'' = Inr A \<and>
     S ! 0 = Some ''H'' \<and> A ! 0 = Some ''34'')"
proof -
  let ?df = "\<lparr>idx = [0::nat], cols = [(''Vict Age'', [Some ''34'']), (''Vict Sex'', [Some ''H'']),
       (''Vict Descent'', [Some ''X''])]\<rparr>"
  have wf: "frame_wf ?df" by (simp add: frame_wf_def col_names_def n_rows_def)
  have a: "get_col ?df ''Vict Age'' = Inr [Some ''34'']" by (simp add: get_col_def)
  have s: "get_col ?df ''Vict Sex'' = Inr [Some ''H'']" by (simp add: get_col_def)
  have d: "get_col ?df ''Vict Descent'' = Inr [Some ''X'']" by (simp add: get_col_def)
  have p: "0 < n_rows ?df" by (simp add: n_rows_def)
  have x: "[Some ''H''] ! 0 = Some ''H''" by simp
  have h: "''H'' \<notin> set (map fst sex_table)" by (simp add: sex_table_def)
  have r: "replace_age_zero (Some (cell_str ([Some ''34''] ! 0))) = Some ''34''"
    by (simp add: replace_age_zero_def cell_str_def)
  show ?thesis using wf h sex_open_policy[OF wf a s d p x h] r by auto
qed

text \<open>
  C17. Refinement of the row view: on a well-formed table STEP 6 succeeds and its
  \<open>Vict Age\<close> and \<open>Vict Age Group\<close> columns are, row by row, the normalised age
  and the age group that \<open>demographics_row\<close> computes from that row's age, sex and
  descent.
\<close>

theorem demographics_step_rows:
  assumes "frame_wf df" and "get_col df ''Vict Age'' = Inr a"
    and "get_col df ''Vict Sex'' = Inr s" and "get_col df ''Vict Descent'' = Inr d"
  shows "\<exists>df'. demographics_step df = Inr df' \<and>
           get_col df' ''Vict Age'' = Inr (map (\<lambda>(a, s, d). fst (demographics_row a s d)) (zip a (zip s d))) \<and>
           get_col df' ''Vict Age Group'' =
             Inr (map (\<lambda>(a, s, d). snd (snd (snd (demographics_row a s d)))) (zip a (zip s d)))"
proof -
  have la: "length a = n_rows df" using assms(1,2) by (rule frame_wf_col_length)
  have ls: "length s = n_rows df" using assms(1,3) by (rule frame_wf_col_length)
  have ld: "length d = n_rows df" using assms(1,4) by (rule frame_wf_col_length)
  have rows: "map2 (\<lambda>m x. if m then Some ''Unknown'' else x)
           (unknown_mask (map (map_option sex_replace) s) (map descent_map_cell d))
           (map replace_age_zero (map (\<lambda>x. Some (cell_str x)) a))
         = map (\<lambda>(a, s, d). fst (demographics_row a s d)) (zip a (zip s d))"
    using la ls ld by (intro demographics_columns) simp_all
  let ?A = "map (\<lambda>(a, s, d). fst (demographics_row a s d)) (zip a (zip s d))"
  have grp: "map age_group_cell ?A
      = map (\<lambda>(a, s, d). snd (snd (snd (demographics_row a s d)))) (zip a (zip s d))"
    by (auto simp: demographics_row_def Let_def)
  obtain X where step: "demographics_step df =
      Inr (set_col ''Vict Age Group'' (map age_group_cell ?A) (set_col ''Vict Age'' ?A X))"
    using demographics_step_Inr[OF assms(2-4)] unfolding Let_def rows by blast
  have "get_col (set_col ''Vict Age Group'' (map age_group_cell ?A) (set_col ''Vict Age'' ?A X)) ''Vict Age''
        = Inr ?A"
    by (simp only: get_col_set_col) simp
  moreover have "get_col (set_col ''Vict Age Group'' (map age_group_cell ?A) (set_col ''Vict Age'' ?A X))
                   ''Vict Age Group'' = Inr (map age_group_cell ?A)"
    by (simp only: get_col_set_col) simp
  ultimately show ?thesis using step grp by metis
qed

theorem demographics_step_rows_witness:
  "frame_wf \<lparr>idx = [0], cols = [(''Vict Age'', [Some ''34'']), (''Vict Sex'', [Some ''X'']),
       (''Vict Descent'', [Some ''X''])]\<rparr> \<and>
   (\<exists>df'. demographics_step \<lparr>idx = [0], cols = [(''Vict Age'', [Some ''34'']), (''Vict Sex'', [Some ''X'']),
       (''Vict Descent'', [Some ''X''])]\<rparr> = Inr df' \<and>
     get_col df' ''Vict Age Group'' =
       Inr (map (\<lambda>(a, s, d). snd (snd (snd (demographics_row a s d))))
              (zip [Some ''34''] (zip [Some ''X''] [Some ''X'']))))"
proof -
  let ?df = "\<lparr>idx = [0::nat], cols = [(''Vict Age'', [Some ''34'']), (''Vict Sex'', [Some ''X'']),
       (''Vict Descent'', [Some ''X''])]\<rparr>"
  have wf: "frame_wf ?df" by (simp add: frame_wf_def col_names_def n_rows_def)
  have a: "get_col ?df ''Vict Age'' = Inr [Some ''34'']" by (simp add: get_col_def)
  have s: "get_col ?df ''Vict Sex'' = Inr [Some ''X'']" by (simp add: get_col_def)
  have d: "get_col ?df ''Vict Descent'' = Inr [Some ''X'']" by (simp add: get_col_def)
  show ?thesis using wf demographics_step_rows[OF wf a s d] by blast
qed

end
