(* ===== verification/Category.thy ===== *)
theory Category
  imports Frame
begin

text \<open>
  STEP 8 of the cleaning script (lines 146--291): the controlled vocabulary
  \<open>crime_category_mapping\<close>, a dict literal of 130 entries from a crime description
  to one of six category labels, applied with
  \<open>crime_df['Crm Cd Desc'].map(crime_category_mapping).fillna("Other")\<close>. The literal
  is transcribed entry by entry in the source's order; as in Python, a key written
  twice keeps its last value. Matching is exact, with no normalisation of the text.
\<close>

text \<open>Lines 147--165, the keys listed under \<open># Violent Crimes\<close>.\<close>

definition violent_crimes :: "string list" where
  "violent_crimes = [
      ''BATTERY - SIMPLE ASSAULT'',
      ''ASSAULT WITH DEADLY WEAPON, AGGRAVATED ASSAULT'',
      ''INTIMATE PARTNER - SIMPLE ASSAULT'',
      ''INTIMATE PARTNER - AGGRAVATED ASSAULT'',
      ''BATTERY POLICE (SIMPLE)'',
      ''BATTERY WITH SEXUAL CONTACT'',
      ''ASSAULT WITH DEADLY WEAPON ON POLICE OFFICER'',
      ''CRIMINAL THREATS - NO WEAPON DISPLAYED'',
      ''CRIMINAL HOMICIDE'',
      ''ATTEMPTED ROBBERY'',
      ''ROBBERY'',
      ''OTHER ASSAULT'',
      ''KIDNAPPING'',
      ''KIDNAPPING - GRAND ATTEMPT'',
      ''CHILD ABUSE (PHYSICAL) - SIMPLE ASSAULT'',
      ''CHILD ABUSE (PHYSICAL) - AGGRAVATED ASSAULT'',
      ''CRM AGNST CHLD (13 OR UNDER) (14-15 & SUSP 10 YRS OLDER)'',
      ''RESISTING ARREST'']"

text \<open>Lines 167--199, the keys listed under \<open># Property Crimes\<close>.\<close>

definition property_crimes :: "string list" where
  "property_crimes = [
      ''VEHICLE - STOLEN'',
      ''BURGLARY FROM VEHICLE'',
      ''BURGLARY'',
      ''THEFT PLAIN - PETTY ($950 & UNDER)'',
      ''THEFT FROM MOTOR VEHICLE - PETTY ($950 & UNDER)'',
      ''THEFT FROM MOTOR VEHICLE - GRAND ($950.01 AND OVER)'',
      ''THEFT-GRAND ($950.01 & OVER)EXCPT,GUNS,FOWL,LIVESTK,PROD'',
      ''SHOPLIFTING - PETTY THEFT ($950 & UNDER)'',
      ''SHOPLIFTING-GRAND THEFT ($950.01 & OVER)'',
      ''BURGLARY, ATTEMPTED'',
      ''VEHICLE - ATTEMPT STOLEN'',
      ''BIKE - STOLEN'',
      ''BIKE - ATTEMPTED STOLEN'',
      ''THEFT, PERSON'',
      ''BURGLARY FROM VEHICLE, ATTEMPTED'',
      ''THEFT FROM MOTOR VEHICLE - ATTEMPT'',
      ''BOAT - STOLEN'',
      ''PICKPOCKET'',
      ''PICKPOCKET, ATTEMPT'',
      ''PURSE SNATCHING'',
      ''PURSE SNATCHING - ATTEMPT'',
      ''TILL TAP - PETTY ($950 & UNDER)'',
      ''TILL TAP - GRAND THEFT ($950.01 & OVER)'',
      ''THEFT, COIN MACHINE - PETTY ($950 & UNDER)'',
      ''THEFT, COIN MACHINE - GRAND ($950.01 & OVER)'',
      ''THEFT, COIN MACHINE - ATTEMPT'',
      ''THEFT PLAIN - ATTEMPT'',
      ''SHOPLIFTING - ATTEMPT'',
      ''EMBEZZLEMENT, GRAND THEFT ($950.01 & OVER)'',
      ''EMBEZZLEMENT, PETTY THEFT ($950 & UNDER)'',
      ''DRIVING WITHOUT OWNER CONSENT (DWOC)'',
      ''ARSON'']"

text \<open>Lines 201--220, the keys listed under \<open># Public Order Crimes\<close>.\<close>

definition public_order_crimes :: "string list" where
  "public_order_crimes = [
      ''VANDALISM - FELONY ($400 & OVER, ALL CHURCH VANDALISMS)'',
      ''VANDALISM - MISDEAMEANOR ($399 OR UNDER)'',
      ''TRESPASSING'',
      ''BRANDISH WEAPON'',
      ''DISTURBING THE PEACE'',
      ''DISCHARGE FIREARMS/SHOTS FIRED'',
      ''SHOTS FIRED AT INHABITED DWELLING'',
      ''SHOTS FIRED AT MOVING VEHICLE, TRAIN OR AIRCRAFT'',
      ''THROWING OBJECT AT MOVING VEHICLE'',
      ''ILLEGAL DUMPING'',
      ''BLOCKING DOOR INDUCTION CENTER'',
      ''FAILURE TO YIELD'',
      ''FAILURE TO DISPERSE'',
      ''PEEPING TOM'',
      ''PROWLER'',
      ''DISRUPT SCHOOL'',
      ''WEAPONS POSSESSION/BOMBING'',
      ''FIREARMS EMERGENCY PROTECTIVE ORDER (FIREARMS EPO)'',
      ''FIREARMS RESTRAINING ORDER (FIREARMS RO)'']"

text \<open>Lines 222--234, the keys listed under \<open># Sexual Offenses\<close>.\<close>

definition sexual_offenses :: "string list" where
  "sexual_offenses = [
      ''RAPE, FORCIBLE'',
      ''RAPE, ATTEMPTED'',
      ''ORAL COPULATION'',
      ''SODOMY/SEXUAL CONTACT B/W PENIS OF ONE PERS TO ANUS OTH'',
      ''SEXUAL PENETRATION W/FOREIGN OBJECT'',
      ''SEX,UNLAWFUL(INC MUTUAL CONSENT, PENETRATION W/ FRGN OBJ'',
      ''LEWD/LASCIVIOUS ACTS WITH CHILD'',
      ''LEWD CONDUCT'',
      ''CHILD ANNOYING (17YRS & UNDER)'',
      ''INDECENT EXPOSURE'',
      ''INCEST (SEXUAL ACTS BETWEEN BLOOD RELATIVES)'',
      ''BEASTIALITY, CRIME AGAINST NATURE SEXUAL ASSLT WITH ANIM'']"

text \<open>Lines 236--256, the keys listed under \<open># White Collar Crimes\<close>.\<close>

definition white_collar_crimes :: "string list" where
  "white_collar_crimes = [
      ''THEFT OF IDENTITY'',
      ''CREDIT CARDS, FRAUD USE ($950.01 & OVER)'',
      ''CREDIT CARDS, FRAUD USE ($950 & UNDER'',
      ''BUNCO, GRAND THEFT'',
      ''BUNCO, PETTY THEFT'',
      ''BUNCO, ATTEMPT'',
      ''DOCUMENT FORGERY / STOLEN FELONY'',
      ''DOCUMENT WORTHLESS ($200.01 & OVER)'',
      ''DOCUMENT WORTHLESS ($200 & UNDER)'',
      ''DISHONEST EMPLOYEE - GRAND THEFT'',
      ''DISHONEST EMPLOYEE - PETTY THEFT'',
      ''DISHONEST EMPLOYEE ATTEMPTED THEFT'',
      ''DEFRAUDING INNKEEPER/THEFT OF SERVICES, $950 & UNDER'',
      ''DEFRAUDING INNKEEPER/THEFT OF SERVICES, OVER $950.01'',
      ''EXTORTION'',
      ''EMBEZZLEMENT, GRAND THEFT ($950.01 & OVER)'',
      ''COUNTERFEIT'',
      ''FORGERY'',
      ''UNAUTHORIZED COMPUTER ACCESS'',
      ''GRAND THEFT / INSURANCE FRAUD'']"

text \<open>Lines 258--287, the keys listed under \<open># Other / Miscellaneous\<close>.\<close>

definition other_crimes :: "string list" where
  "other_crimes = [
      ''OTHER MISCELLANEOUS CRIME'',
      ''VIOLATION OF RESTRAINING ORDER'',
      ''VIOLATION OF TEMPORARY RESTRAINING ORDER'',
      ''VIOLATION OF COURT ORDER'',
      ''SEX OFFENDER REGISTRANT OUT OF COMPLIANCE'',
      ''CHILD NEGLECT (SEE 300 W.I.C.)'',
      ''CHILD STEALING'',
      ''CHILD ABANDONMENT'',
      ''CHILD PORNOGRAPHY'',
      ''FALSE IMPRISONMENT'',
      ''FALSE POLICE REPORT'',
      ''CONTEMPT OF COURT'',
      ''THREATENING PHONE CALLS/LETTERS'',
      ''LYNCHING'',
      ''LYNCHING - ATTEMPTED'',
      ''HUMAN TRAFFICKING - COMMERCIAL SEX ACTS'',
      ''HUMAN TRAFFICKING - INVOLUNTARY SERVITUDE'',
      ''PANDERING'',
      ''PIMPING'',
      ''CONSPIRACY'',
      ''CONTRIBUTING'',
      ''BIGAMY'',
      ''BRIBERY'',
      ''TRAIN WRECKING'',
      ''DRUGS, TO A MINOR'',
      ''REPLICA FIREARMS(SALE,DISPLAY,MANUFACTURE OR DISTRIBUTE)'',
      ''SEX OFFENDER REGISTRANT OUT OF COMPLIANCE'',
      ''DRUNK ROLL'',
      ''DRUNK ROLL - ATTEMPT'']"

text \<open>The dict literal, entry by entry: each group's keys with the group's label.\<close>

definition crime_category_table :: "(string \<times> string) list" where
  "crime_category_table =
     map (\<lambda>k. (k, ''Violent Crime'')) violent_crimes @
     map (\<lambda>k. (k, ''Property Crime'')) property_crimes @
     map (\<lambda>k. (k, ''Public Order Crime'')) public_order_crimes @
     map (\<lambda>k. (k, ''Sexual Offense'')) sexual_offenses @
     map (\<lambda>k. (k, ''White Collar Crime'')) white_collar_crimes @
     map (\<lambda>k. (k, ''Other'')) other_crimes"

definition crime_category_mapping :: "string \<rightharpoonup> string" where
  "crime_category_mapping = py_dict crime_category_table"

definition category_labels :: "string list" where
  "category_labels = [''Violent Crime'', ''Property Crime'', ''Public Order Crime'',
                      ''Sexual Offense'', ''White Collar Crime'', ''Other'']"

text \<open>\<open>Series.map(dict).fillna("Other")\<close> on one cell.\<close>

definition crime_category_cell :: "cell \<Rightarrow> cell" where
  "crime_category_cell c =
     fillna ''Other'' (case c of None \<Rightarrow> None | Some s \<Rightarrow> crime_category_mapping s)"

text \<open>Line 291: the new column \<open>Crime_Category\<close>.\<close>

definition categorize :: "frame \<Rightarrow> pd_error + frame" where
  "categorize df =
     bindE (get_col df ''Crm Cd Desc'')
       (\<lambda>c. Inr (set_col ''Crime_Category'' (map crime_category_cell c) df))"

section \<open>Lemmas\<close>

lemma category_table_labels:
  "list_all (\<lambda>(k, v). v \<in> set category_labels) crime_category_table"
  by (auto simp: crime_category_table_def category_labels_def list_all_iff)

lemma crime_category_mapping_label:
  "crime_category_mapping s = Some l \<Longrightarrow> l \<in> set category_labels"
  using category_table_labels
  by (auto simp: crime_category_mapping_def list_all_iff dest!: py_dict_SomeD)

lemma categorize_Inr:
  "get_col df ''Crm Cd Desc'' = Inr c \<Longrightarrow>
   categorize df = Inr (set_col ''Crime_Category'' (map crime_category_cell c) df)"
  by (simp add: categorize_def)

section \<open>Properties of STEP 8\<close>

text \<open>
  The category is never missing: every cell, a missing description included,
  gets one of the six labels.
\<close>

theorem category_vocab: "crime_category_cell c \<in> Some ` set category_labels"
proof (cases "Option.bind c crime_category_mapping")
  case None
  then show ?thesis
    by (cases c) (auto simp: crime_category_cell_def fillna_def category_labels_def)
next
  case (Some l)
  then obtain s where "c = Some s" "crime_category_mapping s = Some l" by (cases c) auto
  then show ?thesis
    by (auto simp: crime_category_cell_def fillna_def dest: crime_category_mapping_label)
qed

text \<open>
  A description that is not a key of the vocabulary, spelled exactly, maps to
  \<open>"Other"\<close>: no fuzzy or partial matching (\<open>"NOT-A-REAL-CRIME"\<close> is other).
\<close>

theorem category_miss:
  assumes "s \<notin> set (map fst crime_category_table)"
  shows "crime_category_cell (Some s) = Some ''Other''"
  using assms by (simp add: crime_category_cell_def crime_category_mapping_def py_dict_None fillna_def)

theorem category_miss_witness:
  "''NOT-A-REAL-CRIME'' \<notin> set (map fst crime_category_table) \<and>
   crime_category_cell (Some ''NOT-A-REAL-CRIME'') = Some ''Other''"
proof -
  have h: "''NOT-A-REAL-CRIME'' \<notin> set (map fst crime_category_table)" by code_simp
  show ?thesis using h category_miss[OF h] by simp
qed

text \<open>
  A description that is a key exactly once gets the label written beside it
  (\<open>"BURGLARY"\<close> is a property crime).
\<close>

theorem category_hit:
  assumes "filter (\<lambda>p. fst p = s) crime_category_table = [(s, l)]"
  shows "crime_category_cell (Some s) = Some l"
  using py_dict_unique[OF assms]
  by (simp add: crime_category_cell_def crime_category_mapping_def fillna_def)

theorem category_hit_witness:
  "filter (\<lambda>p. fst p = ''BURGLARY'') crime_category_table = [(''BURGLARY'', ''Property Crime'')] \<and>
   crime_category_cell (Some ''BURGLARY'') = Some ''Property Crime''"
proof -
  have h: "filter (\<lambda>p. fst p = ''BURGLARY'') crime_category_table = [(''BURGLARY'', ''Property Crime'')]"
    by code_simp
  show ?thesis using h category_hit[OF h] by simp
qed

text \<open>
  C20. STEP 8 adds a \<open>Crime_Category\<close> column with one label per row, never missing,
  whenever the table has a \<open>Crm Cd Desc\<close> column, and keeps the table well formed.
\<close>

theorem categorize_column:
  assumes "frame_wf df" and "get_col df ''Crm Cd Desc'' = Inr c"
  shows "\<exists>df'. categorize df = Inr df' \<and> frame_wf df' \<and>
           get_col df' ''Crime_Category'' = Inr (map crime_category_cell c) \<and>
           list_all (\<lambda>x. x \<in> Some ` set category_labels) (map crime_category_cell c)"
proof -
  have "length (map crime_category_cell c) = n_rows df"
    using frame_wf_col_length[OF assms] by simp
  then have "frame_wf (set_col ''Crime_Category'' (map crime_category_cell c) df)"
    using assms(1) by (rule frame_wf_set_col[rotated])
  moreover have "list_all (\<lambda>x. x \<in> Some ` set category_labels) (map crime_category_cell c)"
    using category_vocab by (simp add: list_all_iff)
  ultimately show ?thesis using categorize_Inr[OF assms(2)] by simp
qed

theorem categorize_column_witness:
  "frame_wf \<lparr>idx = [0, 1], cols = [(''Crm Cd Desc'', [Some ''BURGLARY'', None])]\<rparr> \<and>
   get_col \<lparr>idx = [0, 1], cols = [(''Crm Cd Desc'', [Some ''BURGLARY'', None])]\<rparr> ''Crm Cd Desc''
     = Inr [Some ''BURGLARY'', None] \<and>
   (\<exists>df'. categorize \<lparr>idx = [0, 1], cols = [(''Crm Cd Desc'', [Some ''BURGLARY'', None])]\<rparr> = Inr df' \<and>
      get_col df' ''Crime_Category'' = Inr (map crime_category_cell [Some ''BURGLARY'', None]))"
proof -
  let ?df = "\<lparr>idx = [0::nat, 1], cols = [(''Crm Cd Desc'', [Some ''BURGLARY'', None])]\<rparr>"
  have wf: "frame_wf ?df" by (simp add: frame_wf_def col_names_def n_rows_def)
  have c: "get_col ?df ''Crm Cd Desc'' = Inr [Some ''BURGLARY'', None]" by (simp add: get_col_def)
  show ?thesis using wf c categorize_column[OF wf c] by blast
qed

end
