(* ===== verification/Mocodes.thy ===== *)
theory Mocodes
  imports Frame
begin

text \<open>
  The MO codes of the cleaning script: the lookup table built in STEP 1 (lines
  13--14) from the codes file, and STEP 7 (lines 115--129), which expands the
  space-separated \<open>Mocodes\<close> text of every row into descriptions, lays them out as
  the columns \<open>MO_Desc_1\<close> .. \<open>MO_Desc_w\<close> of a new frame (\<open>w\<close> the longest list, shorter
  rows padded, then \<open>fillna("None")\<close>) and joins that frame to the table with
  \<open>pd.concat(axis=1)\<close>. The new frame has the default index \<open>0 .. n-1\<close>, while the
  table keeps the labels that survived STEP 3, so the join is by label, not by
  position. The helper column \<open>MO_Descriptions_List\<close> is added at line 121 and dropped
  at line 129 without being read in between; its net effect on the table is nil and
  the model passes the lists directly.
\<close>

text \<open>The codes file as \<open>read_csv\<close> types it: the \<open>Code\<close> and \<open>Description\<close> columns.\<close>

record codes_frame =
  code_col :: raw_col
  description_col :: "cell list"

text \<open>\<open>Series.astype(str)\<close> for every dtype \<open>read_csv\<close> produces.\<close>

fun astype_str :: "raw_col \<Rightarrow> string list" where
  "astype_str (ObjCol c) = map cell_str c"
| "astype_str (IntCol xs) = map py_str_int xs"
| "astype_str (FloatCol c) = map cell_str c"

text \<open>Lines 13--14: \<open>dict(zip(codes.astype(str).str.zfill(4), descriptions))\<close>.\<close>

definition mo_code_mapping :: "codes_frame \<Rightarrow> string \<rightharpoonup> cell" where
  "mo_code_mapping cdf =
     py_dict (zip (map (\<lambda>s. zfill s 4) (astype_str (code_col cdf))) (description_col cdf))"

text \<open>Lines 115--119, \<open>expand_mocodes_to_descriptions\<close>.\<close>

definition expand_mocodes :: "(string \<rightharpoonup> cell) \<Rightarrow> cell \<Rightarrow> cell list" where
  "expand_mocodes m x =
     (case x of
        None \<Rightarrow> [Some ''None'']
      | Some s \<Rightarrow>
          if py_strip s = [] \<or> py_lower (py_strip s) = ''unknown'' then [Some ''None'']
          else map (\<lambda>code. dict_get m (zfill code 4) (Some ''None'')) (py_split (py_strip s)))"

text \<open>Line 123: the column names \<open>f"MO_Desc_{i+1}"\<close>.\<close>

definition mo_desc_name :: "nat \<Rightarrow> string" where
  "mo_desc_name i = ''MO_Desc_'' @ py_str_int (int (i + 1))"

text \<open>\<open>pd.DataFrame(rows, columns=...)\<close> pads a row shorter than the columns with \<open>None\<close>.\<close>

definition pad_row :: "nat \<Rightarrow> cell list \<Rightarrow> cell list" where
  "pad_row w r = r @ replicate (w - length r) None"

text \<open>Line 122: \<open>max_mo_codes\<close>, the largest list length (\<open>Series.max\<close>).\<close>

definition max_mo_codes :: "cell list list \<Rightarrow> nat" where
  "max_mo_codes rows = Max (set (map length rows))"

text \<open>
  Lines 123--125: on an empty table the maximum is \<open>NaN\<close> and \<open>range(NaN)\<close> raises
  \<open>TypeError\<close>. The new frame has the default index.
\<close>

definition mo_desc_frame :: "cell list list \<Rightarrow> pd_error + frame" where
  "mo_desc_frame rows =
     (if rows = [] then Inl TypeError
      else (let w = max_mo_codes rows in
            Inr \<lparr>idx = [0..<length rows],
                 cols = map (\<lambda>j. (mo_desc_name j, map (\<lambda>r. pad_row w r ! j) rows)) [0..<w]\<rparr>))"

text \<open>Line 121: the lists of \<open>MO_Descriptions_List\<close>, in row order.\<close>

definition mo_descriptions_list :: "codes_frame \<Rightarrow> cell list \<Rightarrow> cell list list" where
  "mo_descriptions_list cdf c = map (expand_mocodes (mo_code_mapping cdf)) c"

text \<open>Lines 121--129: STEP 7 as a whole.\<close>

definition expand_mo_step :: "codes_frame \<Rightarrow> frame \<Rightarrow> pd_error + frame" where
  "expand_mo_step cdf df =
     bindE (get_col df ''Mocodes'') (\<lambda>c.
     bindE (mo_desc_frame (mo_descriptions_list cdf c)) (\<lambda>md.
     concat_axis1 df (fillna_frame ''None'' md)))"

section \<open>Lemmas\<close>

lemma length_pad_row [simp]: "length r \<le> w \<Longrightarrow> length (pad_row w r) = w"
  by (simp add: pad_row_def)

lemma pad_row_nth:
  "j < w \<Longrightarrow> pad_row w r ! j = (if j < length r then r ! j else None)"
  by (simp add: pad_row_def nth_append)


lemma mo_desc_name_inj: "mo_desc_name i = mo_desc_name j \<Longrightarrow> i = j"
proof -
  assume "mo_desc_name i = mo_desc_name j"
  then have "show_nat (Suc i) = show_nat (Suc j)"
    by (simp add: mo_desc_name_def py_str_int_def flip: of_nat_Suc)
  then have "py_int (show_nat (Suc i)) = py_int (show_nat (Suc j))" by simp
  then show "i = j" by simp
qed

lemma distinct_mo_desc_names: "distinct (map mo_desc_name [0..<w])"
  by (simp add: distinct_map inj_on_def mo_desc_name_inj)

lemma max_mo_codes_ge: "r \<in> set rows \<Longrightarrow> length r \<le> max_mo_codes rows"
  by (simp add: max_mo_codes_def)

lemma mo_desc_frame_Inr:
  assumes "rows \<noteq> []"
  shows "mo_desc_frame rows = Inr \<lparr>idx = [0..<length rows],
           cols = map (\<lambda>j. (mo_desc_name j, map (\<lambda>r. pad_row (max_mo_codes rows) r ! j) rows))
                      [0..<max_mo_codes rows]\<rparr>"
  using assms by (simp add: mo_desc_frame_def Let_def)

lemma mo_desc_frame_empty: "mo_desc_frame [] = Inl TypeError"
  by (simp add: mo_desc_frame_def)

lemma mo_desc_frame_wf:
  "mo_desc_frame rows = Inr md \<Longrightarrow> frame_wf md \<and> idx md = [0..<length rows]"
  by (cases "rows = []")
     (auto simp: mo_desc_frame_def Let_def frame_wf_def col_names_def n_rows_def list_all_iff
                 comp_def distinct_mo_desc_names)

lemma get_col_mo_desc_frame:
  assumes "mo_desc_frame rows = Inr md" and "j < max_mo_codes rows"
  shows "get_col md (mo_desc_name j) = Inr (map (\<lambda>r. pad_row (max_mo_codes rows) r ! j) rows)"
proof -
  have "rows \<noteq> []" using assms(1) by (auto simp: mo_desc_frame_def)
  then have md: "md = \<lparr>idx = [0..<length rows],
           cols = map (\<lambda>j. (mo_desc_name j, map (\<lambda>r. pad_row (max_mo_codes rows) r ! j) rows))
                      [0..<max_mo_codes rows]\<rparr>"
    using assms(1) by (simp add: mo_desc_frame_Inr)
  have "map_of (cols md) (mo_desc_name j) = Some (map (\<lambda>r. pad_row (max_mo_codes rows) r ! j) rows)"
    unfolding md using assms(2)
    by (intro map_of_is_SomeI) (auto simp: comp_def distinct_mo_desc_names)
  then show ?thesis by (simp add: get_col_Inr_iff)
qed

text \<open>STEP 7 on a table with unique labels is the label join of the two frames.\<close>

lemma expand_mo_step_concat:
  assumes "frame_wf df" and "distinct (idx df)" and "get_col df ''Mocodes'' = Inr c" and "c \<noteq> []"
  shows "\<exists>md. mo_desc_frame (mo_descriptions_list cdf c) = Inr md \<and>
           expand_mo_step cdf df = Inr (concat_frame df (fillna_frame ''None'' md)) \<and>
           idx md = [0..<n_rows df] \<and> length (mo_descriptions_list cdf c) = n_rows df"
proof -
  have len: "length c = n_rows df" using frame_wf_col_length[OF assms(1,3)] .
  have ne: "mo_descriptions_list cdf c \<noteq> []" using assms(4) by (simp add: mo_descriptions_list_def)
  then obtain md where md: "mo_desc_frame (mo_descriptions_list cdf c) = Inr md"
    by (simp add: mo_desc_frame_Inr)
  then have "frame_wf md" and ix: "idx md = [0..<length c]"
    using mo_desc_frame_wf by (simp_all add: mo_descriptions_list_def)
  then have "concat_axis1 df (fillna_frame ''None'' md) = Inr (concat_frame df (fillna_frame ''None'' md))"
    using assms(1,2) by (intro concat_axis1_union) (simp_all add: frame_wf_fillna_frame)
  with md assms(3) ix len show ?thesis
    by (simp add: expand_mo_step_def mo_descriptions_list_def)
qed

text \<open>The cell of a description column at a row of the table: the row's label picks the list.\<close>

lemma expand_mo_cell:
  assumes "mo_desc_frame rows = Inr md" and "j < max_mo_codes rows"
    and "n \<notin> set (col_names df)" and "n = mo_desc_name j"
    and "p < length (idx df)" and "length rows = length (idx df)"
  shows "\<exists>col. get_col (concat_frame df (fillna_frame ''None'' md)) n = Inr col \<and>
           col ! p = (if idx df ! p < length rows
                      then fillna ''None'' (pad_row (max_mo_codes rows) (rows ! (idx df ! p)) ! j)
                      else None)"
proof -
  let ?col = "map (\<lambda>r. pad_row (max_mo_codes rows) r ! j) rows"
  have wf: "frame_wf md" and ix: "idx md = [0..<length rows]"
    using mo_desc_frame_wf[OF assms(1)] by simp_all
  have r: "get_col (fillna_frame ''None'' md) n = Inr (map (fillna ''None'') ?col)"
    using get_col_mo_desc_frame[OF assms(1,2)] assms(4)
    by (simp add: get_col_Inr_iff map_of_fillna_frame)
  then have g: "get_col (concat_frame df (fillna_frame ''None'' md)) n =
      Inr (reindex [0..<length rows] (union_idx (idx df) [0..<length rows]) (map (fillna ''None'') ?col))"
    using get_col_concat_right[OF assms(3) r] ix by simp
  have u: "union_idx (idx df) [0..<length rows] ! p = idx df ! p"
    using assms(5) by (rule union_idx_prefix)
  have up: "p < length (union_idx (idx df) [0..<length rows])"
    using assms(5) by (simp add: union_idx_def)
  show ?thesis
  proof (cases "idx df ! p < length rows")
    case True
    then have "reindex [0..<length rows] (union_idx (idx df) [0..<length rows]) (map (fillna ''None'') ?col) ! p
               = map (fillna ''None'') ?col ! (idx df ! p)"
      using up u by (intro reindex_nth) simp_all
    with True g show ?thesis by simp
  next
    case False
    then have "reindex [0..<length rows] (union_idx (idx df) [0..<length rows]) (map (fillna ''None'') ?col) ! p
               = None"
      using up u by (intro reindex_missing) simp_all
    with False g show ?thesis by simp
  qed
qed

text \<open>A column of the table keeps its cells at the table's own rows.\<close>

lemma expand_mo_left_cell:
  assumes "frame_wf df" and "distinct (idx df)" and "get_col df m = Inr d" and "p < length (idx df)"
  shows "\<exists>col. get_col (concat_frame df b) m = Inr col \<and> col ! p = d ! p"
proof -
  have "length d = length (idx df)" using frame_wf_col_length[OF assms(1,3)] by (simp add: n_rows_def)
  then have "reindex (idx df) (union_idx (idx df) (idx b)) d ! p = d ! p"
    using assms(2,4) by (intro reindex_nth) (simp_all add: union_idx_def nth_append)
  with assms(3) show ?thesis by (simp add: get_col_concat_left)
qed

subsection \<open>Code lookup\<close>

lemma mo_key_int:
  assumes "0 \<le> i" and "zfill (py_str_int i) 4 = fixed_digits 4 n" and "n < 10000"
  shows "i = int n"
proof -
  have "digits_val (zfill (show_nat (nat i)) 4) = digits_val (fixed_digits 4 n)"
    using assms(1,2) by (simp add: py_str_int_def)
  with assms(1,3) show ?thesis by (simp add: fixed_digits_val)
qed

lemma zfill_fixed_digits_4 [simp]: "zfill (fixed_digits 4 n) 4 = fixed_digits 4 n"
  by (simp add: zfill_def)

lemma zfill_show_nat_4: "n < 10000 \<Longrightarrow> zfill (show_nat n) 4 = fixed_digits 4 n"
  by (simp add: zfill_show_nat_fixed)

lemma mo_code_mapping_int:
  assumes "code_col cdf = IntCol cs" and "list_all (\<lambda>x. 0 \<le> x) cs"
    and "filter (\<lambda>p. fst p = int n) (zip cs (description_col cdf)) = [(int n, d)]"
    and "n < 10000"
  shows "mo_code_mapping cdf (fixed_digits 4 n) = Some d"
proof -
  define f where "f = (\<lambda>i. zfill (py_str_int i) 4)"
  let ?zs = "zip cs (description_col cdf)"
  have key: "f i = fixed_digits 4 n \<longleftrightarrow> i = int n" if "i \<in> set cs" for i
    using that assms(2,4) mo_key_int[of i n] zfill_show_nat_4[of n]
    by (auto simp: f_def list_all_iff py_str_int_def)
  have "filter (\<lambda>p. f (fst p) = fixed_digits 4 n) ?zs = filter (\<lambda>p. fst p = int n) ?zs"
    by (rule filter_cong) (auto dest: set_zip_leftD simp: key)
  then have "filter (\<lambda>p. fst p = fixed_digits 4 n) (zip (map f cs) (description_col cdf))
             = [(fixed_digits 4 n, d)]"
    using assms(3,4) zfill_show_nat_4[of n]
    by (simp add: zip_map1 filter_map comp_def case_prod_beta f_def py_str_int_def)
  then show ?thesis
    using assms(1) by (simp add: mo_code_mapping_def f_def comp_def py_dict_unique)
qed

lemma expand_mocodes_digits:
  assumes "t \<noteq> []" and "list_all is_digit t"
  shows "expand_mocodes m (Some t) = [dict_get m (zfill t 4) (Some ''None'')]"
proof -
  have "t \<noteq> ''unknown''" using assms(2) by (auto simp: is_digit_def)
  moreover have "list_all (\<lambda>c. \<not> py_isspace c) t"
    using assms(2) by (auto simp: list_all_iff)
  ultimately show ?thesis
    using assms by (simp add: expand_mocodes_def py_strip_digits py_lower_digits py_split_no_space)
qed

lemma expand_mocodes_Unknown: "expand_mocodes m (Some ''Unknown'') = [Some ''None'']"
  by code_simp

section \<open>Properties of STEP 7\<close>

text \<open>
  STEP 7 joins by label. On a well-formed table with unique labels, the cell of
  \<open>MO_Desc_(j+1)\<close> in the row at position \<open>p\<close> holds the \<open>j\<close>-th description of the
  list computed for the row at position \<open>idx ! p\<close> (the row's label), or is missing
  when that label is not below the number of rows; the new index is the union of the
  table's labels and \<open>0 .. n-1\<close>.
\<close>

theorem expand_mo_step_join:
  assumes "frame_wf df" and "distinct (idx df)" and "get_col df ''Mocodes'' = Inr c" and "c \<noteq> []"
    and "mo_desc_name j \<notin> set (col_names df)"
    and "j < max_mo_codes (mo_descriptions_list cdf c)" and "p < n_rows df"
  shows "\<exists>df' col. expand_mo_step cdf df = Inr df' \<and> idx df' = union_idx (idx df) [0..<n_rows df] \<and>
           get_col df' (mo_desc_name j) = Inr col \<and>
           col ! p = (if idx df ! p < n_rows df
                      then fillna ''None'' (pad_row (max_mo_codes (mo_descriptions_list cdf c))
                                              (mo_descriptions_list cdf c ! (idx df ! p)) ! j)
                      else None)"
proof -
  obtain md where md: "mo_desc_frame (mo_descriptions_list cdf c) = Inr md"
    and step: "expand_mo_step cdf df = Inr (concat_frame df (fillna_frame ''None'' md))"
    and ix: "idx md = [0..<n_rows df]" and len: "length (mo_descriptions_list cdf c) = n_rows df"
    using expand_mo_step_concat[OF assms(1-4)] by blast
  show ?thesis
    using expand_mo_cell[OF md assms(6,5) refl, of p] assms(7) step ix len
    by (simp add: n_rows_def)
qed

theorem expand_mo_step_join_witness:
  "frame_wf \<lparr>idx = [0, 2], cols = [(''Mocodes'', [Some ''0100 2000'', Some ''Unknown''])]\<rparr> \<and> distinct (idx \<lparr>idx = [0, 2], cols = [(''Mocodes'', [Some ''0100 2000'', Some ''Unknown''])]\<rparr>) \<and> get_col \<lparr>idx = [0, 2], cols = [(''Mocodes'', [Some ''0100 2000'', Some ''Unknown''])]\<rparr> ''Mocodes'' = Inr [Some ''0100 2000'', Some ''Unknown''] \<and> [Some ''0100 2000'', Some ''Unknown''] \<noteq> [] \<and>
   mo_desc_name 0 \<notin> set (col_names \<lparr>idx = [0, 2], cols = [(''Mocodes'', [Some ''0100 2000'', Some ''Unknown''])]\<rparr>) \<and> 0 < max_mo_codes (mo_descriptions_list \<lparr>code_col = IntCol [100, 2000], description_col = [Some ''Suspect Impersonate'', Some ''Vandalized'']\<rparr> [Some ''0100 2000'', Some ''Unknown'']) \<and>
   1 < n_rows \<lparr>idx = [0, 2], cols = [(''Mocodes'', [Some ''0100 2000'', Some ''Unknown''])]\<rparr> \<and>
   (\<exists>df' col. expand_mo_step \<lparr>code_col = IntCol [100, 2000], description_col = [Some ''Suspect Impersonate'', Some ''Vandalized'']\<rparr> \<lparr>idx = [0, 2], cols = [(''Mocodes'', [Some ''0100 2000'', Some ''Unknown''])]\<rparr> = Inr df' \<and> idx df' = [0, 2, 1] \<and>
      get_col df' (mo_desc_name 0) = Inr col \<and> col ! 1 = None)"
proof -
  let ?df = "\<lparr>idx = [0, 2], cols = [(''Mocodes'', [Some ''0100 2000'', Some ''Unknown''])]\<rparr>" and ?c = "[Some ''0100 2000'', Some ''Unknown'']" and ?cdf = "\<lparr>code_col = IntCol [100, 2000], description_col = [Some ''Suspect Impersonate'', Some ''Vandalized'']\<rparr>"
  have wf: "frame_wf ?df" by (simp add: frame_wf_def col_names_def n_rows_def)
  have d: "distinct (idx ?df)" by simp
  have c: "get_col ?df ''Mocodes'' = Inr ?c" by (simp add: get_col_def)
  have ne: "?c \<noteq> []" by simp
  have fresh: "mo_desc_name 0 \<notin> set (col_names ?df)"
    by (simp add: mo_desc_name_def col_names_def py_str_int_def show_nat.simps digit_char_def)
  have w: "max_mo_codes (mo_descriptions_list ?cdf ?c) = 2" by code_simp
  have r: "1 < n_rows ?df" by (simp add: n_rows_def)
  show ?thesis
    using wf d c ne fresh w r expand_mo_step_join[OF wf d c ne fresh, of ?cdf 1] w r
    by (simp add: n_rows_def union_idx_def)
qed

text \<open>
  C4. When the labels are \<open>0 .. n-1\<close> in order (no row was dropped, or only trailing
  ones), the join is positional: the index is unchanged and the cell of
  \<open>MO_Desc_(j+1)\<close> in row \<open>p\<close> is the \<open>j\<close>-th description of row \<open>p\<close>'s own \<open>Mocodes\<close>,
  \<open>"None"\<close> past its end, never missing.
\<close>

theorem expand_mo_step_aligned:
  assumes "frame_wf df" and "idx df = [0..<n_rows df]" and "get_col df ''Mocodes'' = Inr c"
    and "c \<noteq> []" and "mo_desc_name j \<notin> set (col_names df)"
    and "j < max_mo_codes (mo_descriptions_list cdf c)" and "p < n_rows df"
  shows "\<exists>df' col. expand_mo_step cdf df = Inr df' \<and> idx df' = idx df \<and>
           get_col df' (mo_desc_name j) = Inr col \<and> col ! p \<noteq> None \<and>
           col ! p = fillna ''None'' (pad_row (max_mo_codes (mo_descriptions_list cdf c))
                                        (expand_mocodes (mo_code_mapping cdf) (c ! p)) ! j)"
proof -
  have d: "distinct (idx df)" using assms(2) by (metis distinct_upt)
  obtain md where md: "mo_desc_frame (mo_descriptions_list cdf c) = Inr md"
    and step: "expand_mo_step cdf df = Inr (concat_frame df (fillna_frame ''None'' md))"
    and ix: "idx md = [0..<n_rows df]" and len: "length (mo_descriptions_list cdf c) = n_rows df"
    using expand_mo_step_concat[OF assms(1) d assms(3,4)] by blast
  have "idx df ! p = p" using assms(2,7) by (metis nth_upt add_0)
  moreover have "union_idx (idx df) [0..<n_rows df] = idx df"
    using assms(2) by (metis union_idx_same)
  ultimately show ?thesis
    using expand_mo_cell[OF md assms(6,5) refl, of p] assms(7) step ix len
    by (auto simp: n_rows_def mo_descriptions_list_def fillna_def split: option.splits)
qed

theorem expand_mo_step_aligned_witness:
  "frame_wf \<lparr>idx = [0, 1], cols = [(''Mocodes'', [Some ''0100 2000'', Some ''Unknown''])]\<rparr> \<and> idx \<lparr>idx = [0, 1], cols = [(''Mocodes'', [Some ''0100 2000'', Some ''Unknown''])]\<rparr> = [0..<n_rows \<lparr>idx = [0, 1], cols = [(''Mocodes'', [Some ''0100 2000'', Some ''Unknown''])]\<rparr>] \<and> get_col \<lparr>idx = [0, 1], cols = [(''Mocodes'', [Some ''0100 2000'', Some ''Unknown''])]\<rparr> ''Mocodes'' = Inr [Some ''0100 2000'', Some ''Unknown''] \<and> [Some ''0100 2000'', Some ''Unknown''] \<noteq> [] \<and>
   mo_desc_name 1 \<notin> set (col_names \<lparr>idx = [0, 1], cols = [(''Mocodes'', [Some ''0100 2000'', Some ''Unknown''])]\<rparr>) \<and> 1 < max_mo_codes (mo_descriptions_list \<lparr>code_col = IntCol [100, 2000], description_col = [Some ''Suspect Impersonate'', Some ''Vandalized'']\<rparr> [Some ''0100 2000'', Some ''Unknown'']) \<and>
   0 < n_rows \<lparr>idx = [0, 1], cols = [(''Mocodes'', [Some ''0100 2000'', Some ''Unknown''])]\<rparr> \<and>
   (\<exists>df' col. expand_mo_step \<lparr>code_col = IntCol [100, 2000], description_col = [Some ''Suspect Impersonate'', Some ''Vandalized'']\<rparr> \<lparr>idx = [0, 1], cols = [(''Mocodes'', [Some ''0100 2000'', Some ''Unknown''])]\<rparr> = Inr df' \<and> idx df' = [0, 1] \<and>
      get_col df' (mo_desc_name 1) = Inr col \<and> col ! 0 = Some ''Vandalized'')"
proof -
  let ?df = "\<lparr>idx = [0, 1], cols = [(''Mocodes'', [Some ''0100 2000'', Some ''Unknown''])]\<rparr>" and ?c = "[Some ''0100 2000'', Some ''Unknown'']" and ?cdf = "\<lparr>code_col = IntCol [100, 2000], description_col = [Some ''Suspect Impersonate'', Some ''Vandalized'']\<rparr>"
  have wf: "frame_wf ?df" by (simp add: frame_wf_def col_names_def n_rows_def)
  have ix: "idx ?df = [0..<n_rows ?df]" by (simp add: n_rows_def upt_rec)
  have c: "get_col ?df ''Mocodes'' = Inr ?c" by (simp add: get_col_def)
  have ne: "?c \<noteq> []" by simp
  have fresh: "mo_desc_name 1 \<notin> set (col_names ?df)"
    by (simp add: mo_desc_name_def col_names_def py_str_int_def show_nat.simps digit_char_def)
  have w: "max_mo_codes (mo_descriptions_list ?cdf ?c) = 2" by code_simp
  have r: "0 < n_rows ?df" by (simp add: n_rows_def)
  have e: "expand_mocodes (mo_code_mapping ?cdf) (Some ''0100 2000'') =
           [Some ''Suspect Impersonate'', Some ''Vandalized'']" by code_simp
  show ?thesis
    using wf ix c ne fresh w r expand_mo_step_aligned[OF wf ix c ne fresh, of ?cdf 0] w r e
    by (simp add: n_rows_def pad_row_def fillna_def) blast
qed

text \<open>
  C3. When STEP 3 has dropped a row that is not trailing, the labels are sorted and
  unique but not \<open>0 .. n-1\<close>; STEP 7 then appends rows for the missing labels, so the
  table grows, and some cell of the result is missing, against the null-free
  invariant STEP 2 established.
\<close>

theorem expand_mo_step_misaligned:
  assumes "frame_wf df" and "sorted (idx df)" and "distinct (idx df)"
    and "idx df \<noteq> [0..<n_rows df]" and "get_col df ''Mocodes'' = Inr c"
  shows "\<exists>df'. expand_mo_step cdf df = Inr df' \<and> n_rows df < n_rows df' \<and> \<not> no_null df'"
proof -
  obtain l where l: "l < n_rows df" "l \<notin> set (idx df)"
    using sorted_distinct_gap[OF assms(2,3)] assms(4) by (auto simp: n_rows_def)
  have len: "length c = length (idx df)"
    using frame_wf_col_length[OF assms(1,5)] by (simp add: n_rows_def)
  with l have "c \<noteq> []" by (auto simp: n_rows_def)
  then obtain md where step: "expand_mo_step cdf df = Inr (concat_frame df (fillna_frame ''None'' md))"
    and ix: "idx md = [0..<n_rows df]"
    using expand_mo_step_concat[OF assms(1,3,5)] by blast
  let ?u = "union_idx (idx df) [0..<n_rows df]"
  have "l \<in> set ?u" using l by simp
  then obtain q where q: "q < length ?u" "?u ! q = l" by (metis in_set_conv_nth)
  have "reindex (idx df) ?u c ! q = None" using q l len by (intro reindex_missing) simp_all
  moreover have "get_col (concat_frame df (fillna_frame ''None'' md)) ''Mocodes'' = Inr (reindex (idx df) ?u c)"
    using get_col_concat_left[OF assms(5), of "fillna_frame ''None'' md"] ix by simp
  moreover have "q < length (reindex (idx df) ?u c)" using q by simp
  ultimately have "\<not> no_null (concat_frame df (fillna_frame ''None'' md))"
    by (metis nth_mem no_null_get_col)
  moreover have "n_rows df < length ?u"
    using length_union_idx_gt[of l "[0..<n_rows df]" "idx df"] l by (simp add: n_rows_def)
  ultimately show ?thesis using step ix by (simp add: n_rows_def)
qed

theorem expand_mo_step_misaligned_witness:
  "frame_wf \<lparr>idx = [0, 2], cols = [(''Mocodes'', [Some ''0100 2000'', Some ''Unknown''])]\<rparr> \<and> sorted (idx \<lparr>idx = [0, 2], cols = [(''Mocodes'', [Some ''0100 2000'', Some ''Unknown''])]\<rparr>) \<and> distinct (idx \<lparr>idx = [0, 2], cols = [(''Mocodes'', [Some ''0100 2000'', Some ''Unknown''])]\<rparr>) \<and> idx \<lparr>idx = [0, 2], cols = [(''Mocodes'', [Some ''0100 2000'', Some ''Unknown''])]\<rparr> \<noteq> [0..<n_rows \<lparr>idx = [0, 2], cols = [(''Mocodes'', [Some ''0100 2000'', Some ''Unknown''])]\<rparr>] \<and>
   get_col \<lparr>idx = [0, 2], cols = [(''Mocodes'', [Some ''0100 2000'', Some ''Unknown''])]\<rparr> ''Mocodes'' = Inr [Some ''0100 2000'', Some ''Unknown''] \<and>
   (\<exists>df'. expand_mo_step \<lparr>code_col = IntCol [100, 2000], description_col = [Some ''Suspect Impersonate'', Some ''Vandalized'']\<rparr> \<lparr>idx = [0, 2], cols = [(''Mocodes'', [Some ''0100 2000'', Some ''Unknown''])]\<rparr> = Inr df' \<and> n_rows \<lparr>idx = [0, 2], cols = [(''Mocodes'', [Some ''0100 2000'', Some ''Unknown''])]\<rparr> < n_rows df' \<and> \<not> no_null df')"
proof -
  let ?df = "\<lparr>idx = [0, 2], cols = [(''Mocodes'', [Some ''0100 2000'', Some ''Unknown''])]\<rparr>" and ?c = "[Some ''0100 2000'', Some ''Unknown'']"
  have wf: "frame_wf ?df" by (simp add: frame_wf_def col_names_def n_rows_def)
  have so: "sorted (idx ?df)" and d: "distinct (idx ?df)" by simp_all
  have ne: "idx ?df \<noteq> [0..<n_rows ?df]" by (simp add: n_rows_def upt_rec)
  have c: "get_col ?df ''Mocodes'' = Inr ?c" by (simp add: get_col_def)
  show ?thesis using wf so d ne c expand_mo_step_misaligned[OF wf so d ne c, of "\<lparr>code_col = IntCol [100, 2000], description_col = [Some ''Suspect Impersonate'', Some ''Vandalized'']\<rparr>"] by blast
qed

text \<open>
  On a table without rows the maximum list length is \<open>NaN\<close> and STEP 7 stops
  with \<open>TypeError\<close> (from \<open>range\<close>).
\<close>

theorem expand_mo_step_empty:
  assumes "get_col df ''Mocodes'' = Inr []"
  shows "expand_mo_step cdf df = Inl TypeError"
  using assms by (simp add: expand_mo_step_def mo_descriptions_list_def mo_desc_frame_empty)

theorem expand_mo_step_empty_witness:
  "get_col \<lparr>idx = [], cols = [(''Mocodes'', [])]\<rparr> ''Mocodes'' = Inr [] \<and>
   expand_mo_step \<lparr>code_col = IntCol [100, 2000], description_col = [Some ''Suspect Impersonate'', Some ''Vandalized'']\<rparr> \<lparr>idx = [], cols = [(''Mocodes'', [])]\<rparr> = Inl TypeError"
proof -
  have h: "get_col \<lparr>idx = [], cols = [(''Mocodes'', [])]\<rparr> ''Mocodes'' = Inr []"
    by (simp add: get_col_def)
  show ?thesis using h expand_mo_step_empty[OF h, of "\<lparr>code_col = IntCol [100, 2000], description_col = [Some ''Suspect Impersonate'', Some ''Vandalized'']\<rparr>"] by simp
qed

text \<open>
  C21. Codes match across the two files whatever their zero padding: a code
  \<open>n < 10000\<close> of the integer \<open>Code\<close> column, listed once, is found from the \<open>Mocodes\<close>
  token written \<open>str(n)\<close> as well as from its four-digit form, since both sides go
  through \<open>zfill(4)\<close>.
\<close>

theorem mo_code_roundtrip:
  assumes "code_col cdf = IntCol cs" and "list_all (\<lambda>x. 0 \<le> x) cs"
    and "filter (\<lambda>p. fst p = int n) (zip cs (description_col cdf)) = [(int n, d)]"
    and "n < 10000"
  shows "expand_mocodes (mo_code_mapping cdf) (Some (show_nat n)) = [d] \<and>
         expand_mocodes (mo_code_mapping cdf) (Some (fixed_digits 4 n)) = [d]"
proof -
  have m: "mo_code_mapping cdf (fixed_digits 4 n) = Some d"
    using assms by (rule mo_code_mapping_int)
  have "fixed_digits 4 n \<noteq> []"
    using fixed_digits_length[of 4 n] by (metis list.size(3) zero_neq_numeral)
  then show ?thesis
    using m assms(4) show_nat_digits[of n] fixed_digits_digits[of 4 n]
    by (simp add: expand_mocodes_digits zfill_show_nat_4 dict_get_def)
qed


theorem mo_code_roundtrip_witness:
  "code_col \<lparr>code_col = IntCol [100, 2000], description_col = [Some ''Suspect Impersonate'', Some ''Vandalized'']\<rparr> = IntCol [100, 2000] \<and> list_all (\<lambda>x. 0 \<le> x) [100 :: int, 2000] \<and>
   filter (\<lambda>p. fst p = int 100) (zip [100, 2000] (description_col \<lparr>code_col = IntCol [100, 2000], description_col = [Some ''Suspect Impersonate'', Some ''Vandalized'']\<rparr>)) =
     [(int 100, Some ''Suspect Impersonate'')] \<and> (100 :: nat) < 10000 \<and>
   expand_mocodes (mo_code_mapping \<lparr>code_col = IntCol [100, 2000], description_col = [Some ''Suspect Impersonate'', Some ''Vandalized'']\<rparr>) (Some (show_nat 100)) = [Some ''Suspect Impersonate''] \<and>
   expand_mocodes (mo_code_mapping \<lparr>code_col = IntCol [100, 2000], description_col = [Some ''Suspect Impersonate'', Some ''Vandalized'']\<rparr>) (Some (fixed_digits 4 100)) = [Some ''Suspect Impersonate'']"
proof -
  have h1: "code_col \<lparr>code_col = IntCol [100, 2000], description_col = [Some ''Suspect Impersonate'', Some ''Vandalized'']\<rparr> = IntCol [100, 2000]" by simp
  have h2: "list_all (\<lambda>x. 0 \<le> x) [100 :: int, 2000]" by simp
  have h3: "filter (\<lambda>p. fst p = int 100) (zip [100, 2000] (description_col \<lparr>code_col = IntCol [100, 2000], description_col = [Some ''Suspect Impersonate'', Some ''Vandalized'']\<rparr>)) =
     [(int 100, Some ''Suspect Impersonate'')]" by simp
  have h4: "(100 :: nat) < 10000" by simp
  show ?thesis using h1 h2 h3 h4 mo_code_roundtrip[OF h1 h2 h3 h4] by blast
qed

end
