(* ===== verification/Dates.thy ===== *)
theory Dates
  imports Frame
begin

text \<open>
  STEP 4 of the cleaning script (lines 48--55): \<open>pd.to_datetime(errors='coerce')\<close>
  of \<open>DATE OCC\<close> and \<open>Date Rptd\<close>, the weekday name and month name of the occurrence
  date, and both dates printed back as \<open>%m/%d/%Y\<close>, a value that does not parse
  giving \<open>"Unknown"\<close>. The LAPD export writes its dates as
  \<open>"MM/DD/YYYY hh:mm:ss AM"\<close>; \<open>to_datetime\<close> infers the format
  \<open>%m/%d/%Y %I:%M:%S %p\<close> from the first value and matches every value against it
  with the field patterns of \<open>_strptime\<close> (\<open>%m\<close> is \<open>1[0-2]|0[1-9]|[1-9]\<close>, \<open>%d\<close> also
  allows a leading blank, \<open>%Y\<close> is four digits, a blank of the format matches one or
  more white space characters, \<open>%p\<close> ignores case); the date must exist, and the
  instant must lie in the range of a nanosecond \<open>Timestamp\<close>, else the value is
  \<open>NaT\<close>. Day numbers are proleptic Gregorian ordinals, \<open>0001-01-01\<close> being day 1
  (as \<open>datetime.toordinal\<close>), and Monday is weekday 0.
\<close>

record timestamp =
  ts_year :: nat
  ts_month :: nat
  ts_day :: nat
  ts_hour :: nat
  ts_minute :: nat
  ts_second :: nat

subsection \<open>The calendar\<close>

definition is_leap :: "nat \<Rightarrow> bool" where
  "is_leap y = (4 dvd y \<and> (\<not> 100 dvd y \<or> 400 dvd y))"

definition days_in_month :: "nat \<Rightarrow> nat \<Rightarrow> nat" where
  "days_in_month y m =
     (if m = 2 then (if is_leap y then 29 else 28)
      else if m = 4 \<or> m = 6 \<or> m = 9 \<or> m = 11 then 30 else 31)"

definition days_before_month :: "nat \<Rightarrow> nat \<Rightarrow> nat" where
  "days_before_month y m = sum_list (map (days_in_month y) [1..<m])"

text \<open>The closed form of \<open>_days_before_year\<close>: the days of the years before \<open>y\<close>.\<close>

definition days_before_year :: "nat \<Rightarrow> nat" where
  "days_before_year y = (let z = y - 1 in 365 * z + z div 4 - z div 100 + z div 400)"

definition toordinal :: "nat \<Rightarrow> nat \<Rightarrow> nat \<Rightarrow> nat" where
  "toordinal y m d = days_before_year y + days_before_month y m + d"

definition weekday :: "nat \<Rightarrow> nat \<Rightarrow> nat \<Rightarrow> nat" where
  "weekday y m d = (toordinal y m d + 6) mod 7"

definition day_names :: "string list" where
  "day_names = [''Monday'', ''Tuesday'', ''Wednesday'', ''Thursday'', ''Friday'',
                ''Saturday'', ''Sunday'']"

definition month_names :: "string list" where
  "month_names = [''January'', ''February'', ''March'', ''April'', ''May'', ''June'', ''July'',
                  ''August'', ''September'', ''October'', ''November'', ''December'']"

text \<open>
  Seconds since the Unix epoch (day 719163), and the range of \<open>datetime64[ns]\<close>:
  the count of nanoseconds must fit a signed 64-bit integer other than the one
  reserved for \<open>NaT\<close>.
\<close>

definition epoch_seconds :: "timestamp \<Rightarrow> int" where
  "epoch_seconds t =
     (int (toordinal (ts_year t) (ts_month t) (ts_day t)) - 719163) * 86400 +
     int (ts_hour t * 3600 + ts_minute t * 60 + ts_second t)"

definition in_ns_range :: "timestamp \<Rightarrow> bool" where
  "in_ns_range t = (\<bar>epoch_seconds t * 10 ^ 9\<bar> \<le> 2 ^ 63 - 1)"

subsection \<open>Matching \<open>%m/%d/%Y %I:%M:%S %p\<close>\<close>

text \<open>The text before the first \<open>c\<close>, and the text after it.\<close>

fun split_char :: "char \<Rightarrow> string \<Rightarrow> (string \<times> string) option" where
  "split_char c [] = None"
| "split_char c (x # xs) =
     (if x = c then Some ([], xs) else map_option (\<lambda>(a, b). (x # a, b)) (split_char c xs))"

text \<open>A blank of the format: one or more white space characters (\<open>\s+\<close>).\<close>

definition skip_ws :: "string \<Rightarrow> string option" where
  "skip_ws s = (if s \<noteq> [] \<and> py_isspace (hd s) then Some (dropWhile py_isspace s) else None)"

definition digits_field :: "nat \<Rightarrow> string \<Rightarrow> bool" where
  "digits_field k s = (s \<noteq> [] \<and> length s \<le> k \<and> list_all is_digit s)"

text \<open>\<open>%m\<close> and \<open>%I\<close>: \<open>1[0-2]|0[1-9]|[1-9]\<close>.\<close>

definition re_1_12 :: "string \<Rightarrow> nat option" where
  "re_1_12 s = (if digits_field 2 s \<and> 1 \<le> digits_val s \<and> digits_val s \<le> 12
                then Some (digits_val s) else None)"

text \<open>\<open>%d\<close>: \<open>3[01]|[12]\d|0[1-9]|[1-9]| [1-9]\<close>.\<close>

definition re_day :: "string \<Rightarrow> nat option" where
  "re_day s =
     (if digits_field 2 s \<and> 1 \<le> digits_val s \<and> digits_val s \<le> 31 then Some (digits_val s)
      else if length s = 2 \<and> hd s = CHR '' '' \<and> is_digit (s ! 1) \<and> s ! 1 \<noteq> CHR ''0''
      then Some (digit_val (s ! 1)) else None)"

text \<open>\<open>%Y\<close>: \<open>\d\d\d\d\<close>.\<close>

definition re_year :: "string \<Rightarrow> nat option" where
  "re_year s = (if length s = 4 \<and> list_all is_digit s then Some (digits_val s) else None)"

text \<open>\<open>%M\<close>: \<open>[0-5]\d|\d\<close>; \<open>%S\<close>: \<open>6[0-1]|[0-5]\d|\d\<close>.\<close>

definition re_upto :: "nat \<Rightarrow> string \<Rightarrow> nat option" where
  "re_upto k s = (if digits_field 2 s \<and> digits_val s \<le> k then Some (digits_val s) else None)"

text \<open>\<open>%p\<close> in the C locale, ignoring case: \<open>True\<close> for PM.\<close>

definition re_ampm :: "string \<Rightarrow> bool option" where
  "re_ampm s = (if py_lower s = ''am'' then Some False
                else if py_lower s = ''pm'' then Some True else None)"

text \<open>
  The fields as \<open>_strptime\<close> combines them (\<open>12 AM\<close> is hour 0, \<open>12 PM\<close> hour 12),
  checked as \<open>datetime\<close> and the \<open>Timestamp\<close> range check them.
\<close>

definition mk_timestamp :: "nat \<Rightarrow> nat \<Rightarrow> nat \<Rightarrow> nat \<Rightarrow> bool \<Rightarrow> nat \<Rightarrow> nat \<Rightarrow> timestamp option" where
  "mk_timestamp y m d i pm mi sec =
     (let h = (if pm then (if i = 12 then 12 else i + 12) else (if i = 12 then 0 else i));
          t = \<lparr>ts_year = y, ts_month = m, ts_day = d, ts_hour = h, ts_minute = mi, ts_second = sec\<rparr>
      in if 1 \<le> y \<and> d \<le> days_in_month y m \<and> sec \<le> 59 \<and> in_ns_range t then Some t else None)"

definition pd_to_datetime :: "string \<Rightarrow> timestamp option" where
  "pd_to_datetime s =
     (case split_char CHR ''/'' s of None \<Rightarrow> None | Some (mt, r1) \<Rightarrow>
     (case split_char CHR ''/'' r1 of None \<Rightarrow> None | Some (dt, r2) \<Rightarrow>
     (case skip_ws (drop 4 r2) of None \<Rightarrow> None | Some r3 \<Rightarrow>
     (case split_char CHR '':'' r3 of None \<Rightarrow> None | Some (it, r4) \<Rightarrow>
     (case split_char CHR '':'' r4 of None \<Rightarrow> None | Some (mit, r5) \<Rightarrow>
     (case skip_ws (dropWhile is_digit r5) of None \<Rightarrow> None | Some pt \<Rightarrow>
     (case (re_1_12 mt, re_day dt, re_year (take 4 r2), re_1_12 it, re_upto 59 mit,
            re_upto 61 (takeWhile is_digit r5), re_ampm pt) of
        (Some m, Some d, Some y, Some i, Some mi, Some sec, Some pm) \<Rightarrow> mk_timestamp y m d i pm mi sec
      | _ \<Rightarrow> None)))))))"

subsection \<open>The step\<close>

text \<open>\<open>dt.day_name()\<close>, \<open>dt.strftime('%B')\<close> and \<open>dt.strftime('%m/%d/%Y')\<close>.\<close>

definition day_name :: "timestamp \<Rightarrow> string" where
  "day_name t = day_names ! weekday (ts_year t) (ts_month t) (ts_day t)"

definition month_name :: "timestamp \<Rightarrow> string" where
  "month_name t = month_names ! (ts_month t - 1)"

definition strftime_mdy :: "timestamp \<Rightarrow> string" where
  "strftime_mdy t =
     fixed_digits 2 (ts_month t) @ ''/'' @ fixed_digits 2 (ts_day t) @ ''/'' @ show_nat (ts_year t)"

definition to_datetime_cell :: "cell \<Rightarrow> timestamp option" where
  "to_datetime_cell c = (case c of None \<Rightarrow> None | Some s \<Rightarrow> pd_to_datetime s)"

text \<open>An accessor of the parsed column, then \<open>fillna("Unknown")\<close>.\<close>

definition dt_text :: "(timestamp \<Rightarrow> string) \<Rightarrow> cell \<Rightarrow> cell" where
  "dt_text f c = fillna ''Unknown'' (map_option f (to_datetime_cell c))"

text \<open>
  Lines 48--55. The two parsed columns are overwritten with their text at lines 54--55
  and read in between only by lines 51--52, so the model parses each value once.
\<close>

definition dates_step :: "frame \<Rightarrow> pd_error + frame" where
  "dates_step df =
     bindE (get_col df ''DATE OCC'') (\<lambda>occ.
     bindE (get_col df ''Date Rptd'') (\<lambda>rptd.
       Inr (set_col ''Date Rptd'' (map (dt_text strftime_mdy) rptd)
             (set_col ''DATE OCC'' (map (dt_text strftime_mdy) occ)
               (set_col ''Month'' (map (dt_text month_name) occ)
                 (set_col ''DayOfWeek'' (map (dt_text day_name) occ) df))))))"

subsection \<open>Reference definitions\<close>

text \<open>
  The calendar by counting: the length of a year, a valid date, the day after a date,
  and the LAPD export's text of a timestamp, \<open>%m/%d/%Y %I:%M:%S %p\<close> with zero padding.
\<close>

definition year_len :: "nat \<Rightarrow> nat" where
  "year_len y = (if is_leap y then 366 else 365)"

definition valid_date :: "nat \<Rightarrow> nat \<Rightarrow> nat \<Rightarrow> bool" where
  "valid_date y m d = (1 \<le> y \<and> 1 \<le> m \<and> m \<le> 12 \<and> 1 \<le> d \<and> d \<le> days_in_month y m)"


definition hour12 :: "nat \<Rightarrow> nat" where
  "hour12 h = (if h mod 12 = 0 then 12 else h mod 12)"

definition lapd_text :: "timestamp \<Rightarrow> string" where
  "lapd_text t =
     fixed_digits 2 (ts_month t) @ ''/'' @ fixed_digits 2 (ts_day t) @ ''/'' @
     fixed_digits 4 (ts_year t) @ '' '' @ fixed_digits 2 (hour12 (ts_hour t)) @ '':'' @
     fixed_digits 2 (ts_minute t) @ '':'' @ fixed_digits 2 (ts_second t) @
     (if ts_hour t < 12 then '' AM'' else '' PM'')"

definition valid_fields :: "timestamp \<Rightarrow> bool" where
  "valid_fields t =
     (valid_date (ts_year t) (ts_month t) (ts_day t) \<and> ts_hour t < 24 \<and> ts_minute t < 60 \<and>
      ts_second t < 60 \<and> ts_year t < 10000)"

section \<open>Lemmas\<close>

subsection \<open>The calendar\<close>

lemma days_in_month_le: "days_in_month y m \<le> 31"
  by (simp add: days_in_month_def)

lemma div_Suc_dvd: "0 < k \<Longrightarrow> Suc z div k = z div k + (if k dvd Suc z then 1 else 0)"
  by (simp add: div_Suc dvd_eq_mod_eq_0 mod_Suc)

lemma days_before_year_int:
  "int (days_before_year (Suc z)) = 365 * int z + int (z div 4) - int (z div 100) + int (z div 400)"
proof -
  have "z div 100 \<le> z div 4" by (simp add: div_le_mono2)
  then show ?thesis by (simp add: days_before_year_def)
qed

lemma days_before_year_Suc:
  "days_before_year (Suc (Suc z)) = days_before_year (Suc z) + year_len (Suc z)"
proof -
  have d4: "Suc z div 4 = z div 4 + (if 4 dvd Suc z then 1 else 0)" by (rule div_Suc_dvd) simp
  have d100: "Suc z div 100 = z div 100 + (if 100 dvd Suc z then 1 else 0)" by (rule div_Suc_dvd) simp
  have d400: "Suc z div 400 = z div 400 + (if 400 dvd Suc z then 1 else 0)" by (rule div_Suc_dvd) simp
  have i1: "100 dvd Suc z \<Longrightarrow> 4 dvd Suc z" by (rule dvd_trans[of 4 100]) simp_all
  have i2: "400 dvd Suc z \<Longrightarrow> 100 dvd Suc z" by (rule dvd_trans[of 100 400]) simp_all
  have "int (days_before_year (Suc (Suc z))) = int (days_before_year (Suc z)) + int (year_len (Suc z))"
    unfolding days_before_year_int d4 d100 d400 year_len_def is_leap_def
    using i1 i2 by (cases "4 dvd Suc z"; cases "100 dvd Suc z"; cases "400 dvd Suc z") simp_all
  then show ?thesis by linarith
qed




subsection \<open>Matching the export's text\<close>

lemma split_char_append: "c \<notin> set xs \<Longrightarrow> split_char c (xs @ c # ys) = Some (xs, ys)"
  by (induction xs) auto

lemma fixed_digits_ne: "0 < k \<Longrightarrow> fixed_digits k n \<noteq> []"
  by (metis fixed_digits_length length_0_conv neq0_conv)

lemma fixed_digits_char: "c \<in> set (fixed_digits k n) \<Longrightarrow> is_digit c"
  using fixed_digits_digits[of k n] by (simp add: list_all_iff)

lemma not_digit_sep [simp]:
  "\<not> is_digit CHR ''/''" "\<not> is_digit CHR '':''" "\<not> is_digit CHR '' ''"
  "\<not> is_digit CHR ''A''" "\<not> is_digit CHR ''P''"
  by (simp_all add: is_digit_def)

lemma sep_not_in_fixed_digits [simp]:
  "CHR ''/'' \<notin> set (fixed_digits k n)" "CHR '':'' \<notin> set (fixed_digits k n)"
  using fixed_digits_char not_digit_sep by blast+

lemma dropWhile_fixed_digits:
  assumes "0 < k" and "\<And>c. is_digit c \<Longrightarrow> \<not> P c"
  shows "dropWhile P (fixed_digits k n @ ys) = fixed_digits k n @ ys"
proof -
  obtain c cs where "fixed_digits k n = c # cs" using fixed_digits_ne[OF assms(1)] by (cases "fixed_digits k n") auto
  moreover from this have "is_digit c" using fixed_digits_char by (metis list.set_intros(1))
  ultimately show ?thesis using assms(2) by simp
qed

lemma skip_ws_blank_digits:
  "0 < k \<Longrightarrow> skip_ws (CHR '' '' # fixed_digits k n @ ys) = Some (fixed_digits k n @ ys)"
proof -
  assume "0 < k"
  then have "dropWhile py_isspace (fixed_digits k n @ ys) = fixed_digits k n @ ys"
    by (rule dropWhile_fixed_digits) simp
  then show ?thesis by (simp add: skip_ws_def py_isspace_def)
qed

lemma skip_ws_ampm [simp]:
  "skip_ws '' AM'' = Some ''AM''" "skip_ws '' PM'' = Some ''PM''"
  by (simp_all add: skip_ws_def py_isspace_def)

lemma re_ampm_AM [simp]: "re_ampm ''AM'' = Some False"
  by code_simp

lemma re_ampm_PM [simp]: "re_ampm ''PM'' = Some True"
  by code_simp

lemma digits_field_fixed: "0 < k \<Longrightarrow> k \<le> j \<Longrightarrow> digits_field j (fixed_digits k n)"
  by (simp add: digits_field_def fixed_digits_ne fixed_digits_digits)

lemma digits_val_fixed: "n < 10 ^ k \<Longrightarrow> digits_val (fixed_digits k n) = n"
  by (simp add: fixed_digits_val)

lemma re_1_12_fixed: "1 \<le> n \<Longrightarrow> n \<le> 12 \<Longrightarrow> re_1_12 (fixed_digits 2 n) = Some n"
  by (simp add: re_1_12_def digits_field_fixed digits_val_fixed)

lemma re_day_fixed: "1 \<le> n \<Longrightarrow> n \<le> 31 \<Longrightarrow> re_day (fixed_digits 2 n) = Some n"
  by (simp add: re_day_def digits_field_fixed digits_val_fixed)

lemma re_year_fixed: "n < 10000 \<Longrightarrow> re_year (fixed_digits 4 n) = Some n"
  by (simp add: re_year_def fixed_digits_digits digits_val_fixed)

lemma re_upto_fixed: "n \<le> k \<Longrightarrow> n < 100 \<Longrightarrow> re_upto k (fixed_digits 2 n) = Some n"
  by (simp add: re_upto_def digits_field_fixed digits_val_fixed)

lemma takeWhile_fixed_digits:
  "takeWhile is_digit (fixed_digits k n @ CHR '' '' # ys) = fixed_digits k n"
  by (simp add: fixed_digits_char)

lemma dropWhile_digits_fixed:
  "dropWhile is_digit (fixed_digits k n @ CHR '' '' # ys) = CHR '' '' # ys"
  by (simp add: fixed_digits_char)

lemma hour12_range: "1 \<le> hour12 h \<and> hour12 h \<le> 12"
  by (simp add: hour12_def)

lemma mk_timestamp_hour12:
  assumes "valid_fields t"
  shows "mk_timestamp (ts_year t) (ts_month t) (ts_day t) (hour12 (ts_hour t)) (\<not> ts_hour t < 12)
           (ts_minute t) (ts_second t) = (if in_ns_range t then Some t else None)"
proof -
  obtain y m d h mi sec where t: "t = \<lparr>ts_year = y, ts_month = m, ts_day = d, ts_hour = h,
                                        ts_minute = mi, ts_second = sec\<rparr>"
    by (cases t) simp
  have h24: "h < 24" using assms by (simp add: t valid_fields_def)
  have "h mod 12 = h - 12" if "\<not> h < 12"
  proof -
    have "h mod 12 = (h - 12) mod 12" using that by (simp add: le_mod_geq)
    also have "\<dots> = h - 12" using h24 by (intro mod_less) linarith
    finally show ?thesis .
  qed
  then have "(if \<not> h < 12 then (if hour12 h = 12 then 12 else hour12 h + 12)
              else (if hour12 h = 12 then 0 else hour12 h)) = h"
    by (auto simp: hour12_def)
  with assms show ?thesis by (simp add: t mk_timestamp_def valid_fields_def valid_date_def Let_def)
qed

lemma pd_to_datetime_lapd_text:
  assumes "valid_fields t"
  shows "pd_to_datetime (lapd_text t) = (if in_ns_range t then Some t else None)"
proof -
  have b: "1 \<le> ts_month t" "ts_month t \<le> 12" "1 \<le> ts_day t" "ts_day t \<le> 31"
    "ts_year t < 10000" "ts_minute t < 60" "ts_second t < 60"
    using assms days_in_month_le[of "ts_year t" "ts_month t"]
    by (auto simp: valid_fields_def valid_date_def)
  have "1 \<le> hour12 (ts_hour t)" "hour12 (ts_hour t) \<le> 12" using hour12_range by simp_all
  with b show ?thesis
    using mk_timestamp_hour12[OF assms]
    by (cases "ts_hour t < 12")
       (simp_all add: lapd_text_def pd_to_datetime_def split_char_append skip_ws_blank_digits
          takeWhile_fixed_digits dropWhile_digits_fixed re_1_12_fixed re_day_fixed re_year_fixed
          re_upto_fixed)
qed

subsection \<open>What a parsed value satisfies\<close>

lemma re_1_12_Some: "re_1_12 s = Some n \<Longrightarrow> 1 \<le> n \<and> n \<le> 12"
  by (simp add: re_1_12_def split: if_splits)

lemma digit_val_pos: "is_digit c \<Longrightarrow> c \<noteq> CHR ''0'' \<Longrightarrow> 1 \<le> digit_val c"
proof -
  assume "is_digit c" "c \<noteq> CHR ''0''"
  have "of_char c \<noteq> (48 :: nat)"
  proof
    assume "of_char c = (48 :: nat)"
    then have "c = char_of (48 :: nat)" by (metis char_of_char)
    with \<open>c \<noteq> CHR ''0''\<close> show False using digit_char_0 by (simp add: digit_char_def)
  qed
  with \<open>is_digit c\<close> have "49 \<le> (of_char c :: nat)" by (simp add: is_digit_def Let_def)
  then show ?thesis by (simp add: digit_val_def)
qed

lemma re_day_Some: "re_day s = Some n \<Longrightarrow> 1 \<le> n"
  using digit_val_pos[of "s ! 1"] by (auto simp: re_day_def split: if_splits)

lemma re_upto_Some: "re_upto k s = Some n \<Longrightarrow> n \<le> k"
  by (simp add: re_upto_def split: if_splits)

lemma mk_timestamp_Some:
  assumes "mk_timestamp y m d i pm mi sec = Some t"
    and "1 \<le> m" "m \<le> 12" "1 \<le> d" "1 \<le> i" "i \<le> 12" "mi \<le> 59"
  shows "valid_date (ts_year t) (ts_month t) (ts_day t) \<and> ts_hour t < 24 \<and> ts_minute t < 60 \<and>
         ts_second t < 60 \<and> in_ns_range t"
  using assms by (auto simp: mk_timestamp_def valid_date_def Let_def split: if_splits)

lemma pd_to_datetime_SomeD:
  assumes "pd_to_datetime s = Some t"
  shows "\<exists>y m d i pm mi sec. 1 \<le> m \<and> m \<le> 12 \<and> 1 \<le> d \<and> 1 \<le> i \<and> i \<le> 12 \<and> mi \<le> 59 \<and>
           mk_timestamp y m d i pm mi sec = Some t"
  using assms
  by (auto simp: pd_to_datetime_def split: option.splits prod.splits
           dest!: re_1_12_Some re_day_Some re_upto_Some) blast

lemma dates_step_Inr:
  "get_col df ''DATE OCC'' = Inr occ \<Longrightarrow> get_col df ''Date Rptd'' = Inr rptd \<Longrightarrow>
   dates_step df = Inr (set_col ''Date Rptd'' (map (dt_text strftime_mdy) rptd)
             (set_col ''DATE OCC'' (map (dt_text strftime_mdy) occ)
               (set_col ''Month'' (map (dt_text month_name) occ)
                 (set_col ''DayOfWeek'' (map (dt_text day_name) occ) df))))"
  by (simp add: dates_step_def)

lemma dt_text_cases: "dt_text f c = Some ''Unknown'' \<or> (\<exists>t. to_datetime_cell c = Some t \<and> dt_text f c = Some (f t))"
  by (cases "to_datetime_cell c") (simp_all add: dt_text_def fillna_def)

lemma weekday_lt: "weekday y m d < 7"
  by (simp add: weekday_def)

lemma day_name_mem: "day_name t \<in> set day_names"
proof -
  have "length day_names = 7" by (simp add: day_names_def)
  then show ?thesis unfolding day_name_def using weekday_lt by (intro nth_mem) simp
qed

lemma month_name_mem: "1 \<le> ts_month t \<Longrightarrow> ts_month t \<le> 12 \<Longrightarrow> month_name t \<in> set month_names"
  unfolding month_name_def by (rule nth_mem) (simp add: month_names_def)

lemma pd_to_datetime_month:
  "pd_to_datetime s = Some t \<Longrightarrow> 1 \<le> ts_month t \<and> ts_month t \<le> 12"
  using pd_to_datetime_SomeD mk_timestamp_Some by (fastforce simp: valid_date_def)

lemmas pd_to_datetime_eval = pd_to_datetime_def skip_ws_def re_1_12_def re_day_def re_year_def
  re_upto_def digits_field_def is_digit_def digit_val_def digits_val_def py_isspace_def
  mk_timestamp_def days_in_month_def is_leap_def in_ns_range_def epoch_seconds_def toordinal_def
  days_before_year_def days_before_month_def

section \<open>Properties of STEP 4\<close>

text \<open>
  The closed form of the days before a year, the one \<open>_days_before_year\<close> uses,
  equals the count of the days of all earlier years, 366 for a leap year and 365
  otherwise.
\<close>

theorem days_before_year_sum: "days_before_year y = sum_list (map year_len [1..<y])"
proof (induction y)
  case 0
  then show ?case by (simp add: days_before_year_def)
next
  case (Suc y)
  show ?case
  proof (cases "y = 0")
    case True
    then show ?thesis by (simp add: days_before_year_def)
  next
    case False
    then obtain z where "y = Suc z" by (cases y) auto
    then show ?thesis using Suc by (simp add: days_before_year_Suc)
  qed
qed



text \<open>
  C12. STEP 4 prints back the date of every value in the export's format: for a valid
  timestamp in the \<open>Timestamp\<close> range with a four-digit year, the new \<open>DATE OCC\<close> text
  is the first ten characters, \<open>MM/DD/YYYY\<close>, of the original.
\<close>

theorem dates_text_roundtrip:
  assumes "valid_fields t" and "in_ns_range t" and "1000 \<le> ts_year t"
  shows "dt_text strftime_mdy (Some (lapd_text t)) = Some (take 10 (lapd_text t))"
proof -
  have "show_nat (ts_year t) = fixed_digits 4 (ts_year t)"
    using assms(1,3) by (intro show_nat_fixed) (simp_all add: valid_fields_def)
  then show ?thesis
    using pd_to_datetime_lapd_text[OF assms(1)] assms(2)
    by (simp add: dt_text_def to_datetime_cell_def fillna_def strftime_mdy_def lapd_text_def)
qed

theorem dates_text_roundtrip_witness:
  "valid_fields \<lparr>ts_year = 2020, ts_month = 1, ts_day = 8, ts_hour = 13, ts_minute = 45, ts_second = 0\<rparr> \<and> in_ns_range \<lparr>ts_year = 2020, ts_month = 1, ts_day = 8, ts_hour = 13, ts_minute = 45, ts_second = 0\<rparr> \<and> 1000 \<le> ts_year \<lparr>ts_year = 2020, ts_month = 1, ts_day = 8, ts_hour = 13, ts_minute = 45, ts_second = 0\<rparr> \<and>
   dt_text strftime_mdy (Some (lapd_text \<lparr>ts_year = 2020, ts_month = 1, ts_day = 8, ts_hour = 13, ts_minute = 45, ts_second = 0\<rparr>)) = Some (take 10 (lapd_text \<lparr>ts_year = 2020, ts_month = 1, ts_day = 8, ts_hour = 13, ts_minute = 45, ts_second = 0\<rparr>))"
proof -
  have h1: "valid_fields \<lparr>ts_year = 2020, ts_month = 1, ts_day = 8, ts_hour = 13, ts_minute = 45, ts_second = 0\<rparr>" by (simp add: valid_fields_def valid_date_def days_in_month_def)
  have h2: "in_ns_range \<lparr>ts_year = 2020, ts_month = 1, ts_day = 8, ts_hour = 13, ts_minute = 45, ts_second = 0\<rparr>"
    by (simp add: in_ns_range_def epoch_seconds_def toordinal_def days_before_year_def
                  days_before_month_def)
  have h3: "1000 \<le> ts_year \<lparr>ts_year = 2020, ts_month = 1, ts_day = 8, ts_hour = 13, ts_minute = 45, ts_second = 0\<rparr>" by simp
  show ?thesis using h1 h2 h3 dates_text_roundtrip[OF h1 h2 h3] by blast
qed

text \<open>
  C14. An existing date whose instant lies outside the nanosecond range of a
  \<open>Timestamp\<close> (before 21 September 1677 or after 11 April 2262) is coerced to
  \<open>NaT\<close>, so its weekday, month and date texts are all \<open>"Unknown"\<close>.
\<close>

theorem dates_out_of_range:
  assumes "valid_fields t" and "\<not> in_ns_range t"
  shows "dt_text f (Some (lapd_text t)) = Some ''Unknown''"
  using pd_to_datetime_lapd_text[OF assms(1)] assms(2)
  by (simp add: dt_text_def to_datetime_cell_def fillna_def)

theorem dates_out_of_range_witness:
  "valid_fields \<lparr>ts_year = 2300, ts_month = 1, ts_day = 1, ts_hour = 0, ts_minute = 0, ts_second = 0\<rparr> \<and> \<not> in_ns_range \<lparr>ts_year = 2300, ts_month = 1, ts_day = 1, ts_hour = 0, ts_minute = 0, ts_second = 0\<rparr> \<and>
   dt_text day_name (Some (lapd_text \<lparr>ts_year = 2300, ts_month = 1, ts_day = 1, ts_hour = 0, ts_minute = 0, ts_second = 0\<rparr>)) = Some ''Unknown''"
proof -
  have h1: "valid_fields \<lparr>ts_year = 2300, ts_month = 1, ts_day = 1, ts_hour = 0, ts_minute = 0, ts_second = 0\<rparr>" by (simp add: valid_fields_def valid_date_def days_in_month_def)
  have h2: "\<not> in_ns_range \<lparr>ts_year = 2300, ts_month = 1, ts_day = 1, ts_hour = 0, ts_minute = 0, ts_second = 0\<rparr>"
    by (simp add: in_ns_range_def epoch_seconds_def toordinal_def days_before_year_def
                  days_before_month_def)
  show ?thesis using h1 h2 dates_out_of_range[OF h1 h2, of day_name] by blast
qed

text \<open>
  STEP 4 adds a \<open>DayOfWeek\<close> and a \<open>Month\<close> column computed from \<open>DATE OCC\<close>,
  whose texts are weekday names, month names or \<open>"Unknown"\<close>, and keeps the table
  well formed.
\<close>

theorem dates_step_columns:
  assumes "frame_wf df" and "get_col df ''DATE OCC'' = Inr occ" and "get_col df ''Date Rptd'' = Inr rptd"
  shows "\<exists>df'. dates_step df = Inr df' \<and> frame_wf df' \<and>
           get_col df' ''DayOfWeek'' = Inr (map (dt_text day_name) occ) \<and>
           get_col df' ''Month'' = Inr (map (dt_text month_name) occ) \<and>
           set (map (dt_text day_name) occ) \<subseteq> Some ` insert ''Unknown'' (set day_names) \<and>
           set (map (dt_text month_name) occ) \<subseteq> Some ` insert ''Unknown'' (set month_names)"
proof -
  have lo: "length occ = n_rows df" and lr: "length rptd = n_rows df"
    using frame_wf_col_length assms by blast+
  have wf: "frame_wf (set_col ''Date Rptd'' (map (dt_text strftime_mdy) rptd)
             (set_col ''DATE OCC'' (map (dt_text strftime_mdy) occ)
               (set_col ''Month'' (map (dt_text month_name) occ)
                 (set_col ''DayOfWeek'' (map (dt_text day_name) occ) df))))"
    using assms(1) lo lr by (simp add: frame_wf_set_col)
  have d: "dt_text day_name c \<in> Some ` insert ''Unknown'' (set day_names)" for c
    using dt_text_cases[of day_name c] day_name_mem by auto
  have m: "dt_text month_name c \<in> Some ` insert ''Unknown'' (set month_names)" for c
    using dt_text_cases[of month_name c]
    by (auto simp: to_datetime_cell_def month_name_mem dest!: pd_to_datetime_month
             split: option.splits)
  show ?thesis using wf d m dates_step_Inr[OF assms(2,3)] by auto
qed

theorem dates_step_columns_witness:
  "frame_wf \<lparr>idx = [0], cols = [(''DATE OCC'', [Some ''01/08/2020 12:00:00 AM'']), (''Date Rptd'', [Some ''Unknown''])]\<rparr> \<and> get_col \<lparr>idx = [0], cols = [(''DATE OCC'', [Some ''01/08/2020 12:00:00 AM'']), (''Date Rptd'', [Some ''Unknown''])]\<rparr> ''DATE OCC'' = Inr [Some ''01/08/2020 12:00:00 AM''] \<and>
   get_col \<lparr>idx = [0], cols = [(''DATE OCC'', [Some ''01/08/2020 12:00:00 AM'']), (''Date Rptd'', [Some ''Unknown''])]\<rparr> ''Date Rptd'' = Inr [Some ''Unknown''] \<and>
   (\<exists>df'. dates_step \<lparr>idx = [0], cols = [(''DATE OCC'', [Some ''01/08/2020 12:00:00 AM'']), (''Date Rptd'', [Some ''Unknown''])]\<rparr> = Inr df' \<and> frame_wf df' \<and>
      get_col df' ''DayOfWeek'' = Inr (map (dt_text day_name) [Some ''01/08/2020 12:00:00 AM'']))"
proof -
  have wf: "frame_wf \<lparr>idx = [0], cols = [(''DATE OCC'', [Some ''01/08/2020 12:00:00 AM'']), (''Date Rptd'', [Some ''Unknown''])]\<rparr>" by (simp add: frame_wf_def col_names_def n_rows_def)
  have o: "get_col \<lparr>idx = [0], cols = [(''DATE OCC'', [Some ''01/08/2020 12:00:00 AM'']), (''Date Rptd'', [Some ''Unknown''])]\<rparr> ''DATE OCC'' = Inr [Some ''01/08/2020 12:00:00 AM'']" by (simp add: get_col_def)
  have r: "get_col \<lparr>idx = [0], cols = [(''DATE OCC'', [Some ''01/08/2020 12:00:00 AM'']), (''Date Rptd'', [Some ''Unknown''])]\<rparr> ''Date Rptd'' = Inr [Some ''Unknown'']" by (simp add: get_col_def)
  show ?thesis using wf o r dates_step_columns[OF wf o r] by blast
qed

end
