(* ===== verification/Counts.thy ===== *)
theory Counts
  imports Frame "HOL-Library.Multiset"
begin

text \<open>
  \<open>Series.value_counts()\<close>, which every consumer of the canonical table uses (the
  printed summaries of the cleaning script, the crime map, the exploratory charts):
  the distinct values with the number of rows holding each, most frequent first.
  pandas counts in order of first appearance and then sorts by count; the order
  among equal counts is not specified by pandas, and the model keeps the order of
  first appearance (a stable sort), which no property below depends on. Missing
  values are left out (\<open>dropna=True\<close>) unless \<open>dropna=False\<close> is passed.
\<close>

definition value_counts :: "'a list \<Rightarrow> ('a \<times> nat) list" where
  "value_counts xs = sort_key (\<lambda>p. - int (snd p)) (map (\<lambda>k. (k, count_list xs k)) (remdups xs))"

text \<open>The present values of a column: \<open>dropna=True\<close>.\<close>

definition present :: "cell list \<Rightarrow> string list" where
  "present xs = List.map_filter id xs"

text \<open>\<open>value_counts().head(k).index\<close>: the \<open>k\<close> most frequent values.\<close>

definition top_values :: "nat \<Rightarrow> 'a list \<Rightarrow> 'a list" where
  "top_values k xs = map fst (take k (value_counts xs))"

section \<open>Lemmas\<close>

lemma set_value_counts:
  "set (value_counts xs) = (\<lambda>k. (k, count_list xs k)) ` set xs"
  by (auto simp: value_counts_def)

lemma mset_value_counts:
  "mset (value_counts xs) = mset (map (\<lambda>k. (k, count_list xs k)) (remdups xs))"
  by (simp add: value_counts_def)

lemma map_fst_pairs [simp]: "map fst (map (\<lambda>k. (k, f k)) ys) = ys"
  by (induction ys) auto

lemma distinct_value_counts_keys: "distinct (map fst (value_counts xs))"
proof -
  have "mset (map fst (value_counts xs)) = image_mset fst (mset (value_counts xs))"
    by (rule mset_map)
  also have "\<dots> = mset (map fst (map (\<lambda>k. (k, count_list xs k)) (remdups xs)))"
    by (simp only: mset_value_counts mset_map)
  finally have "mset (map fst (value_counts xs)) = mset (remdups xs)" by (simp add: comp_def)
  then show ?thesis by (metis distinct_remdups mset_eq_imp_distinct_iff)
qed

lemma sum_count_list_remdups: "sum_list (map (count_list xs) (remdups xs)) = length xs"
proof -
  have "sum_list (map (count_list xs) (remdups xs)) = (\<Sum>k\<in>set xs. count_list xs k)"
    by (simp add: sum_list_distinct_conv_sum_set)
  also have "\<dots> = sum_list (map (\<lambda>_. 1 :: nat) xs)"
    by (simp add: sum_list_map_eq_sum_count)
  also have "\<dots> = length xs" by (simp add: sum_list_triv)
  finally show ?thesis .
qed

lemma sum_value_counts: "sum_list (map snd (value_counts xs)) = length xs"
proof -
  have "sum_list (map snd (value_counts xs)) = sum_mset (image_mset snd (mset (value_counts xs)))"
    by (simp flip: sum_mset_sum_list)
  also have "\<dots> = sum_list (map snd (map (\<lambda>k. (k, count_list xs k)) (remdups xs)))"
    by (simp only: mset_value_counts flip: mset_map sum_mset_sum_list)
  also have "\<dots> = length xs" by (simp add: comp_def sum_count_list_remdups)
  finally show ?thesis .
qed

lemma sorted_value_counts: "sorted_wrt (\<ge>) (map snd (value_counts xs))"
proof -
  have "sorted (map (\<lambda>p. - int (snd p)) (value_counts xs))"
    by (simp add: value_counts_def)
  then have "sorted_wrt (\<lambda>a b. - int (snd a) \<le> - int (snd b)) (value_counts xs)"
    by (simp add: sorted_map)
  then show ?thesis by (simp add: sorted_wrt_map)
qed

lemma map_of_value_counts:
  "map_of (value_counts xs) k = (if k \<in> set xs then Some (count_list xs k) else None)"
proof (cases "k \<in> set xs")
  case True
  then have "(k, count_list xs k) \<in> set (value_counts xs)" by (simp add: set_value_counts)
  with True show ?thesis by (simp add: map_of_is_SomeI[OF distinct_value_counts_keys])
next
  case False
  then show ?thesis by (auto simp: map_of_eq_None_iff set_value_counts)
qed

lemma distinct_keys_sort_key:
  assumes "distinct (map fst vs)"
  shows "distinct (map fst (sort_key g vs))"
proof -
  have "mset (map fst (sort_key g vs)) = mset (map fst vs)" by (simp only: mset_map mset_sort)
  then show ?thesis using assms mset_eq_imp_distinct_iff by blast
qed

lemma map_of_sort_key:
  "distinct (map fst vs) \<Longrightarrow> map_of (sort_key g vs) = map_of vs"
  by (simp add: map_of_inject_set distinct_keys_sort_key)

text \<open>\<open>value_counts().sort_index()\<close>: the distinct values in increasing order.\<close>

lemma keys_sort_index:
  fixes xs :: "'a :: linorder list"
  shows "map fst (sort_key fst (value_counts xs)) = sorted_list_of_set (set xs)"
proof -
  let ?l = "map fst (sort_key fst (value_counts xs))"
  have d: "distinct ?l" by (rule distinct_keys_sort_key[OF distinct_value_counts_keys])
  have s: "set ?l = set xs" by (auto simp: set_value_counts image_image)
  have "sorted ?l" by simp
  with d have "sorted_wrt (<) ?l" by (simp add: strict_sorted_iff)
  moreover have "length ?l = card (set xs)" using distinct_card[OF d] s by simp
  ultimately show ?thesis using s sorted_list_of_set_unique[of "set xs" ?l] by simp
qed

lemma length_map_filter: "length (List.map_filter f xs) = length (filter (\<lambda>x. f x \<noteq> None) xs)"
  by (induction xs) (auto split: option.splits)

lemma count_list_map_filter:
  "count_list (List.map_filter f xs) y = length (filter (\<lambda>x. f x = Some y) xs)"
  by (induction xs) (auto split: option.splits)

lemma set_map_filter_eq: "set (List.map_filter f xs) = {y. \<exists>x\<in>set xs. f x = Some y}"
  by (induction xs) (auto split: option.splits)

lemma length_value_counts: "length (value_counts xs) = card (set xs)"
  by (simp add: value_counts_def length_remdups_card_conv)

lemma value_counts_top:
  assumes "v \<in> set xs" and "v \<notin> fst ` set (take k (value_counts xs))" and "p \<in> set (take k (value_counts xs))"
  shows "count_list xs v \<le> snd p"
proof -
  let ?vs = "value_counts xs"
  have "(v, count_list xs v) \<in> set ?vs" using assms(1) by (simp add: set_value_counts)
  moreover have "(v, count_list xs v) \<notin> set (take k ?vs)" using assms(2) by force
  ultimately have d: "(v, count_list xs v) \<in> set (drop k ?vs)"
    by (metis UnE append_take_drop_id set_append)
  have "sorted_wrt (\<ge>) (map snd (take k ?vs) @ map snd (drop k ?vs))"
    using sorted_value_counts[of xs] by (simp flip: map_append)
  then have a: "\<forall>x\<in>set (take k ?vs). \<forall>y\<in>set (drop k ?vs). snd y \<le> snd x"
    by (simp add: sorted_wrt_append)
  have "snd (v, count_list xs v) \<le> snd p" using a assms(3) d by blast
  then show ?thesis by simp
qed

end
