(* ===== verification/CrimeMap.thy ===== *)
theory CrimeMap
  imports Counts "HOL-Library.Char_ord" "HOL-Library.List_Lexorder"
begin

text \<open>
  \<open>Crime Map.py\<close>, steps 3 and 4 (lines 26--55), on the canonical table read back
  from the pickle: \<open>AREA\<close> as text, a dict from each \<open>AREA\<close> to its \<open>AREA NAME\<close>
  (the last name written for a code wins), the new column \<open>Division_Name\<close>, the
  printed list of divisions sorted by \<open>AREA\<close>, the crimes per division
  (\<open>value_counts\<close>), both division names normalised by \<open>strip\<close> and \<open>lower\<close>, and the
  left merge of the counts into the division boundaries with missing counts filled
  by 0. The boundaries file is modelled by its \<open>APREC\<close> column (the geometry is only
  carried along); the merged table by its \<open>APREC\<close>, \<open>Division_Name\<close> and
  \<open>Crime Count\<close> columns. Of steps 5 and 6 the data the map shows is modelled: the
  choropleth's colour value per division and the tooltips; the drawing is not.
\<close>

text \<open>Line 29: \<open>dict(zip(crime_df['AREA'], crime_df['AREA NAME']))\<close>.\<close>

definition area_mapping :: "string list \<Rightarrow> cell list \<Rightarrow> string \<rightharpoonup> cell" where
  "area_mapping a n = py_dict (zip a n)"

text \<open>Line 32: \<open>crime_df['AREA'].map(area_mapping)\<close>.\<close>

definition map_division :: "(string \<rightharpoonup> cell) \<Rightarrow> string \<Rightarrow> cell" where
  "map_division m a = (case m a of None \<Rightarrow> None | Some v \<Rightarrow> v)"

text \<open>Lines 26--32 on the table.\<close>

definition prepare_crime :: "frame \<Rightarrow> pd_error + frame" where
  "prepare_crime df =
     bindE (get_col df ''AREA'') (\<lambda>a0.
     bindE (get_col df ''AREA NAME'') (\<lambda>n.
       (let a = map cell_str a0 in
        Inr (set_col ''Division_Name'' (map (map_division (area_mapping a n)) a)
              (set_col ''AREA'' (map Some a) df)))))"

text \<open>
  Line 35: \<open>drop_duplicates()\<close> of the pairs, then \<open>sort_values('AREA')\<close>, comparing
  the codes as text.
\<close>

definition unique_divisions :: "string list \<Rightarrow> cell list \<Rightarrow> (string \<times> cell) list" where
  "unique_divisions a d = sort_key fst (remdups (zip a d))"

text \<open>Lines 48--49: \<open>.astype(str).str.strip().str.lower()\<close>.\<close>

definition norm_name :: "cell \<Rightarrow> string" where
  "norm_name x = py_lower (py_strip (cell_str x))"

text \<open>
  Line 52: \<open>merge(how='left')\<close>: every left row, in order, once per matching right row,
  or once with missing right columns when nothing matches.
\<close>

definition merge_left :: "string list \<Rightarrow> (string \<times> nat) list \<Rightarrow> (string \<times> string option \<times> nat option) list" where
  "merge_left ks rs =
     concat (map (\<lambda>k. case filter (\<lambda>r. fst r = k) rs of
                        [] \<Rightarrow> [(k, None, None)]
                      | ms \<Rightarrow> map (\<lambda>r. (k, Some (fst r), Some (snd r))) ms) ks)"

text \<open>Lines 41--55: counts, normalisation, merge and \<open>fillna(0)\<close>.\<close>

definition division_counts :: "cell list \<Rightarrow> cell list \<Rightarrow> (string \<times> string option \<times> nat) list" where
  "division_counts aprec names =
     map (\<lambda>(k, d, c). (k, d, case c of None \<Rightarrow> 0 | Some v \<Rightarrow> v))
       (merge_left (map norm_name aprec)
          (map (\<lambda>(n, c). (norm_name (Some n), c)) (value_counts (present names))))"

definition crime_map_step :: "frame \<Rightarrow> cell list \<Rightarrow> pd_error + (string \<times> string option \<times> nat) list" where
  "crime_map_step df aprec =
     bindE (prepare_crime df) (\<lambda>df'.
     bindE (get_col df' ''Division_Name'') (\<lambda>names. Inr (division_counts aprec names)))"

text \<open>
  Lines 66--75: the \<open>Choropleth\<close> layer colours each division by
  \<open>merged_gdf.set_index('APREC')['Crime Count'].to_dict()\<close>, a dict in which the
  last row of a repeated \<open>APREC\<close> wins.
\<close>

definition choropleth_data :: "(string \<times> string option \<times> nat) list \<Rightarrow> string \<rightharpoonup> nat" where
  "choropleth_data merged = py_dict (map (\<lambda>(k, d, c). (k, c)) merged)"

text \<open>Lines 78--87: the tooltip of every row of the merged table, division and count.\<close>

definition tooltip_rows :: "(string \<times> string option \<times> nat) list \<Rightarrow> (string \<times> nat) list" where
  "tooltip_rows merged = map (\<lambda>(k, d, c). (k, c)) merged"

section \<open>Lemmas\<close>

lemma filter_distinct_key:
  "distinct (map fst rs) \<Longrightarrow>
   filter (\<lambda>r. fst r = k) rs = (case map_of rs k of None \<Rightarrow> [] | Some v \<Rightarrow> [(k, v)])"
proof (induction rs)
  case (Cons r rs)
  obtain a b where r: "r = (a, b)" by (cases r)
  show ?case
  proof (cases "a = k")
    case True
    with Cons.prems r have "filter (\<lambda>r. fst r = k) rs = []"
      by (auto simp: filter_empty_conv)
    with True r show ?thesis by simp
  next
    case False
    with Cons r show ?thesis by simp
  qed
qed simp

lemma merge_left_distinct:
  "distinct (map fst rs) \<Longrightarrow>
   merge_left ks rs = map (\<lambda>k. case map_of rs k of None \<Rightarrow> (k, None, None)
                                              | Some v \<Rightarrow> (k, Some k, Some v)) ks"
  by (induction ks) (auto simp: merge_left_def filter_distinct_key split: option.splits)

lemma distinct_normalised:
  assumes "inj_on f (set ns)"
  shows "distinct (map fst (map (\<lambda>(n, c). (f n, c)) (value_counts ns)))"
proof -
  have keys: "map fst (map (\<lambda>(n, c). (f n, c)) (value_counts ns)) = map f (map fst (value_counts ns))"
    by (induction "value_counts ns") auto
  have "set (map fst (value_counts ns)) = set ns" by (auto simp: set_value_counts image_image)
  then show ?thesis
    using assms distinct_value_counts_keys[of ns] by (simp only: keys distinct_map)
qed

lemma map_of_normalised:
  assumes "inj_on f (set ns)"
  shows "map_of (map (\<lambda>(n, c). (f n, c)) (value_counts ns)) k =
           (if k \<in> f ` set ns then Some (length (filter (\<lambda>n. f n = k) ns)) else None)"
proof -
  let ?rs = "map (\<lambda>(n, c). (f n, c)) (value_counts ns)"
  have d: "distinct (map fst ?rs)" using assms by (rule distinct_normalised)
  have mem: "(k, c) \<in> set ?rs \<longleftrightarrow> (\<exists>n \<in> set ns. f n = k \<and> c = count_list ns n)" for c
    by (auto simp: set_value_counts)
  have cnt: "count_list ns n = length (filter (\<lambda>m. f m = f n) ns)" if "n \<in> set ns" for n
  proof -
    have "filter (\<lambda>m. f m = f n) ns = filter ((=) n) ns"
      using assms that by (intro filter_cong) (auto dest: inj_onD)
    then show ?thesis by (simp add: count_list_eq_length_filter)
  qed
  show ?thesis
  proof (cases "k \<in> f ` set ns")
    case True
    then obtain n where n: "n \<in> set ns" "k = f n" by blast
    then have "(k, count_list ns n) \<in> set ?rs" using mem by blast
    then have "map_of ?rs k = Some (count_list ns n)" by (rule map_of_is_SomeI[OF d])
    with True n cnt show ?thesis by simp
  next
    case False
    then have "map_of ?rs k = None" by (auto simp: map_of_eq_None_iff set_value_counts)
    with False show ?thesis by simp
  qed
qed

lemma map_division_consistent:
  assumes "length a = length n" and "\<forall>i < length a. \<forall>j < length a. a ! i = a ! j \<longrightarrow> n ! i = n ! j"
    and "i < length a"
  shows "map_division (area_mapping a n) (a ! i) = n ! i"
proof -
  have li: "i < length (zip a n)" using assms(1,3) by simp
  have "(a ! i, n ! i) \<in> set (zip a n)" using nth_mem[OF li] li by simp
  then have "a ! i \<in> fst ` set (rev (zip a n))" by (simp add: rev_image_eqI)
  then obtain v where v: "map_of (rev (zip a n)) (a ! i) = Some v"
    by (cases "map_of (rev (zip a n)) (a ! i)") (simp_all add: map_of_eq_None_iff)
  then have "(a ! i, v) \<in> set (zip a n)" by (auto dest: map_of_SomeD)
  then obtain j where j: "j < length (zip a n)" "zip a n ! j = (a ! i, v)"
    using in_set_conv_nth[of "(a ! i, v)" "zip a n"] by blast
  then have "j < length a" "a ! j = a ! i" "n ! j = v" by simp_all
  with assms(2,3) have "n ! i = v" by metis
  with v show ?thesis by (simp add: map_division_def area_mapping_def py_dict_map_of)
qed

lemma sorted_unique_divisions: "sorted (map fst (unique_divisions a d))"
  by (simp add: unique_divisions_def)

lemma map_of_key_fun:
  "map_of (map (\<lambda>x. (f x, g (f x))) xs) k = (if k \<in> f ` set xs then Some (g k) else None)"
  by (induction xs) auto

section \<open>Properties of the crime map\<close>

text \<open>
  C23. When no two of the division names found in the table normalise to the same
  text, the merged table has one row per division boundary, in the boundaries'
  order, and the crime count of a division is the number of records whose
  \<open>Division_Name\<close> normalises to the division's normalised \<open>APREC\<close>; a division
  with no record gets no \<open>Division_Name\<close> and the count 0.
\<close>

theorem division_counts_spec:
  assumes "inj_on (\<lambda>n. norm_name (Some n)) (set (present names))"
  shows "division_counts aprec names =
           map (\<lambda>x. (norm_name x,
                     if norm_name x \<in> (\<lambda>n. norm_name (Some n)) ` set (present names)
                     then Some (norm_name x) else None,
                     length (filter (\<lambda>n. norm_name (Some n) = norm_name x) (present names)))) aprec"
proof -
  let ?f = "\<lambda>n. norm_name (Some n)"
  let ?rs = "map (\<lambda>(n, c). (?f n, c)) (value_counts (present names))"
  have m: "merge_left (map norm_name aprec) ?rs =
          map (\<lambda>k. case map_of ?rs k of None \<Rightarrow> (k, None, None) | Some v \<Rightarrow> (k, Some k, Some v))
              (map norm_name aprec)"
    using distinct_normalised[OF assms] by (rule merge_left_distinct)
  have z: "length (filter (\<lambda>n. ?f n = k) (present names)) = 0"
    if "k \<notin> ?f ` set (present names)" for k
    using that by (auto simp: filter_empty_conv)
  show ?thesis
    unfolding division_counts_def m map_map
    apply (intro map_cong[OF refl])
    subgoal for x using z[of "norm_name x"] by (simp add: map_of_normalised[OF assms])
    done
qed


theorem division_counts_spec_witness:
  "inj_on (\<lambda>n. norm_name (Some n)) (set (present [Some ''Central'', Some ''Central'', Some ''77th Street''])) \<and>
   division_counts [Some '' central'', Some ''Harbor''] [Some ''Central'', Some ''Central'', Some ''77th Street''] =
     map (\<lambda>x. (norm_name x,
               if norm_name x \<in> (\<lambda>n. norm_name (Some n)) ` set (present [Some ''Central'', Some ''Central'', Some ''77th Street''])
               then Some (norm_name x) else None,
               length (filter (\<lambda>n. norm_name (Some n) = norm_name x) (present [Some ''Central'', Some ''Central'', Some ''77th Street''])))) [Some '' central'', Some ''Harbor'']"
proof -
  have p: "present [Some ''Central'', Some ''Central'', Some ''77th Street''] = [''Central'', ''Central'', ''77th Street'']"
    by (simp add: present_def List.map_filter_def)
  have "distinct (map (\<lambda>n. norm_name (Some n)) [''Central'', ''77th Street''])" by code_simp
  then have "inj_on (\<lambda>n. norm_name (Some n)) (set [''Central'', ''77th Street''])"
    by (simp add: distinct_map)
  then have h: "inj_on (\<lambda>n. norm_name (Some n)) (set (present [Some ''Central'', Some ''Central'', Some ''77th Street'']))" using p by simp
  show ?thesis using h division_counts_spec[OF h] by blast
qed

text \<open>
  When no two division names of the table normalise alike, the choropleth colours
  each division by the number of records whose division name normalises to its
  \<open>APREC\<close>.
\<close>

theorem choropleth_counts:
  assumes "inj_on (\<lambda>n. norm_name (Some n)) (set (present names))" and "a \<in> set aprec"
  shows "choropleth_data (division_counts aprec names) (norm_name a) =
           Some (length (filter (\<lambda>n. norm_name (Some n) = norm_name a) (present names)))"
proof -
  let ?g = "\<lambda>k. length (filter (\<lambda>n. norm_name (Some n) = k) (present names))"
  have "map (\<lambda>(k, d, c). (k, c)) (division_counts aprec names) = map (\<lambda>x. (norm_name x, ?g (norm_name x))) aprec"
    by (simp add: division_counts_spec[OF assms(1)])
  then show ?thesis
    using assms(2) map_of_key_fun[of norm_name ?g "rev aprec" "norm_name a"]
    by (simp add: choropleth_data_def py_dict_map_of rev_map)
qed

theorem choropleth_counts_witness:
  "inj_on (\<lambda>n. norm_name (Some n)) (set (present [Some ''Central'', Some ''77th Street''])) \<and>
   Some '' central'' \<in> set [Some '' central''] \<and>
   choropleth_data (division_counts [Some '' central''] [Some ''Central'', Some ''77th Street'']) ''central'' = Some 1"
proof -
  have p: "present [Some ''Central'', Some ''77th Street''] = [''Central'', ''77th Street'']"
    by (simp add: present_def List.map_filter_def)
  have "distinct (map (\<lambda>n. norm_name (Some n)) [''Central'', ''77th Street''])" by code_simp
  then have h: "inj_on (\<lambda>n. norm_name (Some n)) (set (present [Some ''Central'', Some ''77th Street'']))"
    using p by (simp add: distinct_map)
  have m: "Some '' central'' \<in> set [Some '' central'']" by simp
  have n: "norm_name (Some '' central'') = ''central''" by code_simp
  have c: "length (filter (\<lambda>n. norm_name (Some n) = ''central'') (present [Some ''Central'', Some ''77th Street''])) = 1"
    by code_simp
  show ?thesis using h m choropleth_counts[OF h m] unfolding n c by blast
qed

lemma map_of_rev_last:
  "map_of (rev ps) k =
     (if filter (\<lambda>p. fst p = k) ps = [] then None else Some (snd (last (filter (\<lambda>p. fst p = k) ps))))"
  by (induction ps rule: rev_induct) auto

lemma filter_concat_keyed:
  assumes "\<And>k'. \<forall>p \<in> set (B k'). fst p = k'"
  shows "filter (\<lambda>p. fst p = k) (concat (map B ks)) = concat (map (\<lambda>_. B k) (filter (\<lambda>k'. k' = k) ks))"
  using assms by (induction ks) (auto simp: filter_id_conv filter_empty_conv)

lemma last_concat_const:
  "ys \<noteq> [] \<Longrightarrow> X \<noteq> [] \<Longrightarrow> last (concat (map (\<lambda>_. X) ys)) = last X"
  by (induction ys) (auto simp: last_append)

text \<open>
  C22. The choropleth of lines 66--75 colours a division by the last of the count
  rows that merged into it: the crime counts are computed per raw division name and
  normalised only afterwards, so when several spellings of a name normalise to the
  division's \<open>APREC\<close>, its colour value is the count of the last such spelling in
  \<open>value_counts\<close> order (not their sum), and 0 when none matches.
\<close>

theorem choropleth_last_wins:
  assumes "a \<in> set aprec"
  shows "choropleth_data (division_counts aprec names) (norm_name a) =
     Some (case filter (\<lambda>r. fst r = norm_name a)
                  (map (\<lambda>(n, c). (norm_name (Some n), c)) (value_counts (present names))) of
             [] \<Rightarrow> 0
           | ms \<Rightarrow> snd (last ms))"
proof -
  let ?rs = "map (\<lambda>(n, c). (norm_name (Some n), c)) (value_counts (present names))"
  let ?k = "norm_name a"
  define B where "B k = (case filter (\<lambda>r. fst r = k) ?rs of [] \<Rightarrow> [(k, 0)] | ms \<Rightarrow> map (\<lambda>r. (k, snd r)) ms)"
    for k
  have ps: "map (\<lambda>(k, d, c). (k, c)) (division_counts aprec names) = concat (map B (map norm_name aprec))"
    by (auto simp: division_counts_def merge_left_def B_def map_concat comp_def intro!: arg_cong[where f = concat]
             split: list.split)
  have keyed: "\<forall>p \<in> set (B k'). fst p = k'" for k'
    by (auto simp: B_def split: list.split)
  have ne: "B k \<noteq> []" for k by (auto simp: B_def split: list.split)
  have ks: "filter (\<lambda>k'. k' = ?k) (map norm_name aprec) \<noteq> []"
    using assms by (auto simp: filter_empty_conv)
  have "filter (\<lambda>p. fst p = ?k) (concat (map B (map norm_name aprec))) =
        concat (map (\<lambda>_. B ?k) (filter (\<lambda>k'. k' = ?k) (map norm_name aprec)))"
    by (rule filter_concat_keyed) (rule keyed)
  moreover have "\<dots> \<noteq> []" using ks ne by (cases "filter (\<lambda>k'. k' = ?k) (map norm_name aprec)") auto
  ultimately have "map_of (rev (concat (map B (map norm_name aprec)))) ?k = Some (snd (last (B ?k)))"
    using last_concat_const[OF ks ne] by (simp only: map_of_rev_last) simp
  then show ?thesis
    by (simp add: choropleth_data_def py_dict_map_of ps B_def last_map split: list.split)
qed

theorem choropleth_last_wins_witness:
  "Some ''77th Street'' \<in> set [Some ''77th Street''] \<and>
   choropleth_data (division_counts [Some ''77th Street''] [Some ''77th Street'', Some ''77TH STREET'', Some ''77th Street''])
     ''77th street'' = Some 1"
proof -
  have m: "Some ''77th Street'' \<in> set [Some ''77th Street'']" by simp
  have n: "norm_name (Some ''77th Street'') = ''77th street''" by code_simp
  have c: "(case filter (\<lambda>r. fst r = ''77th street'')
                  (map (\<lambda>(n, c). (norm_name (Some n), c))
                    (value_counts (present [Some ''77th Street'', Some ''77TH STREET'', Some ''77th Street'']))) of
             [] \<Rightarrow> 0
           | ms \<Rightarrow> snd (last ms)) = 1" by code_simp
  show ?thesis using m choropleth_last_wins[OF m, of "[Some ''77th Street'', Some ''77TH STREET'', Some ''77th Street'']"]
    unfolding n c by blast
qed

end
