(* ===== verification/Predictive.thy ===== *)
theory Predictive
  imports Frame "HOL-Library.Char_ord" "HOL-Library.List_Lexorder"
begin

text \<open>
  The data preparation of \<open>Predictive Analysis.py\<close> (lines 29--49) on the canonical
  table: a sample of 100000 rows, the fixed list of feature columns, their one-hot
  encoding with \<open>pd.get_dummies\<close>, and the label encoding of \<open>Crime_Category\<close> with
  \<open>LabelEncoder\<close>. The rows \<open>sample(random_state=42)\<close> draws are numpy's
  pseudo-random permutation, which the model takes as a parameter; only what the
  code does with it is modelled. The split and the metrics (lines 58--143) are in
  \<open>Metrics\<close>; the forest and the charts are a library model and plotting.
\<close>

text \<open>Lines 37--43.\<close>

definition features :: "string list" where
  "features = [''TIME OCC'', ''AREA NAME'', ''Vict Age'', ''Vict Sex'', ''Vict Descent'',
               ''Premis Desc'', ''Weapon Desc'', ''DayOfWeek'', ''Month'', ''MO_Desc_1'',
               ''MO_Desc_2'', ''MO_Desc_3'', ''MO_Desc_4'', ''MO_Desc_5'', ''MO_Desc_6'',
               ''MO_Desc_7'', ''MO_Desc_8'', ''MO_Desc_9'', ''MO_Desc_10'']"

definition target :: string where
  "target = ''Crime_Category''"

text \<open>
  Line 29: \<open>sample(n)\<close> without replacement raises \<open>ValueError\<close> on a table with fewer
  than \<open>n\<close> rows; otherwise it keeps the rows at the first \<open>n\<close> positions of the
  permutation, index labels included.
\<close>

definition sample_rows :: "nat \<Rightarrow> nat list \<Rightarrow> frame \<Rightarrow> pd_error + frame" where
  "sample_rows n perm df =
     (if n_rows df < n then Inl ValueError
      else (let ps = take n perm in
            Inr \<lparr>idx = map (\<lambda>p. idx df ! p) ps, cols = map (\<lambda>(m, c). (m, map (\<lambda>p. c ! p) ps)) (cols df)\<rparr>))"

text \<open>\<open>df[list]\<close>: the named columns in the list's order, \<open>KeyError\<close> for a missing one.\<close>

definition select_cols :: "string list \<Rightarrow> frame \<Rightarrow> pd_error + frame" where
  "select_cols ns df =
     (case filter (\<lambda>n. n \<notin> set (col_names df)) ns of
        m # _ \<Rightarrow> Inl (KeyError m)
      | [] \<Rightarrow> Inr \<lparr>idx = idx df,
                  cols = map (\<lambda>n. (n, case map_of (cols df) n of None \<Rightarrow> [] | Some c \<Rightarrow> c)) ns\<rparr>)"

text \<open>
  Line 46: \<open>pd.get_dummies\<close> on text columns: for each column in order and each of its
  values in sorted order, an indicator column \<open>name_value\<close>; a missing cell has no
  indicator set.
\<close>

definition dummy_values :: "cell list \<Rightarrow> string list" where
  "dummy_values c = sorted_list_of_set (set (List.map_filter id c))"

definition get_dummies :: "frame \<Rightarrow> (string \<times> bool list) list" where
  "get_dummies df =
     concat (map (\<lambda>(n, c). map (\<lambda>v. (n @ ''_'' @ v, map (\<lambda>x. x = Some v) c)) (dummy_values c))
                 (cols df))"

text \<open>
  Lines 48--49: \<open>LabelEncoder().fit_transform\<close>: the classes are the sorted distinct
  labels and each label is coded by its position among them; a missing label cannot
  be ordered with the texts and raises \<open>TypeError\<close>.
\<close>

fun index_of :: "'a \<Rightarrow> 'a list \<Rightarrow> nat" where
  "index_of x [] = 0"
| "index_of x (y # ys) = (if x = y then 0 else Suc (index_of x ys))"

definition label_encode :: "cell list \<Rightarrow> pd_error + (string list \<times> nat list)" where
  "label_encode c =
     (if None \<in> set c then Inl TypeError
      else (let ys = List.map_filter id c; cls = sorted_list_of_set (set ys) in
            Inr (cls, map (\<lambda>y. index_of y cls) ys)))"

text \<open>Lines 29--49 as a whole.\<close>

definition prepare_model_data ::
  "nat list \<Rightarrow> frame \<Rightarrow> pd_error + ((string \<times> bool list) list \<times> string list \<times> nat list)" where
  "prepare_model_data perm df =
     bindE (sample_rows 100000 perm df) (\<lambda>s.
     bindE (select_cols features s) (\<lambda>x.
     bindE (get_col s target) (\<lambda>y.
     bindE (label_encode y) (\<lambda>(cls, codes). Inr (get_dummies x, cls, codes)))))"

section \<open>Lemmas\<close>

lemma index_of_nth: "x \<in> set xs \<Longrightarrow> index_of x xs < length xs \<and> xs ! index_of x xs = x"
  by (induction xs) auto

lemma map_filter_id_Some: "None \<notin> set c \<Longrightarrow> List.map_filter id c = map the c"
proof (induction c)
  case (Cons a c)
  then show ?case by (cases a) (simp_all add: List.map_filter_simps)
qed (simp add: List.map_filter_simps)

lemma in_map_filter_id: "Some v \<in> set c \<Longrightarrow> v \<in> set (List.map_filter id c)"
  by (induction c) (auto simp: List.map_filter_simps split: option.splits)

lemma col_names_sample_rows:
  "sample_rows n perm df = Inr s \<Longrightarrow> col_names s = col_names df"
  by (auto simp: sample_rows_def Let_def col_names_def comp_def case_prod_beta split: if_splits)

lemma select_cols_KeyError:
  "filter (\<lambda>n. n \<notin> set (col_names df)) ns = m # ms \<Longrightarrow> select_cols ns df = Inl (KeyError m)"
  by (simp add: select_cols_def)

lemma filter_eq_single: "distinct xs \<Longrightarrow> v \<in> set xs \<Longrightarrow> filter (\<lambda>w. w = v) xs = [v]"
  by (induction xs) (auto simp: filter_empty_conv)

lemma set_dummy_values: "set (dummy_values c) = set (List.map_filter id c)"
  by (simp add: dummy_values_def)

lemma distinct_dummy_values: "distinct (dummy_values c)"
  by (simp add: dummy_values_def)

section \<open>Properties of the model data\<close>

text \<open>
  C33. Label encoding round-trips: the classes are sorted and distinct, there is one
  code per row, each code indexes the classes, and the class at a row's code is the
  row's label (\<open>inverse_transform\<close> undoes \<open>transform\<close>).
\<close>

theorem label_encode_roundtrip:
  assumes "label_encode c = Inr (cls, codes)"
  shows "sorted cls \<and> distinct cls \<and> length codes = length c \<and>
         (\<forall>i < length c. codes ! i < length cls \<and> Some (cls ! (codes ! i)) = c ! i)"
proof -
  have nn: "None \<notin> set c" and cls: "cls = sorted_list_of_set (set (map the c))"
    and codes: "codes = map (\<lambda>y. index_of y cls) (map the c)"
    using assms by (auto simp: label_encode_def Let_def map_filter_id_Some split: if_splits)
  have "codes ! i < length cls \<and> Some (cls ! (codes ! i)) = c ! i" if "i < length c" for i
  proof -
    have "c ! i \<noteq> None" using nn that by (metis nth_mem)
    then obtain y where y: "c ! i = Some y" by auto
    have "Some y \<in> set c" using y that by (metis nth_mem)
    then have "y \<in> set cls" using cls by force
    with y that codes show ?thesis by (simp add: index_of_nth)
  qed
  with cls codes show ?thesis by simp
qed

theorem label_encode_roundtrip_witness:
  "label_encode [Some ''Other'', Some ''Violent Crime'', Some ''Other''] =
     Inr ([''Other'', ''Violent Crime''], [0, 1, 0]) \<and>
   sorted [''Other'', ''Violent Crime''] \<and> distinct [''Other'', ''Violent Crime''] \<and>
   length [0 :: nat, 1, 0] = length [Some ''Other'', Some ''Violent Crime'', Some ''Other'']"
proof -
  have h: "label_encode [Some ''Other'', Some ''Violent Crime'', Some ''Other''] =
     Inr ([''Other'', ''Violent Crime''], [0, 1, 0])" by code_simp
  show ?thesis using h label_encode_roundtrip[OF h] by blast
qed

lemma dummies_row:
  assumes "i < length c"
  shows "filter (\<lambda>(m, b). b ! i) (map (\<lambda>w. (n @ ''_'' @ w, map (\<lambda>x. x = Some w) c)) (dummy_values c)) =
    (case c ! i of None \<Rightarrow> [] | Some v \<Rightarrow> [(n @ ''_'' @ v, map (\<lambda>x. x = Some v) c)])"
proof (cases "c ! i")
  case None
  then show ?thesis using assms by (simp add: filter_map comp_def case_prod_beta filter_empty_conv)
next
  case (Some v)
  have "Some v \<in> set c" using assms Some by (metis nth_mem)
  then have "v \<in> set (dummy_values c)" by (simp add: set_dummy_values in_map_filter_id)
  moreover have "filter (\<lambda>w. c ! i = Some w) (dummy_values c) = [v]"
  proof -
    have "filter (\<lambda>w. c ! i = Some w) (dummy_values c) = filter (\<lambda>w. w = v) (dummy_values c)"
      using Some by (intro filter_cong) auto
    also have "\<dots> = [v]"
      using distinct_dummy_values[of c] \<open>v \<in> set (dummy_values c)\<close> by (rule filter_eq_single)
    finally show ?thesis .
  qed
  ultimately show ?thesis using assms Some
    by (simp add: filter_map comp_def case_prod_beta)
qed

lemma concat_map_option_list:
  "concat (map (\<lambda>x. case f x of None \<Rightarrow> [] | Some y \<Rightarrow> [y]) xs) = List.map_filter f xs"
  by (induction xs) (auto split: option.splits)

text \<open>
  C34. One-hot encoding sets exactly one indicator per present cell: in row \<open>i\<close> of
  the indicator table \<open>get_dummies\<close> builds from a well-formed table, the set
  indicators are, in column order, one per feature whose cell in that row holds a
  value \<open>v\<close>, namely the column \<open>name_v\<close>, and none for a feature whose cell is
  missing.
\<close>

theorem get_dummies_one_hot:
  assumes "frame_wf x" and "i < n_rows x"
  shows "filter (\<lambda>(m, b). b ! i) (get_dummies x) =
           List.map_filter (\<lambda>(n, c). map_option (\<lambda>v. (n @ ''_'' @ v, map (\<lambda>y. y = Some v) c)) (c ! i)) (cols x)"
proof -
  have l: "\<forall>(n, c) \<in> set (cols x). i < length c"
    using assms by (auto simp: frame_wf_def list_all_iff)
  have "filter (\<lambda>(m, b). b ! i) (get_dummies x) =
        concat (map (\<lambda>(n, c). filter (\<lambda>(m, b). b ! i)
                  (map (\<lambda>w. (n @ ''_'' @ w, map (\<lambda>y. y = Some w) c)) (dummy_values c))) (cols x))"
    unfolding get_dummies_def filter_concat map_map by (simp add: comp_def split_def)
  also have "\<dots> = concat (map (\<lambda>nc. case (\<lambda>(n, c). map_option (\<lambda>v. (n @ ''_'' @ v, map (\<lambda>y. y = Some v) c)) (c ! i)) nc of
                                  None \<Rightarrow> [] | Some r \<Rightarrow> [r]) (cols x))"
  proof (intro arg_cong[where f = concat] map_cong refl)
    fix nc assume "nc \<in> set (cols x)"
    then obtain n c where nc: "nc = (n, c)" and li: "i < length c" using l by (cases nc) auto
    show "(\<lambda>(n, c). filter (\<lambda>(m, b). b ! i)
                  (map (\<lambda>w. (n @ ''_'' @ w, map (\<lambda>y. y = Some w) c)) (dummy_values c))) nc =
          (case (\<lambda>(n, c). map_option (\<lambda>v. (n @ ''_'' @ v, map (\<lambda>y. y = Some v) c)) (c ! i)) nc of
                                  None \<Rightarrow> [] | Some r \<Rightarrow> [r])"
      unfolding nc prod.case dummies_row[OF li] by (simp split: option.split)
  qed
  finally show ?thesis by (simp only: concat_map_option_list)
qed

theorem get_dummies_one_hot_witness:
  "frame_wf \<lparr>idx = [0, 1], cols = [(''Vict Sex'', [Some ''M'', Some ''F'']), (''Weapon Desc'', [None, Some ''KNIFE''])]\<rparr> \<and>
   0 < n_rows \<lparr>idx = [0, 1], cols = [(''Vict Sex'', [Some ''M'', Some ''F'']), (''Weapon Desc'', [None, Some ''KNIFE''])]\<rparr> \<and>
   filter (\<lambda>(m, b). b ! 0)
     (get_dummies \<lparr>idx = [0, 1], cols = [(''Vict Sex'', [Some ''M'', Some ''F'']), (''Weapon Desc'', [None, Some ''KNIFE''])]\<rparr>)
   = [(''Vict Sex_M'', [True, False])]"
proof -
  let ?x = "\<lparr>idx = [0::nat, 1], cols = [(''Vict Sex'', [Some ''M'', Some ''F'']), (''Weapon Desc'', [None, Some ''KNIFE''])]\<rparr>"
  have wf: "frame_wf ?x" by (simp add: frame_wf_def col_names_def n_rows_def)
  have p: "0 < n_rows ?x" by (simp add: n_rows_def)
  show ?thesis using wf p get_dummies_one_hot[OF wf p] by (simp add: List.map_filter_def)
qed

lemma sample_rows_Inr: "n \<le> n_rows df \<Longrightarrow> \<exists>s. sample_rows n perm df = Inr s"
  by (simp add: sample_rows_def Let_def)

text \<open>
  C35. The model script needs ten MO description columns: on a table of at least
  100000 rows that has every other feature column but no \<open>MO_Desc_10\<close> (STEP 7
  found no record with ten MO codes), selecting the features raises
  \<open>KeyError('MO_Desc_10')\<close> and no model is trained.
\<close>

theorem prepare_model_data_no_mo10:
  assumes "100000 \<le> n_rows df" and "set (remove1 ''MO_Desc_10'' features) \<subseteq> set (col_names df)"
    and "''MO_Desc_10'' \<notin> set (col_names df)"
  shows "prepare_model_data perm df = Inl (KeyError ''MO_Desc_10'')"
proof -
  obtain s where s: "sample_rows 100000 perm df = Inr s" using sample_rows_Inr[OF assms(1)] by blast
  have cn: "col_names s = col_names df" by (rule col_names_sample_rows[OF s])
  have "filter (\<lambda>n. n \<notin> set (col_names s)) features = [''MO_Desc_10'']"
    using assms(2,3) unfolding cn by (simp add: features_def)
  then have "select_cols features s = Inl (KeyError ''MO_Desc_10'')" by (simp add: select_cols_def)
  with s show ?thesis by (simp add: prepare_model_data_def)
qed

theorem prepare_model_data_no_mo10_witness:
  "100000 \<le> n_rows \<lparr>idx = [0..<100000], cols = map (\<lambda>n. (n, replicate 100000 (Some ''x''))) (remove1 ''MO_Desc_10'' features)\<rparr> \<and>
   set (remove1 ''MO_Desc_10'' features) \<subseteq> set (col_names \<lparr>idx = [0..<100000], cols = map (\<lambda>n. (n, replicate 100000 (Some ''x''))) (remove1 ''MO_Desc_10'' features)\<rparr>) \<and>
   ''MO_Desc_10'' \<notin> set (col_names \<lparr>idx = [0..<100000], cols = map (\<lambda>n. (n, replicate 100000 (Some ''x''))) (remove1 ''MO_Desc_10'' features)\<rparr>) \<and>
   prepare_model_data [0..<100000] \<lparr>idx = [0..<100000], cols = map (\<lambda>n. (n, replicate 100000 (Some ''x''))) (remove1 ''MO_Desc_10'' features)\<rparr> =
     Inl (KeyError ''MO_Desc_10'')"
proof -
  let ?df = "\<lparr>idx = [0..<100000], cols = map (\<lambda>n. (n, replicate 100000 (Some ''x''))) (remove1 ''MO_Desc_10'' features)\<rparr>"
  have h1: "100000 \<le> n_rows ?df" by (simp add: n_rows_def)
  have cn: "col_names ?df = remove1 ''MO_Desc_10'' features" by (simp add: col_names_def comp_def)
  have h2: "set (remove1 ''MO_Desc_10'' features) \<subseteq> set (col_names ?df)" by (simp only: cn)
  have h3: "''MO_Desc_10'' \<notin> set (col_names ?df)" by (simp only: cn) (simp add: features_def)
  show ?thesis using h1 h2 h3 prepare_model_data_no_mo10[OF h1 h2 h3, of "[0..<100000]"] by blast
qed

end
