(* ===== verification/PointMap.thy ===== *)
theory PointMap
  imports Complex_Main Predictive
begin

text \<open>
  The point map and the heat map of \<open>map code.py\<close>. Line 21 keeps the columns
  \<open>LAT\<close>, \<open>LON\<close> and \<open>Crime_Category\<close> of the pickled table, drops every row
  with a missing value among them and draws 1000 rows without replacement
  (\<open>random_state=42\<close>: the permutation is a parameter, as for the model script's
  sample); pandas raises \<open>ValueError\<close> when fewer rows are left. Lines 27--41 put one
  circle marker per sampled row on a map centred on Los Angeles, red for a violent
  crime and blue otherwise; line 56 takes the coordinate pairs of the sample as the
  heat map's data. Saving the HTML files is output only; the models are the map
  objects saved.
\<close>

section \<open>Definitions\<close>

text \<open>\<open>df.dropna()\<close> (\<open>how='any'\<close>): the rows with no missing cell in any column.\<close>

definition dropna_mask :: "frame \<Rightarrow> bool list" where
  "dropna_mask df = map (\<lambda>p. list_all (\<lambda>(n, c). c ! p \<noteq> None) (cols df)) [0..<n_rows df]"

definition dropna :: "frame \<Rightarrow> frame" where
  "dropna df = select_rows (dropna_mask df) df"

definition point_cols :: "string list" where
  "point_cols = [''LAT'', ''LON'', ''Crime_Category'']"

text \<open>Line 21.\<close>

definition sample_crimes :: "nat list \<Rightarrow> frame \<Rightarrow> pd_error + frame" where
  "sample_crimes perm df = bindE (select_cols point_cols df) (\<lambda>s. sample_rows 1000 perm (dropna s))"

text \<open>Line 27, \<open>la_location\<close>, as exact decimals.\<close>

definition la_location :: "rat \<times> rat" where
  "la_location = (340522 / 10000, - 1182437 / 10000)"

datatype colour = Red | Blue

text \<open>Line 38.\<close>

definition marker_colour :: "cell \<Rightarrow> colour" where
  "marker_colour k = (if k = Some ''Violent Crime'' then Red else Blue)"

text \<open>The arguments of \<open>folium.CircleMarker\<close>, lines 35--40.\<close>

record circle_marker =
  location :: "cell \<times> cell"
  radius :: nat
  color :: colour
  fill :: bool
  fill_opacity :: rat

text \<open>
  Lines 34--41: one marker per row of the sample, in row order; \<open>row['LAT']\<close> raises
  \<open>KeyError\<close> on the first row when the column is absent, so an empty sample draws
  nothing and raises nothing.
\<close>

definition circle_markers :: "frame \<Rightarrow> pd_error + circle_marker list" where
  "circle_markers s =
     (if n_rows s = 0 then Inr []
      else bindE (get_col s ''LAT'') (\<lambda>la. bindE (get_col s ''LON'') (\<lambda>lo.
           bindE (get_col s ''Crime_Category'') (\<lambda>cc.
             Inr (map (\<lambda>((a, b), k). \<lparr>location = (a, b), radius = 2, color = marker_colour k,
                                      fill = True, fill_opacity = 1 / 2\<rparr>)
                      (zip (zip la lo) cc))))))"

text \<open>Line 56, \<open>sample_crimes[['LAT', 'LON']].dropna().values.tolist()\<close>: one list per row.\<close>

definition heat_data :: "frame \<Rightarrow> pd_error + cell list list" where
  "heat_data s =
     bindE (select_cols [''LAT'', ''LON''] s) (\<lambda>h.
       Inr (map (\<lambda>p. map (\<lambda>(n, c). c ! p) (cols (dropna h))) [0..<n_rows (dropna h)]))"

text \<open>A \<open>folium.Map\<close> with what the script adds to it.\<close>

record folium_map =
  centre :: "rat \<times> rat"
  zoom_start :: nat
  markers :: "circle_marker list"
  heat_layer :: "cell list list"

text \<open>Lines 21--58: the point map (lines 29--41) and the heat map (lines 53--58).\<close>

definition map_script :: "nat list \<Rightarrow> frame \<Rightarrow> pd_error + folium_map \<times> folium_map" where
  "map_script perm df =
     bindE (sample_crimes perm df) (\<lambda>s.
     bindE (circle_markers s) (\<lambda>ms.
     bindE (heat_data s) (\<lambda>hd.
       Inr (\<lparr>centre = la_location, zoom_start = 11, markers = ms, heat_layer = []\<rparr>,
            \<lparr>centre = la_location, zoom_start = 11, markers = [], heat_layer = hd\<rparr>))))"

text \<open>The positions of the rows the \<open>dropna\<close> of line 21 keeps.\<close>

abbreviation point_rows :: "cell list \<Rightarrow> cell list \<Rightarrow> cell list \<Rightarrow> nat \<Rightarrow> nat list" where
  "point_rows la lo cc n \<equiv> filter (\<lambda>p. la ! p \<noteq> None \<and> lo ! p \<noteq> None \<and> cc ! p \<noteq> None) [0..<n]"

section \<open>Lemmas\<close>

lemma select_mask_upt:
  "select_mask (map P [k..<k + length xs]) xs = map (\<lambda>p. xs ! (p - k)) (filter P [k..<k + length xs])"
proof (induction xs arbitrary: k)
  case Nil
  then show ?case by simp
next
  case (Cons x xs)
  have u: "[k..<k + length (x # xs)] = k # [Suc k..<Suc k + length xs]"
    by (simp add: upt_rec)
  have m: "map (\<lambda>p. (x # xs) ! (p - k)) (filter P [Suc k..<Suc k + length xs]) =
           map (\<lambda>p. xs ! (p - Suc k)) (filter P [Suc k..<Suc k + length xs])"
    by (rule map_cong[OF refl]) (auto simp: nth_Cons')
  show ?case unfolding u using Cons.IH[of "Suc k"] m by simp
qed

lemma select_mask_upt0:
  "length xs = n \<Longrightarrow> select_mask (map P [0..<n]) xs = map ((!) xs) (filter P [0..<n])"
  using select_mask_upt[of P 0 xs] by simp

lemma select_cols_Inr:
  assumes "set ns \<subseteq> set (col_names df)"
  shows "select_cols ns df = Inr \<lparr>idx = idx df, cols = map (\<lambda>n. (n, the (map_of (cols df) n))) ns\<rparr>"
proof -
  have f: "filter (\<lambda>n. n \<notin> set (col_names df)) ns = []"
    using assms by (auto simp: filter_empty_conv)
  have "map (\<lambda>n. (n, case map_of (cols df) n of None \<Rightarrow> [] | Some c \<Rightarrow> c)) ns =
        map (\<lambda>n. (n, the (map_of (cols df) n))) ns"
  proof (rule map_cong[OF refl])
    fix n assume "n \<in> set ns"
    then have "map_of (cols df) n \<noteq> None"
      using assms by (auto simp: col_names_def map_of_eq_None_iff)
    then show "(n, case map_of (cols df) n of None \<Rightarrow> [] | Some c \<Rightarrow> c) = (n, the (map_of (cols df) n))"
      by (auto split: option.split)
  qed
  then show ?thesis by (simp add: select_cols_def f)
qed

lemma dropna_cols:
  assumes "list_all (\<lambda>(n, c). length c = n_rows df) (cols df)"
  shows "dropna df =
    \<lparr>idx = map ((!) (idx df)) (filter (\<lambda>p. list_all (\<lambda>(n, c). c ! p \<noteq> None) (cols df)) [0..<n_rows df]),
     cols = map (\<lambda>(n, c). (n, map ((!) c) (filter (\<lambda>p. list_all (\<lambda>(n, c). c ! p \<noteq> None) (cols df)) [0..<n_rows df])))
              (cols df)\<rparr>"
proof -
  have "map (\<lambda>(n, c). (n, select_mask (dropna_mask df) c)) (cols df) =
        map (\<lambda>(n, c). (n, map ((!) c) (filter (\<lambda>p. list_all (\<lambda>(n, c). c ! p \<noteq> None) (cols df)) [0..<n_rows df])))
            (cols df)"
    using assms by (auto simp: list_all_iff dropna_mask_def select_mask_upt0 intro!: map_cong)
  then show ?thesis
    by (simp add: dropna_def select_rows_def dropna_mask_def select_mask_upt0 n_rows_def)
qed

lemma get_col_Inr_name: "get_col df n = Inr c \<Longrightarrow> n \<in> set (col_names df)"
  by (metis get_col_KeyError sum.distinct(1))

lemma point_select:
  assumes "get_col df ''LAT'' = Inr la" "get_col df ''LON'' = Inr lo" "get_col df ''Crime_Category'' = Inr cc"
  shows "select_cols point_cols df =
    Inr \<lparr>idx = idx df, cols = [(''LAT'', la), (''LON'', lo), (''Crime_Category'', cc)]\<rparr>"
proof -
  have "set point_cols \<subseteq> set (col_names df)"
    using assms by (auto simp: point_cols_def dest: get_col_Inr_name)
  then show ?thesis using assms by (simp add: select_cols_Inr point_cols_def get_col_Inr_iff)
qed

lemma point_sample:
  assumes "frame_wf df" "get_col df ''LAT'' = Inr la" "get_col df ''LON'' = Inr lo"
    "get_col df ''Crime_Category'' = Inr cc"
  shows "sample_crimes perm df = sample_rows 1000 perm
    \<lparr>idx = map ((!) (idx df)) (point_rows la lo cc (n_rows df)),
     cols = [(''LAT'', map ((!) la) (point_rows la lo cc (n_rows df))),
             (''LON'', map ((!) lo) (point_rows la lo cc (n_rows df))),
             (''Crime_Category'', map ((!) cc) (point_rows la lo cc (n_rows df)))]\<rparr>"
proof -
  have l: "length la = n_rows df" "length lo = n_rows df" "length cc = n_rows df"
    using assms frame_wf_col_length by blast+
  show ?thesis
    using l by (simp add: sample_crimes_def point_select[OF assms(2-4)] dropna_cols n_rows_def bindE_def)
qed

lemma list_all_nth_not_None:
  "list_all (\<lambda>(n, c). length c = k \<and> None \<notin> set c) xs \<Longrightarrow> p < k \<Longrightarrow>
   list_all (\<lambda>(n, c). c ! p \<noteq> None) xs"
  by (induction xs) (auto, metis nth_mem option.exhaust)

lemma dropna_complete:
  assumes "list_all (\<lambda>(n, c). length c = n_rows df \<and> None \<notin> set c) (cols df)"
  shows "dropna df = df"
proof -
  have "list_all (\<lambda>(n, c). length c = n_rows df) (cols df)"
    using assms by (auto simp: list_all_iff)
  moreover have "filter (\<lambda>p. list_all (\<lambda>(n, c). c ! p \<noteq> None) (cols df)) [0..<n_rows df] = [0..<n_rows df]"
    using list_all_nth_not_None[OF assms] by (simp add: filter_id_conv)
  moreover have "map (\<lambda>(n, c). (n, map ((!) c) [0..<n_rows df])) (cols df) = cols df"
  proof (rule map_idI)
    fix x assume "x \<in> set (cols df)"
    then obtain n c where "x = (n, c)" "length c = n_rows df"
      using assms by (cases x) (auto simp: list_all_iff)
    then show "(\<lambda>(n, c). (n, map ((!) c) [0..<n_rows df])) x = x" using map_nth[of c] by simp
  qed
  ultimately show ?thesis by (simp add: dropna_cols n_rows_def map_nth)
qed

lemma zip3_map:
  "map f (zip (zip (map a xs) (map b xs)) (map c xs)) = map (\<lambda>x. f ((a x, b x), c x)) xs"
  by (induction xs) auto

lemma map_nth_map_in:
  "\<forall>i\<in>set is. i < length R \<Longrightarrow> map (\<lambda>i. map f R ! i) is = map (\<lambda>i. f (R ! i)) is"
  by (auto intro: map_cong)

lemma map_upt_pair:
  "map (\<lambda>p. [map a xs ! p, map b xs ! p]) [0..<length xs] = map (\<lambda>x. [a x, b x]) xs"
  by (rule nth_equalityI) simp_all

lemma point_rows_complete:
  "i < length (point_rows la lo cc n) \<Longrightarrow>
   la ! (point_rows la lo cc n ! i) \<noteq> None \<and> lo ! (point_rows la lo cc n ! i) \<noteq> None \<and>
   cc ! (point_rows la lo cc n ! i) \<noteq> None"
  using nth_mem[of i "point_rows la lo cc n"] by (simp del: not_None_eq)

lemma map_upt_const: "(\<And>i. i < n \<Longrightarrow> f i = c) \<Longrightarrow> map f [0..<n] = replicate n c"
  by (rule nth_equalityI) auto

text \<open>
  C24. Given a table whose \<open>LAT\<close>, \<open>LON\<close> and \<open>Crime_Category\<close> columns have at
  least 1000 rows with all three present (the rows \<open>R\<close> that \<open>dropna\<close> keeps, in
  order), and a permutation of those rows as the sample order, the script draws
  exactly the first 1000 rows of the permutation: one circle marker per row, at its
  coordinates, red exactly when its category is \<open>Violent Crime\<close>, and the heat map
  gets the same 1000 coordinate pairs in the same order; both maps are centred on
  Los Angeles.
\<close>

theorem map_script_points:
  assumes "frame_wf df" and "get_col df ''LAT'' = Inr la" and "get_col df ''LON'' = Inr lo"
    and "get_col df ''Crime_Category'' = Inr cc"
    and "R = point_rows la lo cc (n_rows df)" and "1000 \<le> length R"
    and "distinct perm" and "set perm = {..<length R}"
  shows "\<exists>pm hm. map_script perm df = Inr (pm, hm) \<and> centre pm = la_location \<and> centre hm = la_location \<and>
     markers pm = map (\<lambda>i. \<lparr>location = (la ! (R ! i), lo ! (R ! i)), radius = 2,
                              color = marker_colour (cc ! (R ! i)), fill = True, fill_opacity = 1 / 2\<rparr>)
                      (take 1000 perm) \<and>
     heat_layer hm = map (\<lambda>i. [la ! (R ! i), lo ! (R ! i)]) (take 1000 perm)"
proof -
  let ?ps = "take 1000 perm"
  have lp: "length perm = length R" using distinct_card[OF assms(7)] assms(8) by simp
  have lps: "length ?ps = 1000" using lp assms(6) by simp
  have lt: "\<forall>i\<in>set ?ps. i < length R" using assms(8) set_take_subset by fastforce
  define LA where "LA = map (\<lambda>i. la ! (R ! i)) ?ps"
  define LO where "LO = map (\<lambda>i. lo ! (R ! i)) ?ps"
  define CC where "CC = map (\<lambda>i. cc ! (R ! i)) ?ps"
  define IX where "IX = map (\<lambda>i. idx df ! (R ! i)) ?ps"
  let ?S = "\<lparr>idx = IX, cols = [(''LAT'', LA), (''LON'', LO), (''Crime_Category'', CC)]\<rparr>"
  have P: "sample_crimes perm df = sample_rows 1000 perm
    \<lparr>idx = map ((!) (idx df)) R,
     cols = [(''LAT'', map ((!) la) R), (''LON'', map ((!) lo) R), (''Crime_Category'', map ((!) cc) R)]\<rparr>"
    unfolding assms(5) by (rule point_sample[OF assms(1-4)])
  have S: "sample_crimes perm df = Inr ?S"
    using assms(6) lt
    by (simp add: P sample_rows_def n_rows_def Let_def map_nth_map_in LA_def LO_def CC_def IX_def)
  have l: "length IX = 1000" "length LA = 1000" "length LO = 1000" "length CC = 1000"
    using lps by (simp_all add: IX_def LA_def LO_def CC_def)
  have M: "circle_markers ?S = Inr (map (\<lambda>i. \<lparr>location = (la ! (R ! i), lo ! (R ! i)), radius = 2,
                              color = marker_colour (cc ! (R ! i)), fill = True, fill_opacity = 1 / 2\<rparr>) ?ps)"
    using l by (simp add: circle_markers_def n_rows_def get_col_def bindE_def LA_def LO_def CC_def zip3_map)
  have nn: "None \<notin> set LA" "None \<notin> set LO"
    using lt point_rows_complete assms(5) by (fastforce simp: LA_def LO_def)+
  have H0: "select_cols [''LAT'', ''LON''] ?S = Inr \<lparr>idx = IX, cols = [(''LAT'', LA), (''LON'', LO)]\<rparr>"
    by (simp add: select_cols_def col_names_def)
  have D: "dropna \<lparr>idx = IX, cols = [(''LAT'', LA), (''LON'', LO)]\<rparr> = \<lparr>idx = IX, cols = [(''LAT'', LA), (''LON'', LO)]\<rparr>"
    by (rule dropna_complete) (use l nn in \<open>simp add: n_rows_def\<close>)
  have H: "heat_data ?S = Inr (map (\<lambda>i. [la ! (R ! i), lo ! (R ! i)]) ?ps)"
  proof -
    have "map (\<lambda>p. [LA ! p, LO ! p]) [0..<1000] = map (\<lambda>i. [la ! (R ! i), lo ! (R ! i)]) ?ps"
      using map_upt_pair[of "\<lambda>i. la ! (R ! i)" ?ps "\<lambda>i. lo ! (R ! i)"] lps by (simp add: LA_def LO_def)
    then show ?thesis using l by (simp add: heat_data_def H0 D bindE_def n_rows_def)
  qed
  show ?thesis by (simp add: map_script_def S M H bindE_def)
qed


theorem map_script_points_witness:
  "\<exists>pm hm. map_script [0..<1000]
      \<lparr>idx = [0..<1000], cols = [(''LAT'', replicate 1000 (Some ''34.05'')),
        (''LON'', replicate 1000 (Some ''-118.24'')), (''Crime_Category'', replicate 1000 (Some ''Violent Crime''))]\<rparr>
      = Inr (pm, hm) \<and>
    markers pm = replicate 1000 \<lparr>location = (Some ''34.05'', Some ''-118.24''), radius = 2, color = Red,
                                 fill = True, fill_opacity = 1 / 2\<rparr> \<and>
    heat_layer hm = replicate 1000 [Some ''34.05'', Some ''-118.24'']"
proof -
  let ?df = "\<lparr>idx = [0..<1000], cols = [(''LAT'', replicate 1000 (Some ''34.05'')),
        (''LON'', replicate 1000 (Some ''-118.24'')), (''Crime_Category'', replicate 1000 (Some ''Violent Crime''))]\<rparr>"
  let ?la = "replicate 1000 (Some ''34.05'') :: cell list"
  let ?lo = "replicate 1000 (Some ''-118.24'') :: cell list"
  let ?cc = "replicate 1000 (Some ''Violent Crime'') :: cell list"
  have wf: "frame_wf ?df" by (simp add: frame_wf_def col_names_def n_rows_def)
  have g: "get_col ?df ''LAT'' = Inr ?la" "get_col ?df ''LON'' = Inr ?lo"
    "get_col ?df ''Crime_Category'' = Inr ?cc" by (simp_all add: get_col_def)
  have R: "point_rows ?la ?lo ?cc (n_rows ?df) = [0..<1000]"
    by (simp add: n_rows_def filter_id_conv del: not_None_eq)
  have p: "distinct [0..<1000::nat]" "set [0..<1000::nat] = {..<length [0..<1000::nat]}"
    by (simp_all add: atLeast0LessThan)
  obtain pm hm where r: "map_script [0..<1000] ?df = Inr (pm, hm)"
    and m: "markers pm = map (\<lambda>i. \<lparr>location = (?la ! ([0..<1000] ! i), ?lo ! ([0..<1000] ! i)), radius = 2,
                              color = marker_colour (?cc ! ([0..<1000] ! i)), fill = True, fill_opacity = 1 / 2\<rparr>)
                      (take 1000 [0..<1000])"
    and h: "heat_layer hm = map (\<lambda>i. [?la ! ([0..<1000] ! i), ?lo ! ([0..<1000] ! i)]) (take 1000 [0..<1000])"
    using map_script_points[OF wf g R[symmetric] _ p] by auto
  have "markers pm = replicate 1000 \<lparr>location = (Some ''34.05'', Some ''-118.24''), radius = 2, color = Red,
                                 fill = True, fill_opacity = 1 / 2\<rparr>"
    unfolding m by (simp add: map_upt_const marker_colour_def)
  moreover have "heat_layer hm = replicate 1000 [Some ''34.05'', Some ''-118.24'']"
    unfolding h by (simp add: map_upt_const)
  ultimately show ?thesis using r by blast
qed

text \<open>
  C25. When fewer than 1000 rows have \<open>LAT\<close>, \<open>LON\<close> and \<open>Crime_Category\<close> all
  present, \<open>sample(1000)\<close> raises \<open>ValueError\<close> and no map is drawn.
\<close>

theorem map_script_too_few:
  assumes "frame_wf df" and "get_col df ''LAT'' = Inr la" and "get_col df ''LON'' = Inr lo"
    and "get_col df ''Crime_Category'' = Inr cc"
    and "length (point_rows la lo cc (n_rows df)) < 1000"
  shows "map_script perm df = Inl ValueError"
  using assms(5)
  by (simp add: map_script_def point_sample[OF assms(1-4)] sample_rows_def n_rows_def bindE_def
           del: not_None_eq)

text \<open>Without a \<open>LAT\<close> column line 21 raises \<open>KeyError('LAT')\<close>.\<close>

theorem map_script_too_few_witness:
  "map_script [0] \<lparr>idx = [0], cols = [(''LAT'', [Some ''34.05'']), (''LON'', [None]),
     (''Crime_Category'', [Some ''Other''])]\<rparr> = Inl ValueError"
  by (rule map_script_too_few[of _ "[Some ''34.05'']" "[None]" "[Some ''Other'']"])
     (simp_all add: frame_wf_def col_names_def n_rows_def get_col_def)

theorem map_script_no_lat:
  "''LAT'' \<notin> set (col_names df) \<Longrightarrow> map_script perm df = Inl (KeyError ''LAT'')"
  by (simp add: map_script_def sample_crimes_def select_cols_def point_cols_def bindE_def)

end
