(* ===== verification/Reports.thy ===== *)
theory Reports
  imports Counts Demographics Category
begin

text \<open>
  The summaries the cleaning script prints between its steps and the table it exports
  in STEP 9 (\<open>Data Cleaning and Curation Pipeline.py\<close>): the missing values per
  column before STEP 2 (lines 19--24), the victim age group distribution after STEP 6
  (lines 107--109, a categorical column, so every category is listed, in category
  order, with its count, zero included), the distinct crime descriptions with their
  counts before STEP 8 (lines 137--142, \<open>dropna=False\<close>), the category counts after
  STEP 8 (lines 295--297) and the first 5000 rows written to \<open>Output.csv\<close> (line 306).
  Printing itself is output only; the models are the values printed.
\<close>

section \<open>Definitions\<close>

text \<open>
  Line 19 runs on the table \<open>read_csv\<close> returned, before STEP 2: \<open>isna()\<close> sees
  each column through its dtype, an \<open>int64\<close> column never holding \<open>NaN\<close>. The
  table as cells for that test (the integers printed as \<open>str()\<close> does).
\<close>

definition raw_cells :: "raw_col \<Rightarrow> cell list" where
  "raw_cells rc = (case rc of ObjCol c \<Rightarrow> c | IntCol xs \<Rightarrow> map (\<lambda>i. Some (py_str_int i)) xs
                            | FloatCol c \<Rightarrow> c)"

definition raw_as_frame :: "raw_frame \<Rightarrow> frame" where
  "raw_as_frame rf = \<lparr>idx = raw_idx rf, cols = map (\<lambda>(n, rc). (n, raw_cells rc)) (raw_cols rf)\<rparr>"

text \<open>Line 19: \<open>isna().sum()\<close>, one count per column in column order.\<close>

definition missing_counts :: "frame \<Rightarrow> (string \<times> nat) list" where
  "missing_counts df = map (\<lambda>(n, c). (n, count_list c None)) (cols df)"

text \<open>Line 20: \<open>missing_counts.sum()\<close>.\<close>

definition missing_total :: "frame \<Rightarrow> nat" where
  "missing_total df = sum_list (map snd (missing_counts df))"

text \<open>Lines 22--24: the columns printed, those with a positive count.\<close>

definition missing_report :: "frame \<Rightarrow> (string \<times> nat) list" where
  "missing_report df = filter (\<lambda>(n, k). 0 < k) (missing_counts df)"

text \<open>
  Line 104 makes \<open>Vict Age Group\<close> categorical with the eight bin labels and the
  added category \<open>Unknown\<close>; line 107 counts it and sorts by the categories.
\<close>

definition age_group_categories :: "string list" where
  "age_group_categories = age_labels @ [''Unknown'']"

definition age_group_counts :: "cell list \<Rightarrow> (string \<times> nat) list" where
  "age_group_counts c = map (\<lambda>l. (l, count_list c (Some l))) age_group_categories"

text \<open>
  Lines 137--142, \<open>print_unique_crime_descriptions\<close>: the value counts of
  \<open>Crm Cd Desc\<close> with missing values kept, and their number.
\<close>

definition unique_descriptions :: "cell list \<Rightarrow> (cell \<times> nat) list" where
  "unique_descriptions c = value_counts c"

definition total_unique_descriptions :: "cell list \<Rightarrow> nat" where
  "total_unique_descriptions c = length (unique_descriptions c)"

text \<open>Line 295: \<open>crime_df['Crime_Category'].value_counts()\<close>.\<close>

definition category_counts :: "cell list \<Rightarrow> (string \<times> nat) list" where
  "category_counts c = value_counts (present c)"

text \<open>Line 306: \<open>crime_df.head(5000)\<close>, the rows written to \<open>Output.csv\<close>.\<close>

definition export_step :: "frame \<Rightarrow> frame" where
  "export_step df = head_rows 5000 df"

section \<open>Lemmas\<close>

lemma sum_count_list_distinct:
  assumes "distinct ks" and "set xs \<subseteq> set ks"
  shows "sum_list (map (count_list xs) ks) = length xs"
proof -
  have "sum_list (map (count_list xs) ks) = (\<Sum>k\<in>set ks. count_list xs k)"
    using assms(1) by (simp add: sum_list_distinct_conv_sum_set)
  also have "\<dots> = (\<Sum>k\<in>set xs. count_list xs k)"
  proof (rule sum.mono_neutral_right)
    show "\<forall>k\<in>set ks - set xs. count_list xs k = 0" by (simp add: count_list_0_iff)
  qed (use assms(2) in auto)
  also have "\<dots> = sum_list (map (count_list xs) (remdups xs))"
    by (simp add: sum_list_distinct_conv_sum_set)
  also have "\<dots> = length xs" by (rule sum_count_list_remdups)
  finally show ?thesis .
qed

lemma age_group_cell_category: "age_group_cell a \<in> Some ` set age_group_categories"
  by (auto simp: age_group_cell_def age_group_categories_def fillna_def dest: pd_cut_Some
           split: option.splits)

lemma distinct_age_group_categories: "distinct age_group_categories"
  by (simp add: age_group_categories_def age_labels_def)

lemma crime_category_cell_label: "\<exists>l. crime_category_cell c = Some l \<and> l \<in> set category_labels"
  by (cases "Option.bind c crime_category_mapping")
     (auto simp: crime_category_cell_def fillna_def category_labels_def
           dest: crime_category_mapping_label split: option.splits)

lemma present_map_Some: "present (map Some xs) = xs"
  by (induction xs) (simp_all add: present_def List.map_filter_simps)

lemma head_rows_simps [simp]:
  "idx (head_rows k df) = take k (idx df)"
  "col_names (head_rows k df) = col_names df"
  by (simp_all add: head_rows_def col_names_def comp_def case_prod_unfold)

lemma map_of_head_rows:
  "map_of (cols (head_rows k df)) n = map_option (take k) (map_of (cols df) n)"
  by (simp add: head_rows_def map_of_map)

lemma frame_wf_head_rows: "frame_wf df \<Longrightarrow> frame_wf (head_rows k df)"
  by (auto simp: frame_wf_def n_rows_def list_all_iff head_rows_def col_names_def comp_def
                 case_prod_unfold)

lemma missing_counts_raw:
  "missing_counts (raw_as_frame rf) =
     map (\<lambda>(n, rc). (n, case rc of ObjCol c \<Rightarrow> count_list c None | IntCol xs \<Rightarrow> 0
                                 | FloatCol c \<Rightarrow> count_list c None)) (raw_cols rf)"
proof -
  have "count_list (raw_cells rc) None =
        (case rc of ObjCol c \<Rightarrow> count_list c None | IntCol xs \<Rightarrow> 0 | FloatCol c \<Rightarrow> count_list c None)" for rc
    by (cases rc) (auto simp: raw_cells_def count_list_0_iff)
  then show ?thesis by (simp add: missing_counts_def raw_as_frame_def case_prod_unfold)
qed

lemma no_null_head_rows: "no_null df \<Longrightarrow> no_null (head_rows k df)"
  unfolding no_null_def head_rows_def list_all_iff
  by (fastforce simp del: not_None_eq dest: in_set_takeD)

lemma no_null_iff_count: "no_null df \<longleftrightarrow> (\<forall>(n, c) \<in> set (cols df). count_list c None = 0)"
proof -
  have a: "(\<forall>x\<in>set c. x \<noteq> None) \<longleftrightarrow> None \<notin> set c" for c :: "cell list"
    by metis
  show ?thesis unfolding no_null_def list_all_iff count_list_0_iff a by (rule refl)
qed

lemma count_list_pos: "0 < count_list xs x \<longleftrightarrow> x \<in> set xs"
  by (induction xs) auto

section \<open>Properties of the printed reports and the export\<close>

text \<open>
  C30. The total of missing values printed before STEP 2 (line 20) is zero exactly
  when the table has no missing cell, and the columns listed (lines 22--24) are
  exactly those holding a missing cell, each with its number of missing cells.
\<close>

theorem missing_report_spec:
  "(missing_total df = 0 \<longleftrightarrow> no_null df) \<and>
   set (missing_report df) = {(n, count_list c None) | n c. (n, c) \<in> set (cols df) \<and> None \<in> set c}"
proof
  show "missing_total df = 0 \<longleftrightarrow> no_null df"
    by (auto simp: missing_total_def missing_counts_def no_null_iff_count comp_def
                   case_prod_unfold)
  show "set (missing_report df) = {(n, count_list c None) | n c. (n, c) \<in> set (cols df) \<and> None \<in> set c}"
    by (auto simp: missing_report_def missing_counts_def count_list_pos)
qed

text \<open>
  C31. The victim age group distribution printed after STEP 6 lists the eight age
  labels and \<open>Unknown\<close>, in this order, each once, and its counts add up to the
  number of rows.
\<close>

theorem age_group_report:
  "map fst (age_group_counts (map age_group_cell ages)) = age_group_categories \<and>
   sum_list (map snd (age_group_counts (map age_group_cell ages))) = length ages"
proof
  show "map fst (age_group_counts (map age_group_cell ages)) = age_group_categories"
    by (simp add: age_group_counts_def comp_def)
  have "sum_list (map snd (age_group_counts (map age_group_cell ages))) =
        sum_list (map (count_list (map age_group_cell ages)) (map Some age_group_categories))"
    by (simp add: age_group_counts_def comp_def)
  also have "\<dots> = length (map age_group_cell ages)"
    by (rule sum_count_list_distinct)
       (auto simp: distinct_map distinct_age_group_categories age_group_cell_category)
  finally show "sum_list (map snd (age_group_counts (map age_group_cell ages))) = length ages"
    by simp
qed

text \<open>
  The number of distinct crime descriptions printed before STEP 8 counts every
  distinct cell once, a missing description included, and the printed counts add up
  to the number of rows.
\<close>

theorem unique_descriptions_total:
  "total_unique_descriptions c = card (set c) \<and>
   sum_list (map snd (unique_descriptions c)) = length c"
proof
  have "length (value_counts c) = length (remdups c)"
    by (simp add: value_counts_def)
  then show "total_unique_descriptions c = card (set c)"
    by (simp add: total_unique_descriptions_def unique_descriptions_def length_remdups_card_conv)
  show "sum_list (map snd (unique_descriptions c)) = length c"
    by (simp add: unique_descriptions_def sum_value_counts)
qed

text \<open>
  The category counts printed after STEP 8 name only the six category labels,
  each once, and add up to the number of rows.
\<close>

theorem category_report:
  "set (map fst (category_counts (map crime_category_cell c))) \<subseteq> set category_labels \<and>
   distinct (map fst (category_counts (map crime_category_cell c))) \<and>
   sum_list (map snd (category_counts (map crime_category_cell c))) = length c"
proof (intro conjI)
  obtain ls where ls: "map crime_category_cell c = map Some ls" and lab: "set ls \<subseteq> set category_labels"
  proof
    show "map crime_category_cell c = map Some (map (the \<circ> crime_category_cell) c)"
      unfolding map_map
      apply (rule map_cong[OF refl])
      subgoal for x using crime_category_cell_label[of x] by auto
      done
    show "set (map (the \<circ> crime_category_cell) c) \<subseteq> set category_labels"
    proof
      fix l assume "l \<in> set (map (the \<circ> crime_category_cell) c)"
      then obtain x where "l = the (crime_category_cell x)" by auto
      then show "l \<in> set category_labels" using crime_category_cell_label[of x] by auto
    qed
  qed
  have p: "present (map crime_category_cell c) = ls" by (simp add: ls present_map_Some)
  have "length ls = length c" using arg_cong[OF ls, of length] by simp
  then show "sum_list (map snd (category_counts (map crime_category_cell c))) = length c"
    by (simp add: category_counts_def p sum_value_counts)
  show "set (map fst (category_counts (map crime_category_cell c))) \<subseteq> set category_labels"
    using lab by (auto simp: category_counts_def p set_value_counts)
  show "distinct (map fst (category_counts (map crime_category_cell c)))"
    by (simp add: category_counts_def distinct_value_counts_keys)
qed

text \<open>
  STEP 9 writes a well-formed table with the same columns, the first
  \<open>min 5000 n\<close> index labels and, in every column, its first 5000 cells.
\<close>

theorem export_head:
  assumes "frame_wf df"
  shows "frame_wf (export_step df) \<and> col_names (export_step df) = col_names df \<and>
         n_rows (export_step df) = min 5000 (n_rows df) \<and>
         idx (export_step df) = take 5000 (idx df) \<and>
         (\<forall>n. get_col (export_step df) n =
                (case get_col df n of Inl e \<Rightarrow> Inl e | Inr c \<Rightarrow> Inr (take 5000 c)))"
  using assms
  by (auto simp: export_step_def frame_wf_head_rows n_rows_def get_col_def map_of_head_rows
           split: option.splits)

theorem export_head_witness:
  "frame_wf \<lparr>idx = [3, 5], cols = [(''DR_NO'', [Some ''1'', Some ''2''])]\<rparr> \<and>
   export_step \<lparr>idx = [3, 5], cols = [(''DR_NO'', [Some ''1'', Some ''2''])]\<rparr> =
     \<lparr>idx = [3, 5], cols = [(''DR_NO'', [Some ''1'', Some ''2''])]\<rparr>"
proof -
  have wf: "frame_wf \<lparr>idx = [3, 5], cols = [(''DR_NO'', [Some ''1'', Some ''2''])]\<rparr>"
    by (simp add: frame_wf_def col_names_def n_rows_def)
  have "n_rows (export_step \<lparr>idx = [3, 5], cols = [(''DR_NO'', [Some ''1'', Some ''2''])]\<rparr>) = 2"
    using export_head[OF wf] by (simp add: n_rows_def)
  then show ?thesis using wf by (simp add: export_step_def head_rows_def)
qed

end
