(* ===== verification/Metrics.thy ===== *)
theory Metrics
  imports Complex_Main Predictive Reports
begin

text \<open>
  The evaluation part of \<open>Predictive Analysis.py\<close> (lines 58--164): the train/test
  split of STEP 4 and the scikit-learn metrics of STEP 7 computed from the test
  labels and the forest's predictions. The split order (\<open>random_state=42\<close>) is a
  permutation given as a parameter, as for the sample; the forest itself (lines
  66--76) is a library model whose predictions are taken as a parameter. Metrics
  are exact rationals; a \<open>NaN\<close> of numpy is \<open>None\<close>.
\<close>

section \<open>Definitions\<close>

text \<open>
  Line 58, \<open>train_test_split(X, y, test_size=0.3)\<close>: \<open>ceil(0.3 * n)\<close> test rows, the
  rest for training (scikit-learn's \<open>_validate_shuffle_split\<close>), \<open>ValueError\<close> when
  the lengths differ or the training set would be empty. The test rows are the first
  positions of the permutation, the training rows the next ones.
\<close>

definition n_test :: "nat \<Rightarrow> nat" where
  "n_test n = (3 * n + 9) div 10"

definition take_rows :: "nat list \<Rightarrow> (string \<times> bool list) list \<Rightarrow> (string \<times> bool list) list" where
  "take_rows ps X = map (\<lambda>(m, c). (m, map ((!) c) ps)) X"

definition train_test_split ::
  "nat list \<Rightarrow> nat \<Rightarrow> (string \<times> bool list) list \<Rightarrow> nat list \<Rightarrow>
   pd_error + ((string \<times> bool list) list \<times> (string \<times> bool list) list \<times> nat list \<times> nat list)" where
  "train_test_split perm n X y =
     (if n \<noteq> length y then Inl ValueError
      else if n - n_test n = 0 then Inl ValueError
      else (let te = take (n_test n) perm; tr = take (n - n_test n) (drop (n_test n) perm) in
            Inr (take_rows tr X, take_rows te X, map ((!) y) tr, map ((!) y) te)))"

text \<open>
  Line 88, \<open>accuracy_score\<close>: the share of equal pairs; \<open>ValueError\<close> for lengths that
  differ, \<open>NaN\<close> for empty inputs.
\<close>

definition n_correct :: "nat list \<Rightarrow> nat list \<Rightarrow> nat" where
  "n_correct yt yp = length (filter (\<lambda>(a, b). a = b) (zip yt yp))"

definition accuracy_score :: "nat list \<Rightarrow> nat list \<Rightarrow> pd_error + rat option" where
  "accuracy_score yt yp =
     (if length yt \<noteq> length yp then Inl ValueError
      else if yt = [] then Inr None
      else Inr (Some (of_nat (n_correct yt yp) / of_nat (length yt))))"

text \<open>
  Line 93, \<open>confusion_matrix\<close>: rows are the true labels, columns the predicted ones,
  both over the sorted labels occurring in either list (\<open>unique_labels\<close>).
\<close>

definition unique_labels :: "nat list \<Rightarrow> nat list \<Rightarrow> nat list" where
  "unique_labels yt yp = sorted_list_of_set (set yt \<union> set yp)"

definition confusion_matrix :: "nat list \<Rightarrow> nat list \<Rightarrow> nat list list" where
  "confusion_matrix yt yp =
     map (\<lambda>i. map (\<lambda>j. count_list (zip yt yp) (i, j)) (unique_labels yt yp)) (unique_labels yt yp)"

text \<open>
  Line 124: each row divided by its sum; numpy gives \<open>NaN\<close> for \<open>0/0\<close>, and a row
  with sum 0 holds only zeros.
\<close>

definition normalise_row :: "nat list \<Rightarrow> rat option list" where
  "normalise_row r =
     map (\<lambda>x. if sum_list r = 0 then None else Some (of_nat x / of_nat (sum_list r))) r"

definition normalise_matrix :: "nat list list \<Rightarrow> rat option list list" where
  "normalise_matrix m = map normalise_row m"

text \<open>
  Lines 85 and 107, \<open>classification_report\<close> per label: precision, recall and
  F1-score, a zero denominator giving 0 (\<open>zero_division="warn"\<close>), and the support.
\<close>

definition tp :: "nat list \<Rightarrow> nat list \<Rightarrow> nat \<Rightarrow> nat" where
  "tp yt yp l = count_list (zip yt yp) (l, l)"

definition prf_divide :: "nat \<Rightarrow> nat \<Rightarrow> rat" where
  "prf_divide a b = (if b = 0 then 0 else of_nat a / of_nat b)"

definition precision :: "nat list \<Rightarrow> nat list \<Rightarrow> nat \<Rightarrow> rat" where
  "precision yt yp l = prf_divide (tp yt yp l) (count_list yp l)"

definition recall :: "nat list \<Rightarrow> nat list \<Rightarrow> nat \<Rightarrow> rat" where
  "recall yt yp l = prf_divide (tp yt yp l) (count_list yt l)"

definition f1_score :: "nat list \<Rightarrow> nat list \<Rightarrow> nat \<Rightarrow> rat" where
  "f1_score yt yp l =
     (let p = precision yt yp l; r = recall yt yp l in if p + r = 0 then 0 else 2 * p * r / (p + r))"

record report_row =
  row_name :: string
  prec :: rat
  rec :: rat
  f1 :: rat
  support :: rat

definition mean :: "rat list \<Rightarrow> rat" where
  "mean xs = sum_list xs / of_nat (length xs)"

definition weighted :: "nat list \<Rightarrow> rat list \<Rightarrow> rat" where
  "weighted ws xs = sum_list (map (\<lambda>(w, x). of_nat w * x) (zip ws xs)) / of_nat (sum_list ws)"

text \<open>
  Lines 107--110: \<open>classification_report(..., target_names=classes, output_dict=True)\<close>
  as the rows of \<open>pd.DataFrame(report).transpose()\<close>: one row per label named by its
  class, then \<open>accuracy\<close> (the scalar broadcast over the four columns),
  \<open>macro avg\<close> and \<open>weighted avg\<close>. The labels are those of the test and predicted
  lists; when their number differs from the number of names scikit-learn raises
  \<open>ValueError\<close>.
\<close>

definition classification_report ::
  "nat list \<Rightarrow> nat list \<Rightarrow> string list \<Rightarrow> pd_error + report_row list" where
  "classification_report yt yp names =
     (let ls = unique_labels yt yp in
      if length ls \<noteq> length names \<or> length yt \<noteq> length yp \<or> yt = [] then Inl ValueError
      else (let ps = map (precision yt yp) ls; rs = map (recall yt yp) ls;
                fs = map (f1_score yt yp) ls; ss = map (count_list yt) ls;
                acc = of_nat (n_correct yt yp) / of_nat (length yt) in
            Inr (map (\<lambda>(n, l). \<lparr>row_name = n, prec = precision yt yp l, rec = recall yt yp l,
                                 f1 = f1_score yt yp l, support = of_nat (count_list yt l)\<rparr>)
                     (zip names ls) @
                 [\<lparr>row_name = ''accuracy'', prec = acc, rec = acc, f1 = acc, support = acc\<rparr>,
                  \<lparr>row_name = ''macro avg'', prec = mean ps, rec = mean rs, f1 = mean fs,
                     support = of_nat (length yt)\<rparr>,
                  \<lparr>row_name = ''weighted avg'', prec = weighted ss ps, rec = weighted ss rs,
                     f1 = weighted ss fs, support = of_nat (length yt)\<rparr>])))"

text \<open>Line 114, \<open>report_df.iloc[:-1, :3]\<close>: every row but the last, three columns.\<close>

definition report_heatmap :: "report_row list \<Rightarrow> (string \<times> rat list) list" where
  "report_heatmap rows = map (\<lambda>r. (row_name r, [prec r, rec r, f1 r])) (butlast rows)"

text \<open>Line 143, \<open>report_df.loc[classes, 'f1-score']\<close>.\<close>

definition f1_scores :: "report_row list \<Rightarrow> string list \<Rightarrow> pd_error + rat list" where
  "f1_scores rows names =
     (case filter (\<lambda>n. n \<notin> set (map row_name rows)) names of
        m # _ \<Rightarrow> Inl (KeyError m)
      | [] \<Rightarrow> Inr (map (\<lambda>n. f1 (the (map_of (map (\<lambda>r. (row_name r, r)) rows) n))) names))"

text \<open>Line 164, \<open>crime_df_sampled['AREA NAME'].value_counts()\<close>, missing names dropped.\<close>

definition area_counts :: "frame \<Rightarrow> pd_error + (string \<times> nat) list" where
  "area_counts s = bindE (get_col s ''AREA NAME'') (\<lambda>c. Inr (value_counts (present c)))"

section \<open>Lemmas\<close>

lemma count_list_map_filter_len: "count_list (map f zs) x = length (filter (\<lambda>p. f p = x) zs)"
  by (induction zs) auto

lemma count_list_pair: "count_list zs (i, j) = count_list (map snd (filter (\<lambda>p. fst p = i) zs)) j"
  by (induction zs) auto

lemma count_list_diag:
  "count_list zs (l, l) = count_list (map fst (filter (\<lambda>(a, b). a = b) zs)) l"
  by (induction zs) auto

lemma set_unique_labels: "set (unique_labels yt yp) = set yt \<union> set yp"
  by (simp add: unique_labels_def)

lemma distinct_unique_labels: "distinct (unique_labels yt yp)"
  by (simp add: unique_labels_def)

lemma confusion_row_sum:
  assumes "length yt = length yp"
  shows "sum_list (map (\<lambda>j. count_list (zip yt yp) (i, j)) (unique_labels yt yp)) = count_list yt i"
proof -
  have "sum_list (map (\<lambda>j. count_list (zip yt yp) (i, j)) (unique_labels yt yp)) =
        sum_list (map (count_list (map snd (filter (\<lambda>p. fst p = i) (zip yt yp)))) (unique_labels yt yp))"
    by (simp add: count_list_pair)
  also have "\<dots> = length (map snd (filter (\<lambda>p. fst p = i) (zip yt yp)))"
    by (rule sum_count_list_distinct[OF distinct_unique_labels])
       (auto simp: set_unique_labels dest: set_zip_rightD)
  also have "\<dots> = count_list (map fst (zip yt yp)) i"
    by (simp add: count_list_map_filter_len)
  finally show ?thesis using assms by simp
qed

lemma confusion_total:
  assumes "length yt = length yp"
  shows "sum_list (map sum_list (confusion_matrix yt yp)) = length yt"
proof -
  have "sum_list (map sum_list (confusion_matrix yt yp)) = sum_list (map (count_list yt) (unique_labels yt yp))"
    by (simp add: confusion_matrix_def comp_def confusion_row_sum[OF assms])
  also have "\<dots> = length yt"
    by (rule sum_count_list_distinct[OF distinct_unique_labels]) (auto simp: set_unique_labels)
  finally show ?thesis .
qed

lemma confusion_trace:
  "sum_list (map (\<lambda>k. confusion_matrix yt yp ! k ! k) [0..<length (confusion_matrix yt yp)]) = n_correct yt yp"
proof -
  let ?ls = "unique_labels yt yp"
  have "map (\<lambda>k. confusion_matrix yt yp ! k ! k) [0..<length (confusion_matrix yt yp)] =
        map (\<lambda>l. count_list (zip yt yp) (l, l)) ?ls"
    by (rule nth_equalityI) (simp_all add: confusion_matrix_def)
  then have "sum_list (map (\<lambda>k. confusion_matrix yt yp ! k ! k) [0..<length (confusion_matrix yt yp)]) =
             sum_list (map (count_list (map fst (filter (\<lambda>(a, b). a = b) (zip yt yp)))) ?ls)"
    by (simp add: count_list_diag)
  also have "\<dots> = length (map fst (filter (\<lambda>(a, b). a = b) (zip yt yp)))"
    by (rule sum_count_list_distinct[OF distinct_unique_labels])
       (auto simp: set_unique_labels dest: set_zip_leftD)
  finally show ?thesis by (simp add: n_correct_def)
qed

lemma sum_list_div: "sum_list (map (\<lambda>x. of_nat x / c) xs) = of_nat (sum_list xs) / (c :: rat)"
  by (induction xs) (simp_all add: add_divide_distrib)

lemma count_list_pair_le: "count_list zs (i, j) \<le> count_list (map snd zs) j"
  by (induction zs) auto

lemma count_list_pair_le_fst: "count_list zs (i, j) \<le> count_list (map fst zs) i"
  by (induction zs) auto

lemma tp_le:
  assumes "length yt = length yp"
  shows "tp yt yp l \<le> count_list yt l" "tp yt yp l \<le> count_list yp l"
  using count_list_pair_le_fst[of "zip yt yp" l l] count_list_pair_le[of "zip yt yp" l l] assms
  by (simp_all add: tp_def)

lemma harmonic_counts:
  fixes t a b :: rat
  assumes "0 < t" "0 < a" "0 < b"
  shows "2 * (t / b) * (t / a) / (t / b + t / a) = 2 * t / (a + b)"
proof -
  have ab: "a * b \<noteq> 0" "a + b \<noteq> 0" "t \<noteq> 0" using assms by simp_all
  have e1: "2 * (t / b) * (t / a) = (2 * t * t) / (a * b)" using ab by (simp add: field_simps)
  have e2: "t / b + t / a = (t * (a + b)) / (a * b)" using ab by (simp add: field_simps)
  have e3: "(2 * t * t) / (a * b) / ((t * (a + b)) / (a * b)) = (2 * t * t) / (t * (a + b))"
    using ab by simp
  have e4: "(2 * t * t) / (t * (a + b)) = 2 * t / (a + b)"
    using ab by (simp add: mult.commute[of 2 t] mult.assoc)
  show ?thesis unfolding e1 e2 e3 e4 ..
qed

text \<open>
  C38. The F1-score of a label, computed as the harmonic mean of precision and recall
  with 0 for a zero denominator, equals scikit-learn's \<open>2 tp / (2 tp + fp + fn)\<close>,
  the true positives over the mean of the label's true and predicted counts, again
  0 when that denominator is 0.
\<close>

theorem f1_score_counts:
  assumes "length yt = length yp"
  shows "f1_score yt yp l = prf_divide (2 * tp yt yp l) (count_list yt l + count_list yp l)"
proof (cases "tp yt yp l = 0")
  case True
  then show ?thesis
    by (simp add: f1_score_def precision_def recall_def prf_divide_def)
next
  case False
  let ?t = "tp yt yp l" and ?a = "count_list yt l" and ?b = "count_list yp l"
  have pos: "0 < ?a" "0 < ?b" using tp_le[OF assms, of l] False by linarith+
  have "f1_score yt yp l = 2 * (of_nat ?t / of_nat ?b) * (of_nat ?t / of_nat ?a) /
                           (of_nat ?t / of_nat ?b + of_nat ?t / of_nat ?a)"
    using pos False by (simp add: f1_score_def precision_def recall_def prf_divide_def Let_def)
  also have "\<dots> = 2 * of_nat ?t / (of_nat ?a + of_nat ?b)"
    by (rule harmonic_counts) (use pos False in simp_all)
  finally show ?thesis using pos by (simp add: prf_divide_def)
qed

lemma confusion_row:
  "k < length (unique_labels yt yp) \<Longrightarrow>
   confusion_matrix yt yp ! k = map (\<lambda>j. count_list (zip yt yp) (unique_labels yt yp ! k, j)) (unique_labels yt yp)"
  by (simp add: confusion_matrix_def)

text \<open>
  C37. The confusion matrix of a non-empty test set counts every test row once, its row
  for a label sums to the label's support, and the accuracy printed at line 89 is the
  matrix's diagonal over its total.
\<close>

theorem confusion_matrix_accuracy:
  assumes "length yt = length yp" and "yt \<noteq> []"
  shows "sum_list (map sum_list (confusion_matrix yt yp)) = length yt \<and>
    (\<forall>k < length (confusion_matrix yt yp).
       sum_list (confusion_matrix yt yp ! k) = count_list yt (unique_labels yt yp ! k)) \<and>
    accuracy_score yt yp =
      Inr (Some (of_nat (sum_list (map (\<lambda>k. confusion_matrix yt yp ! k ! k) [0..<length (confusion_matrix yt yp)])) /
                 of_nat (sum_list (map sum_list (confusion_matrix yt yp)))))"
proof (intro conjI allI impI)
  show "sum_list (map sum_list (confusion_matrix yt yp)) = length yt" by (rule confusion_total[OF assms(1)])
  fix k assume "k < length (confusion_matrix yt yp)"
  then show "sum_list (confusion_matrix yt yp ! k) = count_list yt (unique_labels yt yp ! k)"
    by (simp add: confusion_matrix_def confusion_row_sum[OF assms(1)])
next
  show "accuracy_score yt yp =
      Inr (Some (of_nat (sum_list (map (\<lambda>k. confusion_matrix yt yp ! k ! k) [0..<length (confusion_matrix yt yp)])) /
                 of_nat (sum_list (map sum_list (confusion_matrix yt yp)))))"
    using assms by (simp add: accuracy_score_def confusion_trace confusion_total)
qed

text \<open>
  C19. In the normalised matrix of line 124 the row of a label with test rows sums to 1;
  the row of a label that only the predictions contain is all \<open>NaN\<close>.
\<close>

theorem normalised_confusion_rows:
  assumes "length yt = length yp" and "k < length (unique_labels yt yp)"
  shows "(0 < count_list yt (unique_labels yt yp ! k) \<longrightarrow>
            None \<notin> set (normalise_matrix (confusion_matrix yt yp) ! k) \<and>
            sum_list (map the (normalise_matrix (confusion_matrix yt yp) ! k)) = 1) \<and>
         (count_list yt (unique_labels yt yp ! k) = 0 \<longrightarrow>
            set (normalise_matrix (confusion_matrix yt yp) ! k) = {None})"
proof -
  let ?r = "confusion_matrix yt yp ! k"
  have n: "normalise_matrix (confusion_matrix yt yp) ! k = normalise_row ?r"
    using assms(2) by (simp add: normalise_matrix_def confusion_matrix_def)
  have s: "sum_list ?r = count_list yt (unique_labels yt yp ! k)"
    using assms by (simp add: confusion_row confusion_row_sum)
  have ne: "?r \<noteq> []" using assms(2) by (auto simp: confusion_row)
  show ?thesis
  proof (intro conjI impI)
    assume p: "0 < count_list yt (unique_labels yt yp ! k)"
    then show "None \<notin> set (normalise_matrix (confusion_matrix yt yp) ! k)"
      by (auto simp: n s normalise_row_def)
    have "map the (normalise_row ?r) = map (\<lambda>x. of_nat x / of_nat (sum_list ?r)) ?r"
      using p s by (simp add: normalise_row_def)
    then show "sum_list (map the (normalise_matrix (confusion_matrix yt yp) ! k)) = 1"
      using p s by (simp add: n sum_list_div)
  next
    assume "count_list yt (unique_labels yt yp ! k) = 0"
    then show "set (normalise_matrix (confusion_matrix yt yp) ! k) = {None}"
      using ne by (simp add: n s normalise_row_def image_constant_conv)
  qed
qed

lemma classification_report_Inr:
  assumes "length (unique_labels yt yp) = length names" "length yt = length yp" "yt \<noteq> []"
  shows "\<exists>extra. classification_report yt yp names =
     Inr (map (\<lambda>(n, l). \<lparr>row_name = n, prec = precision yt yp l, rec = recall yt yp l,
                         f1 = f1_score yt yp l, support = of_nat (count_list yt l)\<rparr>)
              (zip names (unique_labels yt yp)) @ extra) \<and>
     map row_name extra = [''accuracy'', ''macro avg'', ''weighted avg'']"
  using assms by (simp add: classification_report_def Let_def)

lemma map_of_rows_nth:
  assumes "length ls = length names" "distinct names" "i < length names"
  shows "map_of (map (\<lambda>r. (row_name r, r))
           (map (\<lambda>(n, l). \<lparr>row_name = n, prec = P l, rec = Q l, f1 = F l, support = S l\<rparr>) (zip names ls) @ extra))
           (names ! i) = Some \<lparr>row_name = names ! i, prec = P (ls ! i), rec = Q (ls ! i), f1 = F (ls ! i), support = S (ls ! i)\<rparr>"
proof -
  let ?rows = "map (\<lambda>(n, l). \<lparr>row_name = n, prec = P l, rec = Q l, f1 = F l, support = S l\<rparr>) (zip names ls)"
  have z: "map (\<lambda>r. (row_name r, r)) ?rows = zip names ?rows"
    using assms(1) by (intro nth_equalityI) auto
  have "map_of (zip names ?rows) (names ! i) = Some (?rows ! i)"
    using assms by (intro map_of_zip_nth) auto
  then show ?thesis using assms(1,3) by (simp add: z del: map_map)
qed

lemma report_heatmap_names: "map fst (report_heatmap rows) = butlast (map row_name rows)"
  by (simp add: report_heatmap_def map_butlast[symmetric] comp_def)

text \<open>
  C39. When the test and predicted labels are exactly as many as the class names, the
  report exists, the heatmap of lines 113--114 shows the class rows followed by the
  rows \<open>accuracy\<close> and \<open>macro avg\<close> (only \<open>weighted avg\<close> is cut), and the F1
  scores charted at line 143 are those of the labels in class order.
\<close>

theorem classification_report_rows:
  assumes "length (unique_labels yt yp) = length names" and "length yt = length yp" and "yt \<noteq> []"
    and "distinct names"
  shows "\<exists>rows. classification_report yt yp names = Inr rows \<and>
     map fst (report_heatmap rows) = names @ [''accuracy'', ''macro avg''] \<and>
     f1_scores rows names = Inr (map (f1_score yt yp) (unique_labels yt yp))"
proof -
  let ?ls = "unique_labels yt yp"
  let ?rows = "map (\<lambda>(n, l). \<lparr>row_name = n, prec = precision yt yp l, rec = recall yt yp l,
                         f1 = f1_score yt yp l, support = of_nat (count_list yt l)\<rparr>) (zip names ?ls)"
  obtain extra where r: "classification_report yt yp names = Inr (?rows @ extra)"
    and e: "map row_name extra = [''accuracy'', ''macro avg'', ''weighted avg'']"
    using classification_report_Inr[OF assms(1-3)] by (elim exE conjE)
  have ln: "map row_name ?rows = names" using assms(1) by (intro nth_equalityI) auto
  have h: "map fst (report_heatmap (?rows @ extra)) = names @ [''accuracy'', ''macro avg'']"
  proof -
    have "map fst (report_heatmap (?rows @ extra)) = butlast (map row_name (?rows @ extra))"
      by (rule report_heatmap_names)
    then show ?thesis using ln e by (simp add: butlast_append)
  qed
  have f: "f1_scores (?rows @ extra) names = Inr (map (f1_score yt yp) ?ls)"
  proof -
    have "filter (\<lambda>n. n \<notin> set (map row_name (?rows @ extra))) names = []"
      using ln by (simp add: filter_empty_conv)
    moreover have "map (\<lambda>n. f1 (the (map_of (map (\<lambda>r. (row_name r, r)) (?rows @ extra)) n))) names =
                   map (f1_score yt yp) ?ls"
      using assms(1,4) by (intro nth_equalityI) (simp_all add: map_of_rows_nth del: map_append map_map map_of_append)
    ultimately show ?thesis by (simp add: f1_scores_def)
  qed
  show ?thesis using r h f by blast
qed

text \<open>
  C40. When some class of the label encoder occurs neither among the test labels nor
  among the predictions, \<open>classification_report\<close> with \<open>target_names\<close> raises
  \<open>ValueError\<close> (line 85) and the script stops.
\<close>

theorem classification_report_missing_class:
  assumes "set yt \<union> set yp \<subseteq> {..<length names}" and "set yt \<union> set yp \<noteq> {..<length names}"
  shows "classification_report yt yp names = Inl ValueError"
proof -
  have "card (set yt \<union> set yp) < card {..<length names}"
    using assms by (intro psubset_card_mono) auto
  then have "length (unique_labels yt yp) \<noteq> length names" by (simp add: unique_labels_def)
  then show ?thesis by (simp add: classification_report_def)
qed

lemma mset_map_perm:
  assumes "distinct perm" "set perm = {..<length y}"
  shows "mset (map ((!) y) perm) = mset y"
proof -
  have "set perm = set [0..<length y]" using assms(2) by (simp add: atLeast0LessThan)
  then have "mset perm = mset [0..<length y]"
    using set_eq_iff_mset_eq_distinct[of perm "[0..<length y]"] assms(1) distinct_upt by blast
  then have "mset (map ((!) y) perm) = mset (map ((!) y) [0..<length y])"
    by (metis mset_map)
  then show ?thesis by (simp add: map_nth)
qed

text \<open>
  C36. For \<open>n\<close> rows and a permutation of them with a non-empty training part, the split
  takes \<open>ceil(0.3 n)\<close> test rows from the front of the permutation and the rest for
  training, rows of \<open>X\<close> and \<open>y\<close> alike, and the two label lists together are the
  labels of \<open>y\<close>, as a multiset.
\<close>

theorem train_test_split_partition:
  assumes "distinct perm" and "set perm = {..<n}" and "length y = n" and "n_test n < n"
  shows "\<exists>Xtr Xte ytr yte. train_test_split perm n X y = Inr (Xtr, Xte, ytr, yte) \<and>
     Xtr = take_rows (drop (n_test n) perm) X \<and> Xte = take_rows (take (n_test n) perm) X \<and>
     ytr = map ((!) y) (drop (n_test n) perm) \<and> yte = map ((!) y) (take (n_test n) perm) \<and>
     length yte = n_test n \<and> length ytr = n - n_test n \<and> mset ytr + mset yte = mset y"
proof -
  have lp: "length perm = n" using distinct_card[OF assms(1)] assms(2) by simp
  have td: "take (n - n_test n) (drop (n_test n) perm) = drop (n_test n) perm" using lp by simp
  have "mset (map ((!) y) (drop (n_test n) perm)) + mset (map ((!) y) (take (n_test n) perm)) =
        mset (map ((!) y) perm)"
    by (metis append_take_drop_id map_append mset_append add.commute)
  also have "\<dots> = mset y" using mset_map_perm[of perm y] assms by simp
  finally show ?thesis using assms lp by (simp add: train_test_split_def Let_def td)
qed

theorem f1_score_counts_witness:
  "length [0, 1, 1 :: nat] = length [0, 1, 0 :: nat] \<and> f1_score [0, 1, 1] [0, 1, 0] 1 = 2 / 3"
  using f1_score_counts[of "[0, 1, 1]" "[0, 1, 0]" 1] by (simp add: prf_divide_def tp_def)

theorem confusion_matrix_accuracy_witness:
  "length [0, 1, 2, 1, 0 :: nat] = length [0, 2, 2, 1, 1 :: nat] \<and> [0, 1, 2, 1, 0 :: nat] \<noteq> [] \<and>
   accuracy_score [0, 1, 2, 1, 0] [0, 2, 2, 1, 1] = Inr (Some (3 / 5))"
proof -
  have u: "unique_labels [0, 1, 2, 1, 0] [0, 2, 2, 1, 1] = [0, 1, 2]" by code_simp
  have c: "confusion_matrix [0, 1, 2, 1, 0] [0, 2, 2, 1, 1] = [[1, 1, 0], [0, 1, 1], [0, 0, 1]]"
    by code_simp
  show ?thesis
    using confusion_matrix_accuracy[of "[0, 1, 2, 1, 0]" "[0, 2, 2, 1, 1]", unfolded c u]
    by simp
qed

theorem normalised_confusion_rows_witness:
  "length [0, 1, 2, 1, 0 :: nat] = length [0, 2, 2, 1, 1 :: nat] \<and>
   0 < length (unique_labels [0, 1, 2, 1, 0] [0, 2, 2, 1, 1]) \<and>
   sum_list (map the (normalise_matrix (confusion_matrix [0, 1, 2, 1, 0] [0, 2, 2, 1, 1]) ! 0)) = 1"
proof -
  have u: "unique_labels [0, 1, 2, 1, 0] [0, 2, 2, 1, 1] = [0, 1, 2]" by code_simp
  have c: "confusion_matrix [0, 1, 2, 1, 0] [0, 2, 2, 1, 1] = [[1, 1, 0], [0, 1, 1], [0, 0, 1]]"
    by code_simp
  show ?thesis
    using normalised_confusion_rows[of "[0, 1, 2, 1, 0]" "[0, 2, 2, 1, 1]" 0, unfolded c u]
    unfolding c u by (simp add: normalise_matrix_def normalise_row_def)
qed

theorem classification_report_rows_witness:
  "length (unique_labels [0, 1, 2, 1, 0] [0, 2, 2, 1, 1]) = length [''a'', ''b'', ''c''] \<and>
   length [0, 1, 2, 1, 0 :: nat] = length [0, 2, 2, 1, 1 :: nat] \<and> [0, 1, 2, 1, 0 :: nat] \<noteq> [] \<and>
   distinct [''a'', ''b'', ''c''] \<and>
   (\<exists>rows. classification_report [0, 1, 2, 1, 0] [0, 2, 2, 1, 1] [''a'', ''b'', ''c''] = Inr rows \<and>
      map fst (report_heatmap rows) = [''a'', ''b'', ''c'', ''accuracy'', ''macro avg''])"
proof -
  have u: "unique_labels [0, 1, 2, 1, 0] [0, 2, 2, 1, 1] = [0, 1, 2]" by code_simp
  have c: "confusion_matrix [0, 1, 2, 1, 0] [0, 2, 2, 1, 1] = [[1, 1, 0], [0, 1, 1], [0, 0, 1]]"
    by code_simp
  show ?thesis
    using classification_report_rows[of "[0, 1, 2, 1, 0]" "[0, 2, 2, 1, 1]" "[''a'', ''b'', ''c'']", unfolded u]
    unfolding u by auto
qed

theorem classification_report_missing_class_witness:
  "set [0, 0 :: nat] \<union> set [0, 1] \<subseteq> {..<length [''a'', ''b'', ''c'']} \<and>
   set [0, 0 :: nat] \<union> set [0, 1] \<noteq> {..<length [''a'', ''b'', ''c'']} \<and>
   classification_report [0, 0] [0, 1] [''a'', ''b'', ''c''] = Inl ValueError"
  using classification_report_missing_class[of "[0, 0]" "[0, 1]" "[''a'', ''b'', ''c'']"]
  by (auto simp: lessThan_Suc)

theorem train_test_split_partition_witness:
  "distinct [2, 0, 3, 1 :: nat] \<and> set [2, 0, 3, 1 :: nat] = {..<4} \<and> length [5, 6, 7, 8 :: nat] = 4 \<and>
   n_test 4 < 4 \<and>
   train_test_split [2, 0, 3, 1] 4 [] [5, 6, 7, 8] = Inr ([], [], [8, 6], [7, 5])"
proof -
  have s: "set [2, 0, 3, 1 :: nat] = {..<4}" by (auto simp: lessThan_nat_numeral)
  show ?thesis
    using train_test_split_partition[of "[2, 0, 3, 1]" 4 "[5, 6, 7, 8]" "[]", OF _ s]
    unfolding s by (simp add: n_test_def take_rows_def)
qed

end
