(* ===== verification/Eda.thy ===== *)
theory Eda
  imports Complex_Main Reports Dates "HOL-Library.Product_Lexorder"
begin

text \<open>
  \<open>EDA Pipeline.py\<close> on the canonical table read back from the pickle: the missing
  value summary (lines 36--42), the data behind the charts (the orders and top
  values passed to the count plots, lines 112--219), the monthly series of line 101,
  the weekday counts of lines 188--190 and the yearly counts with their
  year-over-year change (lines 234--243). \<open>DATE OCC\<close> holds the \<open>MM/DD/YYYY\<close> texts
  written by STEP 4 (or \<open>Unknown\<close>), so \<open>to_datetime\<close> infers \<open>%m/%d/%Y\<close> and reads
  each value as midnight of its date; line 234 applies \<open>to_datetime\<close> to the already
  parsed column, which leaves it unchanged, so the model parses once. Percentages are
  computed exactly in the rationals; floating point rounding is not modelled, nor is
  the plotting. \<open>describe\<close> and \<open>info\<close> (lines 23--32) print dtype-dependent
  summaries that are output only. Every column of the canonical table holds text
  (STEP 2 turns every non-text column into text, and the later steps add text or
  categorical columns), so \<open>select_dtypes\<close> (lines 50 and 64) finds no numerical
  column and every column categorical: the model of lines 64--70 ranges over all
  columns.
\<close>

section \<open>Definitions\<close>

text \<open>Line 18, \<open>crime_df.shape\<close>.\<close>

definition eda_shape :: "frame \<Rightarrow> nat \<times> nat" where
  "eda_shape df = (n_rows df, length (cols df))"


text \<open>Lines 36--37: the columns with missing values, most first.\<close>

definition eda_missing :: "frame \<Rightarrow> (string \<times> nat) list" where
  "eda_missing df = sort_key (\<lambda>p. - int (snd p)) (missing_report df)"

text \<open>Lines 39--42: the branch taken.\<close>

datatype missing_summary = No_missing | Missing_values "(string \<times> nat) list"

definition eda_missing_summary :: "frame \<Rightarrow> missing_summary" where
  "eda_missing_summary df = (if eda_missing df = [] then No_missing else Missing_values (eda_missing df))"

text \<open>
  Line 100: \<open>to_datetime(errors='coerce')\<close> of a \<open>%m/%d/%Y\<close> text: midnight of the
  date, if the date exists and midnight is in the \<open>Timestamp\<close> range.
\<close>

definition mk_date :: "nat \<Rightarrow> nat \<Rightarrow> nat \<Rightarrow> timestamp option" where
  "mk_date y m d =
     (let t = \<lparr>ts_year = y, ts_month = m, ts_day = d, ts_hour = 0, ts_minute = 0, ts_second = 0\<rparr>
      in if 1 \<le> y \<and> d \<le> days_in_month y m \<and> in_ns_range t then Some t else None)"

definition pd_to_datetime_mdy :: "string \<Rightarrow> timestamp option" where
  "pd_to_datetime_mdy s =
     (case split_char CHR ''/'' s of None \<Rightarrow> None | Some (mt, r1) \<Rightarrow>
     (case split_char CHR ''/'' r1 of None \<Rightarrow> None | Some (dt, yt) \<Rightarrow>
     (case (re_1_12 mt, re_day dt, re_year yt) of
        (Some m, Some d, Some y) \<Rightarrow> mk_date y m d
      | _ \<Rightarrow> None)))"

definition eda_dates :: "cell list \<Rightarrow> timestamp option list" where
  "eda_dates c = map (\<lambda>x. Option.bind x pd_to_datetime_mdy) c"

text \<open>Line 101: \<open>dt.to_period('M').value_counts().sort_index()\<close>.\<close>

definition month_counts :: "timestamp option list \<Rightarrow> ((nat \<times> nat) \<times> nat) list" where
  "month_counts ds =
     sort_key fst (value_counts (List.map_filter (map_option (\<lambda>t. (ts_year t, ts_month t))) ds))"

text \<open>Lines 237--240: \<open>dt.year\<close>, then \<open>value_counts().sort_index()\<close>.\<close>

definition yearly_counts :: "timestamp option list \<Rightarrow> (nat \<times> nat) list" where
  "yearly_counts ds = sort_key fst (value_counts (List.map_filter (map_option ts_year) ds))"

text \<open>
  Line 243: \<open>pct_change()\<close>, the first value \<open>NaN\<close>, then \<open>x\<^sub>i / x\<^sub>i\<^sub>-\<^sub>1 - 1\<close> (a zero
  divisor gives no finite value, \<open>None\<close>), times 100.
\<close>

definition pct_change :: "nat list \<Rightarrow> rat option list" where
  "pct_change xs =
     (case xs of [] \<Rightarrow> []
      | x # ys \<Rightarrow> None # map (\<lambda>(a, b). if a = 0 then None else Some (of_nat b / of_nat a - 1))
                              (zip xs ys))"

definition yearly_pct_change :: "nat list \<Rightarrow> rat option list" where
  "yearly_pct_change xs = map (map_option (\<lambda>p. p * 100)) (pct_change xs)"

text \<open>Lines 188--190: the weekday counts reindexed to a fixed order, \<open>NaN\<close> for an absent day.\<close>

definition day_order :: "string list" where
  "day_order = day_names @ [''Unknown'']"

definition day_counts :: "cell list \<Rightarrow> nat option list" where
  "day_counts c = map (map_of (value_counts (present c))) day_order"

text \<open>
  The orders of the count plots: \<open>value_counts().index\<close> of a column, its first ten
  (lines 112 and 219) and the five largest counts (line 172). \<open>Vict Age Group\<close> is
  categorical, so its \<open>value_counts\<close> (line 134) lists every category, an unused one
  with count 0.
\<close>

definition col_order :: "string \<Rightarrow> frame \<Rightarrow> pd_error + string list" where
  "col_order n df = bindE (get_col df n) (\<lambda>c. Inr (map fst (value_counts (present c))))"

definition top_descriptions :: "frame \<Rightarrow> pd_error + string list" where
  "top_descriptions df = bindE (get_col df ''Crm Cd Desc'') (\<lambda>c. Inr (top_values 10 (present c)))"

definition age_group_order :: "frame \<Rightarrow> pd_error + string list" where
  "age_group_order df =
     bindE (get_col df ''Vict Age Group'') (\<lambda>c.
       Inr (map fst (sort_key (\<lambda>p. - int (snd p)) (age_group_counts c))))"

definition sex_order :: "frame \<Rightarrow> pd_error + string list" where
  "sex_order df = col_order ''Vict Sex'' df"

definition category_order :: "frame \<Rightarrow> pd_error + string list" where
  "category_order df = col_order ''Crime_Category'' df"

definition top_areas :: "frame \<Rightarrow> pd_error + (string \<times> nat) list" where
  "top_areas df = bindE (get_col df ''AREA NAME'') (\<lambda>c. Inr (take 5 (value_counts (present c))))"

definition area_order :: "frame \<Rightarrow> pd_error + string list" where
  "area_order df = bindE (get_col df ''AREA NAME'') (\<lambda>c. Inr (top_values 10 (present c)))"

text \<open>Midnight of a timestamp's date, the value the re-parse denotes.\<close>

definition midnight :: "timestamp \<Rightarrow> timestamp" where
  "midnight t = t\<lparr>ts_hour := 0, ts_minute := 0, ts_second := 0\<rparr>"

section \<open>Lemmas\<close>

lemma pd_to_datetime_mdy_text:
  assumes "valid_date y m d" and "y < 10000"
  shows "pd_to_datetime_mdy (fixed_digits 2 m @ ''/'' @ fixed_digits 2 d @ ''/'' @ fixed_digits 4 y) =
         mk_date y m d"
proof -
  have "1 \<le> m" "m \<le> 12" "1 \<le> d" "d \<le> 31"
    using assms(1) days_in_month_le[of y m] by (auto simp: valid_date_def)
  with assms(2) show ?thesis
    by (simp add: pd_to_datetime_mdy_def split_char_append re_1_12_fixed re_day_fixed re_year_fixed)
qed

lemma mk_date_midnight:
  assumes "valid_fields t"
  shows "mk_date (ts_year t) (ts_month t) (ts_day t) =
         (if in_ns_range (midnight t) then Some (midnight t) else None)"
proof -
  obtain y m d h mi sec where t: "t = \<lparr>ts_year = y, ts_month = m, ts_day = d, ts_hour = h,
                                        ts_minute = mi, ts_second = sec\<rparr>"
    by (cases t) simp
  with assms show ?thesis
    by (simp add: mk_date_def midnight_def valid_fields_def valid_date_def Let_def)
qed

lemma strftime_mdy_fixed:
  assumes "valid_fields t" and "1000 \<le> ts_year t"
  shows "strftime_mdy t = fixed_digits 2 (ts_month t) @ ''/'' @ fixed_digits 2 (ts_day t) @ ''/'' @
                          fixed_digits 4 (ts_year t)"
proof -
  have "show_nat (ts_year t) = fixed_digits 4 (ts_year t)"
    using assms by (intro show_nat_fixed) (simp_all add: valid_fields_def)
  then show ?thesis by (simp add: strftime_mdy_def)
qed

lemma dt_text_Some: "\<exists>v. dt_text f c = Some v"
  by (simp add: dt_text_def fillna_def split: option.splits)

lemma present_map_total:
  assumes "\<And>x. f x \<noteq> None"
  shows "present (map f c) = map (the \<circ> f) c"
proof -
  have eq: "map f c = map Some (map (the \<circ> f) c)"
    unfolding map_map by (rule map_cong[OF refl]) (use assms in auto)
  show ?thesis by (subst eq) (rule present_map_Some)
qed

lemma day_text_mem: "the (dt_text day_name c) \<in> set day_order"
  using dt_text_cases[of day_name c] day_name_mem by (auto simp: day_order_def)

lemma distinct_day_order: "distinct day_order"
  by (simp add: day_order_def day_names_def)

lemma step4_date_text:
  assumes "valid_fields t" and "in_ns_range t" and "1000 \<le> ts_year t"
  shows "dt_text strftime_mdy (Some (lapd_text t)) =
           Some (fixed_digits 2 (ts_month t) @ ''/'' @ fixed_digits 2 (ts_day t) @ ''/'' @
                 fixed_digits 4 (ts_year t))"
  using pd_to_datetime_lapd_text[OF assms(1)] assms(2) strftime_mdy_fixed[OF assms(1,3)]
  by (simp add: dt_text_def to_datetime_cell_def fillna_def)

section \<open>Properties of the exploratory analysis\<close>

text \<open>
  C26. The exploratory script reads back the date STEP 4 wrote: for a valid
  occurrence timestamp in the \<open>Timestamp\<close> range, \<open>to_datetime\<close> of its
  \<open>MM/DD/YYYY\<close> text is midnight of the same date, provided midnight is itself in
  range.
\<close>

theorem eda_date_roundtrip:
  assumes "valid_fields t" and "in_ns_range t" and "1000 \<le> ts_year t"
  shows "Option.bind (dt_text strftime_mdy (Some (lapd_text t))) pd_to_datetime_mdy =
           (if in_ns_range (midnight t) then Some (midnight t) else None)"
proof -
  have "valid_date (ts_year t) (ts_month t) (ts_day t)" "ts_year t < 10000"
    using assms(1) by (simp_all add: valid_fields_def)
  then show ?thesis
    using step4_date_text[OF assms] pd_to_datetime_mdy_text mk_date_midnight[OF assms(1)] by simp
qed

theorem eda_date_roundtrip_witness:
  "valid_fields \<lparr>ts_year = 2020, ts_month = 1, ts_day = 8, ts_hour = 13, ts_minute = 45, ts_second = 0\<rparr> \<and>
   in_ns_range \<lparr>ts_year = 2020, ts_month = 1, ts_day = 8, ts_hour = 13, ts_minute = 45, ts_second = 0\<rparr> \<and>
   1000 \<le> ts_year \<lparr>ts_year = 2020, ts_month = 1, ts_day = 8, ts_hour = 13, ts_minute = 45, ts_second = 0\<rparr> \<and>
   Option.bind (dt_text strftime_mdy (Some (lapd_text \<lparr>ts_year = 2020, ts_month = 1, ts_day = 8, ts_hour = 13, ts_minute = 45, ts_second = 0\<rparr>))) pd_to_datetime_mdy =
     Some \<lparr>ts_year = 2020, ts_month = 1, ts_day = 8, ts_hour = 0, ts_minute = 0, ts_second = 0\<rparr>"
proof -
  have h1: "valid_fields \<lparr>ts_year = 2020, ts_month = 1, ts_day = 8, ts_hour = 13, ts_minute = 45, ts_second = 0\<rparr>"
    by (simp add: valid_fields_def valid_date_def days_in_month_def)
  have h2: "in_ns_range \<lparr>ts_year = 2020, ts_month = 1, ts_day = 8, ts_hour = 13, ts_minute = 45, ts_second = 0\<rparr>"
    by (simp add: in_ns_range_def epoch_seconds_def toordinal_def days_before_year_def
                  days_before_month_def)
  have h3: "1000 \<le> ts_year \<lparr>ts_year = 2020, ts_month = 1, ts_day = 8, ts_hour = 13, ts_minute = 45, ts_second = 0\<rparr>"
    by simp
  have h4: "in_ns_range \<lparr>ts_year = 2020, ts_month = 1, ts_day = 8, ts_hour = 0, ts_minute = 0, ts_second = 0\<rparr>"
    by (simp add: in_ns_range_def epoch_seconds_def toordinal_def days_before_year_def
                  days_before_month_def)
  show ?thesis using h1 h2 h3 h4 eda_date_roundtrip[OF h1 h2 h3] by (simp add: midnight_def)
qed

text \<open>
  C28. The yearly series of lines 237--240 has one entry per year in which some
  record's date parsed, in increasing year order; the entry of a year counts the
  records of that year, and the entries add up to the number of parsed dates
  (records whose date is \<open>NaT\<close> are left out).
\<close>

theorem yearly_counts_spec:
  "map fst (yearly_counts ds) = sorted_list_of_set (ts_year ` {t. Some t \<in> set ds}) \<and>
   map_of (yearly_counts ds) y =
     (if y \<in> ts_year ` {t. Some t \<in> set ds}
      then Some (length (filter (\<lambda>x. map_option ts_year x = Some y) ds)) else None) \<and>
   sum_list (map snd (yearly_counts ds)) = length (filter (\<lambda>x. x \<noteq> None) ds)"
proof (intro conjI)
  let ?ys = "List.map_filter (map_option ts_year) ds"
  have s: "set ?ys = ts_year ` {t. Some t \<in> set ds}"
    by (auto simp: set_map_filter_eq)
  show "map fst (yearly_counts ds) = sorted_list_of_set (ts_year ` {t. Some t \<in> set ds})"
    by (simp only: yearly_counts_def keys_sort_index s)
  show "map_of (yearly_counts ds) y =
     (if y \<in> ts_year ` {t. Some t \<in> set ds}
      then Some (length (filter (\<lambda>x. map_option ts_year x = Some y) ds)) else None)"
    by (simp only: yearly_counts_def map_of_sort_key[OF distinct_value_counts_keys]
                   map_of_value_counts s count_list_map_filter)
  have m: "mset (map snd (yearly_counts ds)) = mset (map snd (value_counts ?ys))"
    by (simp only: yearly_counts_def mset_map mset_sort)
  have "sum_list (map snd (yearly_counts ds)) = sum_list (map snd (value_counts ?ys))"
    by (metis m sum_mset_sum_list)
  then have "sum_list (map snd (yearly_counts ds)) = length ?ys" by (simp add: sum_value_counts)
  then show "sum_list (map snd (yearly_counts ds)) = length (filter (\<lambda>x. x \<noteq> None) ds)"
    by (simp add: length_map_filter)
qed

text \<open>
  C29. The year-over-year change of line 243 has one entry per year, the first
  missing, and when every count is positive each later entry \<open>p\<close> is the percentage
  that turns the previous year's count into this year's: \<open>x\<^sub>i = x\<^sub>i\<^sub>-\<^sub>1 (1 + p/100)\<close>.
\<close>

theorem yearly_pct_change_spec:
  assumes "list_all (\<lambda>x. 0 < x) xs" and "0 < i" and "i < length xs"
  shows "length (yearly_pct_change xs) = length xs \<and> yearly_pct_change xs ! 0 = None \<and>
         (\<exists>p. yearly_pct_change xs ! i = Some p \<and>
              (of_nat (xs ! i) :: rat) = of_nat (xs ! (i - 1)) * (1 + p / 100))"
proof -
  obtain x ys where xs: "xs = x # ys" using assms(3) by (cases xs) auto
  have j: "i - 1 < length ys" using assms(2,3) xs by simp
  have nth: "(x # ys) ! (i - 1) = xs ! (i - 1)" "ys ! (i - 1) = xs ! i"
    using xs assms(2) by simp_all
  have pos: "0 < xs ! (i - 1)" using assms(1,3) by (simp add: list_all_length)
  let ?a = "xs ! (i - 1)" and ?b = "xs ! i"
  have pc: "pct_change xs ! i = Some (of_nat ?b / of_nat ?a - 1)"
    using j pos assms(2) by (simp add: pct_change_def xs nth)
  have "(of_nat ?b :: rat) = of_nat ?a * (1 + (of_nat ?b / of_nat ?a - 1) * 100 / 100)"
    using pos by (simp add: field_simps)
  moreover have l: "length (pct_change xs) = length xs" by (simp add: pct_change_def xs)
  then have "yearly_pct_change xs ! i = Some ((of_nat ?b / of_nat ?a - 1) * 100)"
    using pc assms(3) by (simp add: yearly_pct_change_def)
  moreover have "yearly_pct_change xs ! 0 = None" using l by (simp add: yearly_pct_change_def pct_change_def xs)
  ultimately show ?thesis using l by (simp add: yearly_pct_change_def)
qed

theorem yearly_pct_change_spec_witness:
  "list_all (\<lambda>x. 0 < x) [200, 250 :: nat] \<and> 0 < (1 :: nat) \<and> 1 < length [200, 250 :: nat] \<and>
   length (yearly_pct_change [200, 250]) = length [200, 250 :: nat] \<and> yearly_pct_change [200, 250] ! 0 = None \<and>
   (\<exists>p. yearly_pct_change [200, 250] ! 1 = Some p \<and>
        (of_nat ([200, 250 :: nat] ! 1) :: rat) = of_nat ([200, 250 :: nat] ! (1 - 1)) * (1 + p / 100))"
proof -
  have h: "list_all (\<lambda>x. 0 < x) [200, 250 :: nat]" "0 < (1 :: nat)" "1 < length [200, 250 :: nat]"
    by simp_all
  show ?thesis using h yearly_pct_change_spec[OF h] by blast
qed

text \<open>
  The weekday chart of lines 188--190 loses no record: every value STEP 4
  wrote to \<open>DayOfWeek\<close> is one of the eight labels of the reindex, so the counts
  shown (a missing label counting 0) add up to the number of rows.
\<close>

theorem day_counts_total:
  "sum_list (map (\<lambda>k. case k of None \<Rightarrow> 0 | Some n \<Rightarrow> n) (day_counts (map (dt_text day_name) occ))) =
   length occ"
proof -
  let ?ys = "map (the \<circ> dt_text day_name) occ"
  have p: "present (map (dt_text day_name) occ) = ?ys"
    by (rule present_map_total) (use dt_text_Some in auto)
  have sub: "set ?ys \<subseteq> set day_order" using day_text_mem by auto
  have "map (\<lambda>k. case k of None \<Rightarrow> 0 | Some n \<Rightarrow> n) (day_counts (map (dt_text day_name) occ)) =
        map (count_list ?ys) day_order"
    by (auto simp: day_counts_def p map_of_value_counts count_list_0_iff)
  also have "sum_list \<dots> = length ?ys"
    by (rule sum_count_list_distinct[OF distinct_day_order sub])
  finally show ?thesis by simp
qed



end
