(* ===== verification/Pipeline.thy ===== *)
theory Pipeline
  imports Missing Dedup Time Demographics Mocodes Dates Category Reports
begin

text \<open>
  The cleaning script run from end to end (\<open>Data Cleaning and Curation
  Pipeline.py\<close>, lines 26--291): STEP 2 on the table \<open>read_csv\<close> returns, then
  STEPS 3 to 8 in the order of the script, each step's error stopping the run, and
  STEP 9's export of the first 5000 rows. The lemmas say what each step needs of
  the table it receives and what it guarantees of the table it returns: a
  well-formed table with distinct, non-empty index labels and the columns the
  later steps read (\<open>pipe_inv\<close>).
\<close>

section \<open>Definitions\<close>

text \<open>The columns the script reads from the raw table.\<close>

definition required_cols :: "string list" where
  "required_cols = [''DR_NO'', ''DATE OCC'', ''Date Rptd'', ''TIME OCC'', ''Vict Age'', ''Vict Sex'',
                    ''Vict Descent'', ''Mocodes'', ''Crm Cd Desc'']"

text \<open>Lines 26--291: STEP 2, then STEPS 3 to 8.\<close>

definition clean_pipeline :: "codes_frame \<Rightarrow> raw_frame \<Rightarrow> pd_error + frame" where
  "clean_pipeline cdf rf =
     bindE (dedup_step (clean_missing rf)) (\<lambda>df1.
     bindE (dates_step df1) (\<lambda>df2.
     bindE (convert_time df2) (\<lambda>df3.
     bindE (demographics_step df3) (\<lambda>df4.
     bindE (expand_mo_step cdf df4) categorize))))"


text \<open>The table a step may be given: well formed, index labels distinct and present.\<close>

definition pipe_inv :: "frame \<Rightarrow> bool" where
  "pipe_inv df = (frame_wf df \<and> distinct (idx df) \<and> idx df \<noteq> [])"

section \<open>Lemmas\<close>

lemma set_col_inv:
  "pipe_inv df \<Longrightarrow> length c = n_rows df \<Longrightarrow> pipe_inv (set_col n c df)"
  by (simp add: pipe_inv_def frame_wf_set_col)

lemma map_col_inv:
  assumes "pipe_inv df" and "map_col n f df = Inr df'"
  shows "pipe_inv df' \<and> set (col_names df') = set (col_names df)"
  using assms map_col_wf[of df n f df'] map_col_names[OF assms(2)] by (simp add: pipe_inv_def)

lemma map_col_step:
  assumes "pipe_inv df" and "n \<in> set (col_names df)"
  shows "\<exists>df'. map_col n f df = Inr df' \<and> pipe_inv df' \<and> set (col_names df') = set (col_names df)"
  using map_col_present[OF assms(2)] map_col_inv[OF assms(1)] by blast

lemma get_col_length:
  assumes "pipe_inv df" and "get_col df n = Inr c"
  shows "length c = n_rows df"
  using assms frame_wf_col_length by (auto simp: pipe_inv_def)

lemma distinct_select_mask: "distinct xs \<Longrightarrow> distinct (select_mask m xs)"
  by (induction m xs rule: select_mask.induct) (auto dest: set_select_mask[THEN subsetD])

lemma select_keep_first_ne:
  "xs \<noteq> [] \<Longrightarrow> c \<noteq> [] \<Longrightarrow> select_mask (keep_first_mask c) xs \<noteq> []"
  by (cases c; cases xs) (simp_all add: keep_first_mask_def)

lemma dedup_ok:
  assumes "pipe_inv df" and "''DR_NO'' \<in> set (col_names df)"
  shows "\<exists>df'. dedup_step df = Inr df' \<and> pipe_inv df' \<and> set (col_names df') = set (col_names df)"
proof -
  obtain c where c: "get_col df ''DR_NO'' = Inr c" using get_col_present[OF assms(2)] by blast
  let ?k = "map (\<lambda>x. Some (cell_str x)) c"
  let ?df = "set_col ''DR_NO'' ?k df"
  have len: "length ?k = n_rows df" using get_col_length[OF assms(1) c] by simp
  have i: "pipe_inv ?df" using set_col_inv[OF assms(1) len] .
  have ne: "?k \<noteq> []" using len assms(1) by (auto simp: pipe_inv_def n_rows_def)
  have "frame_wf (select_rows (keep_first_mask ?k) ?df)"
    using i len by (intro frame_wf_select_rows) (simp_all add: pipe_inv_def keep_first_mask_def)
  moreover have "distinct (idx (select_rows (keep_first_mask ?k) ?df))"
    using i by (simp add: pipe_inv_def distinct_select_mask)
  moreover have "idx (select_rows (keep_first_mask ?k) ?df) \<noteq> []"
    using select_keep_first_ne[of "idx df" ?k] ne i by (simp add: pipe_inv_def)
  ultimately have "pipe_inv (select_rows (keep_first_mask ?k) ?df)" by (simp add: pipe_inv_def)
  moreover have "set (col_names (select_rows (keep_first_mask ?k) ?df)) = set (col_names df)"
    using assms(2) by auto
  ultimately show ?thesis using dedup_step_Inr[OF c] by blast
qed

lemma dates_ok:
  assumes "pipe_inv df" and "''DATE OCC'' \<in> set (col_names df)" and "''Date Rptd'' \<in> set (col_names df)"
  shows "\<exists>df'. dates_step df = Inr df' \<and> pipe_inv df' \<and>
           set (col_names df') = set (col_names df) \<union> {''DayOfWeek'', ''Month''}"
proof -
  obtain occ where o: "get_col df ''DATE OCC'' = Inr occ" using get_col_present[OF assms(2)] by blast
  obtain rp where r: "get_col df ''Date Rptd'' = Inr rp" using get_col_present[OF assms(3)] by blast
  have lo: "length occ = n_rows df" and lr: "length rp = n_rows df"
    using get_col_length[OF assms(1)] o r by blast+
  have "pipe_inv (set_col ''Date Rptd'' (map (dt_text strftime_mdy) rp)
             (set_col ''DATE OCC'' (map (dt_text strftime_mdy) occ)
               (set_col ''Month'' (map (dt_text month_name) occ)
                 (set_col ''DayOfWeek'' (map (dt_text day_name) occ) df))))"
    using assms(1) lo lr by (intro set_col_inv) simp_all
  then show ?thesis using dates_step_Inr[OF o r] assms(2,3) by auto
qed

lemma override_ok:
  assumes "pipe_inv df" and "''Vict Sex'' \<in> set (col_names df)" and "''Vict Descent'' \<in> set (col_names df)"
    and "''Vict Age'' \<in> set (col_names df)"
  shows "\<exists>df'. override_age df = Inr df' \<and> pipe_inv df' \<and> set (col_names df') = set (col_names df)"
proof -
  obtain s where s: "get_col df ''Vict Sex'' = Inr s" using get_col_present[OF assms(2)] by blast
  obtain d where d: "get_col df ''Vict Descent'' = Inr d" using get_col_present[OF assms(3)] by blast
  obtain a where a: "get_col df ''Vict Age'' = Inr a" using get_col_present[OF assms(4)] by blast
  have "length s = n_rows df" "length d = n_rows df" "length a = n_rows df"
    using get_col_length[OF assms(1)] s d a by blast+
  then have "length (map2 (\<lambda>m a. if m then Some ''Unknown'' else a) (unknown_mask s d) a) = n_rows df"
    by (simp add: unknown_mask_def)
  from set_col_inv[OF assms(1) this] show ?thesis
    using s d a assms(4) by (simp add: override_age_def insert_absorb)
qed

lemma add_age_group_ok:
  assumes "pipe_inv df" and "''Vict Age'' \<in> set (col_names df)"
  shows "\<exists>df'. add_age_group df = Inr df' \<and> pipe_inv df' \<and>
           set (col_names df') = insert ''Vict Age Group'' (set (col_names df))"
proof -
  obtain a where a: "get_col df ''Vict Age'' = Inr a" using get_col_present[OF assms(2)] by blast
  have "length (map age_group_cell a) = n_rows df" using get_col_length[OF assms(1) a] by simp
  from set_col_inv[OF assms(1) this] show ?thesis using a by (simp add: add_age_group_def)
qed

lemma demographics_ok:
  assumes "pipe_inv df" and "''Vict Age'' \<in> set (col_names df)" and "''Vict Sex'' \<in> set (col_names df)"
    and "''Vict Descent'' \<in> set (col_names df)"
  shows "\<exists>df'. demographics_step df = Inr df' \<and> pipe_inv df' \<and>
           set (col_names df') = insert ''Vict Age Group'' (set (col_names df))"
proof -
  obtain d1 where d1: "map_col ''Vict Age'' (\<lambda>x. Some (cell_str x)) df = Inr d1" "pipe_inv d1"
      "set (col_names d1) = set (col_names df)"
    using map_col_step[OF assms(1,2)] by blast
  obtain d2 where d2: "map_col ''Vict Age'' replace_age_zero d1 = Inr d2" "pipe_inv d2"
      "set (col_names d2) = set (col_names df)"
    using map_col_step[OF d1(2)] assms(2) d1(3) by blast
  obtain d3 where d3: "map_col ''Vict Sex'' (map_option sex_replace) d2 = Inr d3" "pipe_inv d3"
      "set (col_names d3) = set (col_names df)"
    using map_col_step[OF d2(2)] assms(3) d2(3) by blast
  obtain d4 where d4: "map_col ''Vict Descent'' descent_map_cell d3 = Inr d4" "pipe_inv d4"
      "set (col_names d4) = set (col_names df)"
    using map_col_step[OF d3(2)] assms(4) d3(3) by blast
  obtain d5 where d5: "override_age d4 = Inr d5" "pipe_inv d5" "set (col_names d5) = set (col_names df)"
    using override_ok[OF d4(2)] assms(2,3,4) d4(3) by blast
  obtain d6 where d6: "add_age_group d5 = Inr d6" "pipe_inv d6"
      "set (col_names d6) = insert ''Vict Age Group'' (set (col_names df))"
    using add_age_group_ok[OF d5(2)] assms(2) d5(3) by blast
  show ?thesis using d1 d2 d3 d4 d5 d6 by (simp add: demographics_step_def)
qed

lemma set_col_names_concat:
  "set (col_names (concat_frame a b)) = set (col_names a) \<union> set (col_names b)"
  by (simp add: col_names_def image_image case_prod_beta image_Un)

lemma expand_mo_ok:
  assumes "pipe_inv df" and "''Mocodes'' \<in> set (col_names df)"
  shows "\<exists>df'. expand_mo_step cdf df = Inr df' \<and> set (col_names df) \<subseteq> set (col_names df')"
proof -
  obtain c where c: "get_col df ''Mocodes'' = Inr c" using get_col_present[OF assms(2)] by blast
  have "c \<noteq> []" using get_col_length[OF assms(1) c] assms(1) by (auto simp: pipe_inv_def n_rows_def)
  then obtain md where "expand_mo_step cdf df = Inr (concat_frame df (fillna_frame ''None'' md))"
    using expand_mo_step_concat[OF _ _ c] assms(1) by (auto simp: pipe_inv_def)
  then show ?thesis using set_col_names_concat[of df "fillna_frame ''None'' md"] by blast
qed

lemma categorize_ok:
  assumes "''Crm Cd Desc'' \<in> set (col_names df)"
  shows "\<exists>df'. categorize df = Inr df' \<and> set (col_names df') = insert ''Crime_Category'' (set (col_names df))"
  using get_col_present[OF assms] categorize_Inr by fastforce

lemma clean_missing_inv:
  assumes "raw_wf rf" and "distinct (raw_idx rf)" and "raw_idx rf \<noteq> []"
  shows "pipe_inv (clean_missing rf)"
  using clean_missing_wf[OF assms(1)] assms(2,3) by (simp add: pipe_inv_def)

subsection \<open>The null-free invariant along the run\<close>

lemma first_occ_distinct:
  "distinct xs \<Longrightarrow> set xs \<inter> set seen = {} \<Longrightarrow> first_occ seen xs = replicate (length xs) True"
  by (induction xs arbitrary: seen) auto

lemma cell_str_id: "None \<notin> set c \<Longrightarrow> map (\<lambda>x. Some (cell_str x)) c = c"
proof (induction c)
  case (Cons a c)
  then show ?case by (cases a) (simp_all add: cell_str_def)
qed simp

lemma dedup_no_null:
  assumes "frame_wf df" and "no_null df" and "get_col df ''DR_NO'' = Inr c" and "distinct c"
  shows "dedup_step df = Inr (set_col ''DR_NO'' c df) \<and> no_null (set_col ''DR_NO'' c df)"
proof -
  have nn: "None \<notin> set c" by (rule no_null_get_col[OF assms(2,3)])
  have len: "length c = n_rows (set_col ''DR_NO'' c df)" using frame_wf_col_length[OF assms(1,3)] by simp
  have "keep_first_mask c = replicate (length c) True"
    using assms(4) by (simp add: keep_first_mask_def first_occ_distinct)
  then have "select_rows (keep_first_mask c) (set_col ''DR_NO'' c df) = set_col ''DR_NO'' c df"
    using len frame_wf_set_col[OF assms(1)] frame_wf_col_length[OF assms(1,3)]
    by (intro select_rows_all) (simp_all add: list_all_iff)
  then show ?thesis
    using dedup_step_Inr[OF assms(3)] cell_str_id[OF nn] no_null_set_col[OF assms(2) nn] by simp
qed

lemma dt_text_not_None [simp]: "dt_text f c \<noteq> None" "None \<noteq> dt_text f c"
  by (auto simp: dt_text_def fillna_def split: option.splits)

lemma dates_no_null:
  assumes "no_null df" and "dates_step df = Inr df'"
  shows "no_null df' \<and> idx df' = idx df"
  using assms
  by (auto simp: dates_step_def bindE_Inr_iff intro!: no_null_set_col)

lemma time_no_null:
  assumes "no_null df" and "convert_time df = Inr df'"
  shows "no_null df' \<and> idx df' = idx df"
  using no_null_map_col[OF assms(1) assms(2)[unfolded convert_time_def]]
        map_col_names[OF assms(2)[unfolded convert_time_def]] by simp

lemma override_no_null:
  assumes "no_null df" and "override_age df = Inr df'"
  shows "no_null df' \<and> idx df' = idx df"
proof -
  obtain s d a where g: "get_col df ''Vict Sex'' = Inr s" "get_col df ''Vict Descent'' = Inr d"
      "get_col df ''Vict Age'' = Inr a"
      and df': "df' = set_col ''Vict Age'' (map2 (\<lambda>m a. if m then Some ''Unknown'' else a) (unknown_mask s d) a) df"
    using assms(2) by (auto simp: override_age_def bindE_Inr_iff)
  have "None \<notin> set a" by (rule no_null_get_col[OF assms(1) g(3)])
  then have "None \<notin> set (map2 (\<lambda>m a. if m then Some ''Unknown'' else a) (unknown_mask s d) a)"
    by (auto split: if_splits dest: set_zip_rightD)
  then show ?thesis using df' no_null_set_col[OF assms(1)] by simp
qed

lemma age_group_cell_not_None: "None \<notin> set (map age_group_cell a)"
proof
  assume "None \<in> set (map age_group_cell a)"
  then obtain x where "None = age_group_cell x" by auto
  with age_group_cell_category[of x] show False by (metis image_iff option.distinct(1))
qed

lemma demographics_no_null:
  assumes "no_null df" and "demographics_step df = Inr df'"
  shows "no_null df' \<and> idx df' = idx df"
proof -
  obtain d1 d2 d3 d4 d5 where
      s1: "map_col ''Vict Age'' (\<lambda>x. Some (cell_str x)) df = Inr d1" and
      s2: "map_col ''Vict Age'' replace_age_zero d1 = Inr d2" and
      s3: "map_col ''Vict Sex'' (map_option sex_replace) d2 = Inr d3" and
      s4: "map_col ''Vict Descent'' descent_map_cell d3 = Inr d4" and
      s5: "override_age d4 = Inr d5" and s6: "add_age_group d5 = Inr df'"
    using assms(2) by (auto simp: demographics_step_def bindE_Inr_iff)
  have n1: "no_null d1" using no_null_map_col[OF assms(1) s1] by simp
  have n2: "no_null d2" using no_null_map_col[OF n1 s2] by (simp add: replace_age_zero_def)
  have n3: "no_null d3" using no_null_map_col[OF n2 s3] by simp
  have n4: "no_null d4" using no_null_map_col[OF n3 s4] by (simp add: descent_map_cell_def fillna_def split: option.splits)
  have n5: "no_null d5" "idx d5 = idx d4" using override_no_null[OF n4 s5] by simp_all
  obtain a where "get_col d5 ''Vict Age'' = Inr a" and df': "df' = set_col ''Vict Age Group'' (map age_group_cell a) d5"
    using s6 by (auto simp: add_age_group_def bindE_Inr_iff)
  then have "no_null df'" "idx df' = idx d5" using no_null_set_col[OF n5(1) age_group_cell_not_None] by simp_all
  moreover have "idx d4 = idx df"
    using map_col_names[OF s1] map_col_names[OF s2] map_col_names[OF s3] map_col_names[OF s4] by simp
  ultimately show ?thesis using n5(2) by simp
qed

lemma expand_mo_aligned_no_null:
  assumes "pipe_inv df" and "no_null df" and "idx df = [0..<n_rows df]"
    and "''Mocodes'' \<in> set (col_names df)"
  shows "\<exists>df'. expand_mo_step cdf df = Inr df' \<and> no_null df' \<and> idx df' = idx df"
proof -
  obtain c where c: "get_col df ''Mocodes'' = Inr c" using get_col_present[OF assms(4)] by blast
  have "c \<noteq> []" using get_col_length[OF assms(1) c] assms(1) by (auto simp: pipe_inv_def n_rows_def)
  then obtain md where md: "mo_desc_frame (mo_descriptions_list cdf c) = Inr md" and i: "idx md = [0..<n_rows df]"
    using expand_mo_step_concat[OF _ _ c] assms(1) by (auto simp: pipe_inv_def)
  have "expand_mo_step cdf df = Inr \<lparr>idx = idx df, cols = cols df @ cols (fillna_frame ''None'' md)\<rparr>"
    using c md i assms(3) by (simp add: expand_mo_step_def concat_axis1_def)
  moreover have "no_null \<lparr>idx = idx df, cols = cols df @ cols (fillna_frame ''None'' md)\<rparr>"
    using assms(2) no_null_fillna_frame[of "''None''" md] by (simp add: no_null_def)
  ultimately show ?thesis by auto
qed

lemma categorize_no_null:
  assumes "no_null df" and "categorize df = Inr df'"
  shows "no_null df' \<and> idx df' = idx df"
proof -
  obtain c where "df' = set_col ''Crime_Category'' (map crime_category_cell c) df"
    using assms(2) by (auto simp: categorize_def bindE_Inr_iff)
  moreover have "None \<notin> set (map crime_category_cell c)"
  proof
    assume "None \<in> set (map crime_category_cell c)"
    then obtain x where "None = crime_category_cell x" by auto
    with crime_category_cell_label[of x] show False by simp
  qed
  ultimately show ?thesis using no_null_set_col[OF assms(1)] by simp
qed

lemma clean_missing_null_free: "no_null (clean_missing rf)"
  using clean_column_not_None [unfolded list_all_iff]
  by (auto simp: no_null_def clean_missing_def list_all_iff)

section \<open>Properties of the whole run\<close>

text \<open>
  C1. The cleaning script runs to the end on every well-formed table \<open>read_csv\<close>
  can return that has at least one row, distinct index labels and the columns the
  script reads: no step raises, and the pickled table has every column read, the
  weekday, month and age group columns and the crime category.
\<close>

theorem clean_pipeline_total:
  assumes "raw_wf rf" and "distinct (raw_idx rf)" and "raw_idx rf \<noteq> []"
    and "set required_cols \<subseteq> set (map fst (raw_cols rf))"
  shows "\<exists>df. clean_pipeline cdf rf = Inr df \<and>
           set (required_cols @ [''DayOfWeek'', ''Month'', ''Vict Age Group'', ''Crime_Category''])
             \<subseteq> set (col_names df)"
proof -
  let ?df0 = "clean_missing rf"
  let ?S = "set (col_names ?df0)"
  have i0: "pipe_inv ?df0" by (rule clean_missing_inv[OF assms(1-3)])
  have c0: "set required_cols \<subseteq> ?S" using assms(4) by simp
  then have m: "''DR_NO'' \<in> ?S" "''DATE OCC'' \<in> ?S" "''Date Rptd'' \<in> ?S" "''TIME OCC'' \<in> ?S"
    "''Vict Age'' \<in> ?S" "''Vict Sex'' \<in> ?S" "''Vict Descent'' \<in> ?S" "''Mocodes'' \<in> ?S"
    "''Crm Cd Desc'' \<in> ?S"
    by (simp_all add: required_cols_def)
  obtain df1 where d1: "dedup_step ?df0 = Inr df1" "pipe_inv df1" "set (col_names df1) = ?S"
    using dedup_ok[OF i0 m(1)] by blast
  obtain df2 where d2: "dates_step df1 = Inr df2" "pipe_inv df2"
      "set (col_names df2) = ?S \<union> {''DayOfWeek'', ''Month''}"
    using dates_ok[OF d1(2)] m(2,3) unfolding d1(3) by blast
  have s2: "?S \<subseteq> set (col_names df2)" using d2(3) by blast
  obtain df3 where d3: "convert_time df2 = Inr df3" "pipe_inv df3" "set (col_names df3) = set (col_names df2)"
    using map_col_step[OF d2(2)] m(4) s2 unfolding convert_time_def by blast
  obtain df4 where d4: "demographics_step df3 = Inr df4" "pipe_inv df4"
      "set (col_names df4) = insert ''Vict Age Group'' (set (col_names df3))"
    using demographics_ok[OF d3(2)] m(5,6,7) s2 unfolding d3(3) by blast
  have m4: "''Mocodes'' \<in> set (col_names df4)" using m(8) s2 unfolding d4(3) d3(3) by blast
  obtain df5 where d5: "expand_mo_step cdf df4 = Inr df5" "set (col_names df4) \<subseteq> set (col_names df5)"
    using expand_mo_ok[OF d4(2) m4] by blast
  have s5: "set (col_names df2) \<union> {''Vict Age Group''} \<subseteq> set (col_names df5)"
    using d5(2) unfolding d4(3) d3(3) by blast
  have m5: "''Crm Cd Desc'' \<in> set (col_names df5)" using m(9) s2 s5 by blast
  obtain df6 where d6: "categorize df5 = Inr df6"
      "set (col_names df6) = insert ''Crime_Category'' (set (col_names df5))"
    using categorize_ok[OF m5] by blast
  have f: "set required_cols \<subseteq> set (col_names df6)" "''DayOfWeek'' \<in> set (col_names df6)"
    "''Month'' \<in> set (col_names df6)" "''Vict Age Group'' \<in> set (col_names df6)"
    "''Crime_Category'' \<in> set (col_names df6)"
    using c0 s2 s5 d2(3) unfolding d6(2) by blast+
  then have "set (required_cols @ [''DayOfWeek'', ''Month'', ''Vict Age Group'', ''Crime_Category''])
          \<subseteq> set (col_names df6)"
    by simp
  then show ?thesis using d1(1) d2(1) d3(1) d4(1) d5(1) d6(1) by (simp add: clean_pipeline_def)
qed

theorem clean_pipeline_total_witness:
  "raw_wf \<lparr>raw_idx = [0], raw_cols = [(''DR_NO'', IntCol [10304468]),
      (''DATE OCC'', ObjCol [Some ''01/08/2020 12:00:00 AM'']), (''Date Rptd'', ObjCol [Some ''01/08/2020 12:00:00 AM'']),
      (''TIME OCC'', IntCol [2230]), (''Vict Age'', IntCol [36]), (''Vict Sex'', ObjCol [Some ''F'']),
      (''Vict Descent'', ObjCol [Some ''B'']), (''Mocodes'', ObjCol [Some ''0444 0913'']),
      (''Crm Cd Desc'', ObjCol [Some ''BATTERY - SIMPLE ASSAULT''])]\<rparr> \<and>
   distinct (raw_idx \<lparr>raw_idx = [0], raw_cols = [(''DR_NO'', IntCol [10304468]),
      (''DATE OCC'', ObjCol [Some ''01/08/2020 12:00:00 AM'']), (''Date Rptd'', ObjCol [Some ''01/08/2020 12:00:00 AM'']),
      (''TIME OCC'', IntCol [2230]), (''Vict Age'', IntCol [36]), (''Vict Sex'', ObjCol [Some ''F'']),
      (''Vict Descent'', ObjCol [Some ''B'']), (''Mocodes'', ObjCol [Some ''0444 0913'']),
      (''Crm Cd Desc'', ObjCol [Some ''BATTERY - SIMPLE ASSAULT''])]\<rparr>) \<and>
   raw_idx \<lparr>raw_idx = [0], raw_cols = [(''DR_NO'', IntCol [10304468]),
      (''DATE OCC'', ObjCol [Some ''01/08/2020 12:00:00 AM'']), (''Date Rptd'', ObjCol [Some ''01/08/2020 12:00:00 AM'']),
      (''TIME OCC'', IntCol [2230]), (''Vict Age'', IntCol [36]), (''Vict Sex'', ObjCol [Some ''F'']),
      (''Vict Descent'', ObjCol [Some ''B'']), (''Mocodes'', ObjCol [Some ''0444 0913'']),
      (''Crm Cd Desc'', ObjCol [Some ''BATTERY - SIMPLE ASSAULT''])]\<rparr> \<noteq> [] \<and>
   set required_cols \<subseteq> set (map fst (raw_cols \<lparr>raw_idx = [0], raw_cols = [(''DR_NO'', IntCol [10304468]),
      (''DATE OCC'', ObjCol [Some ''01/08/2020 12:00:00 AM'']), (''Date Rptd'', ObjCol [Some ''01/08/2020 12:00:00 AM'']),
      (''TIME OCC'', IntCol [2230]), (''Vict Age'', IntCol [36]), (''Vict Sex'', ObjCol [Some ''F'']),
      (''Vict Descent'', ObjCol [Some ''B'']), (''Mocodes'', ObjCol [Some ''0444 0913'']),
      (''Crm Cd Desc'', ObjCol [Some ''BATTERY - SIMPLE ASSAULT''])]\<rparr>)) \<and>
   (\<exists>df. clean_pipeline \<lparr>code_col = IntCol [444], description_col = [Some ''Pushed'']\<rparr>
            \<lparr>raw_idx = [0], raw_cols = [(''DR_NO'', IntCol [10304468]),
      (''DATE OCC'', ObjCol [Some ''01/08/2020 12:00:00 AM'']), (''Date Rptd'', ObjCol [Some ''01/08/2020 12:00:00 AM'']),
      (''TIME OCC'', IntCol [2230]), (''Vict Age'', IntCol [36]), (''Vict Sex'', ObjCol [Some ''F'']),
      (''Vict Descent'', ObjCol [Some ''B'']), (''Mocodes'', ObjCol [Some ''0444 0913'']),
      (''Crm Cd Desc'', ObjCol [Some ''BATTERY - SIMPLE ASSAULT''])]\<rparr> = Inr df \<and>
        set (required_cols @ [''DayOfWeek'', ''Month'', ''Vict Age Group'', ''Crime_Category''])
          \<subseteq> set (col_names df))"
proof -
  let ?rf = "\<lparr>raw_idx = [0], raw_cols = [(''DR_NO'', IntCol [10304468]),
      (''DATE OCC'', ObjCol [Some ''01/08/2020 12:00:00 AM'']), (''Date Rptd'', ObjCol [Some ''01/08/2020 12:00:00 AM'']),
      (''TIME OCC'', IntCol [2230]), (''Vict Age'', IntCol [36]), (''Vict Sex'', ObjCol [Some ''F'']),
      (''Vict Descent'', ObjCol [Some ''B'']), (''Mocodes'', ObjCol [Some ''0444 0913'']),
      (''Crm Cd Desc'', ObjCol [Some ''BATTERY - SIMPLE ASSAULT''])]\<rparr>"
  have h1: "raw_wf ?rf" by (simp add: raw_wf_def)
  have h2: "distinct (raw_idx ?rf)" by simp
  have h3: "raw_idx ?rf \<noteq> []" by simp
  have h4: "set required_cols \<subseteq> set (map fst (raw_cols ?rf))" by (simp add: required_cols_def)
  show ?thesis
    using h1 h2 h3 h4 clean_pipeline_total[OF h1 h2 h3 h4, of "\<lparr>code_col = IntCol [444], description_col = [Some ''Pushed'']\<rparr>"]
    by blast
qed

text \<open>
  The canonical run: with distinct \<open>DR_NO\<close> texts and the labels \<open>0 .. n-1\<close>,
  STEPS 3 to 8 succeed and the result has those labels and no missing cell.
\<close>

lemma clean_pipeline_canonical:
  assumes "raw_wf rf" and "raw_idx rf = [0..<n]" and "0 < n"
    and "set required_cols \<subseteq> set (map fst (raw_cols rf))"
    and "get_col (clean_missing rf) ''DR_NO'' = Inr k" and "distinct k"
  shows "\<exists>df. clean_pipeline cdf rf = Inr df \<and> no_null df \<and> idx df = [0..<n]"
proof -
  let ?df0 = "clean_missing rf"
  let ?S = "set (col_names ?df0)"
  have i0: "pipe_inv ?df0" using clean_missing_inv[OF assms(1)] assms(2,3) by simp
  have n0: "no_null ?df0" by (rule clean_missing_null_free)
  have ix0: "idx ?df0 = [0..<n]" using assms(2) by simp
  have c0: "set required_cols \<subseteq> ?S" using assms(4) by simp
  then have m: "''DR_NO'' \<in> ?S" "''DATE OCC'' \<in> ?S" "''Date Rptd'' \<in> ?S" "''TIME OCC'' \<in> ?S"
    "''Vict Age'' \<in> ?S" "''Vict Sex'' \<in> ?S" "''Vict Descent'' \<in> ?S" "''Mocodes'' \<in> ?S"
    "''Crm Cd Desc'' \<in> ?S"
    by (simp_all add: required_cols_def)
  let ?df1 = "set_col ''DR_NO'' k ?df0"
  have d1: "dedup_step ?df0 = Inr ?df1" "no_null ?df1"
    using dedup_no_null[OF _ n0 assms(5,6)] i0 by (simp_all add: pipe_inv_def)
  have i1: "pipe_inv ?df1" using set_col_inv[OF i0 get_col_length[OF i0 assms(5)]] .
  have s1: "set (col_names ?df1) = ?S" using m(1) by auto
  obtain df2 where d2: "dates_step ?df1 = Inr df2" "pipe_inv df2"
      "set (col_names df2) = ?S \<union> {''DayOfWeek'', ''Month''}"
    using dates_ok[OF i1] m(2,3) unfolding s1 by blast
  have n2: "no_null df2" "idx df2 = [0..<n]" using dates_no_null[OF d1(2) d2(1)] ix0 by simp_all
  have s2: "?S \<subseteq> set (col_names df2)" using d2(3) by blast
  obtain df3 where d3: "convert_time df2 = Inr df3" "pipe_inv df3" "set (col_names df3) = set (col_names df2)"
    using map_col_step[OF d2(2)] m(4) s2 unfolding convert_time_def by blast
  have n3: "no_null df3" "idx df3 = [0..<n]" using time_no_null[OF n2(1) d3(1)] n2(2) by simp_all
  obtain df4 where d4: "demographics_step df3 = Inr df4" "pipe_inv df4"
      "set (col_names df4) = insert ''Vict Age Group'' (set (col_names df3))"
    using demographics_ok[OF d3(2)] m(5,6,7) s2 unfolding d3(3) by blast
  have n4: "no_null df4" "idx df4 = [0..<n]" using demographics_no_null[OF n3(1) d4(1)] n3(2) by simp_all
  have a4: "idx df4 = [0..<n_rows df4]" using n4(2) by (simp add: n_rows_def)
  have m4: "''Mocodes'' \<in> set (col_names df4)" using m(8) s2 unfolding d4(3) d3(3) by blast
  obtain df5 where d5: "expand_mo_step cdf df4 = Inr df5" "no_null df5" "idx df5 = [0..<n]"
    using expand_mo_aligned_no_null[OF d4(2) n4(1) a4 m4] n4(2) by auto
  have "set (col_names df4) \<subseteq> set (col_names df5)" using expand_mo_ok[OF d4(2) m4, of cdf] d5(1) by auto
  then have m5: "''Crm Cd Desc'' \<in> set (col_names df5)" using m(9) s2 unfolding d4(3) d3(3) by blast
  obtain df6 where d6: "categorize df5 = Inr df6" using categorize_ok[OF m5] by blast
  have n6: "no_null df6" "idx df6 = [0..<n]" using categorize_no_null[OF d5(2) d6] d5(3) by simp_all
  show ?thesis using d1(1) d2(1) d3(1) d4(1) d5(1) d6 n6 by (simp add: clean_pipeline_def)
qed

text \<open>
  C2. The canonical table has no missing value when no record is a duplicate: if
  \<open>read_csv\<close> numbered the rows \<open>0 .. n-1\<close> and the \<open>DR_NO\<close> texts are distinct,
  STEP 3 drops nothing, STEP 7 joins row by row, and the pickled table keeps the
  labels \<open>0 .. n-1\<close> and has a value in every cell. (When a record is dropped the
  join misaligns and missing cells appear; see \<open>expand_mo_step_misaligned\<close>.)
\<close>

theorem clean_pipeline_no_null:
  assumes "raw_wf rf" and "raw_idx rf = [0..<n]" and "0 < n"
    and "set required_cols \<subseteq> set (map fst (raw_cols rf))"
    and "get_col (clean_missing rf) ''DR_NO'' = Inr k" and "distinct k"
  shows "\<exists>df. clean_pipeline cdf rf = Inr df \<and> no_null df \<and> idx df = [0..<n]"
  using clean_pipeline_canonical[OF assms] .

theorem clean_pipeline_no_null_witness:
  "raw_wf \<lparr>raw_idx = [0], raw_cols = [(''DR_NO'', IntCol [10304468]),
      (''DATE OCC'', ObjCol [Some ''01/08/2020 12:00:00 AM'']), (''Date Rptd'', ObjCol [Some ''01/08/2020 12:00:00 AM'']),
      (''TIME OCC'', IntCol [2230]), (''Vict Age'', IntCol [36]), (''Vict Sex'', ObjCol [Some ''F'']),
      (''Vict Descent'', ObjCol [Some ''B'']), (''Mocodes'', ObjCol [Some ''0444 0913'']),
      (''Crm Cd Desc'', ObjCol [Some ''BATTERY - SIMPLE ASSAULT''])]\<rparr> \<and> raw_idx \<lparr>raw_idx = [0], raw_cols = [(''DR_NO'', IntCol [10304468]),
      (''DATE OCC'', ObjCol [Some ''01/08/2020 12:00:00 AM'']), (''Date Rptd'', ObjCol [Some ''01/08/2020 12:00:00 AM'']),
      (''TIME OCC'', IntCol [2230]), (''Vict Age'', IntCol [36]), (''Vict Sex'', ObjCol [Some ''F'']),
      (''Vict Descent'', ObjCol [Some ''B'']), (''Mocodes'', ObjCol [Some ''0444 0913'']),
      (''Crm Cd Desc'', ObjCol [Some ''BATTERY - SIMPLE ASSAULT''])]\<rparr> = [0..<1] \<and> 0 < (1 :: nat) \<and>
   set required_cols \<subseteq> set (map fst (raw_cols \<lparr>raw_idx = [0], raw_cols = [(''DR_NO'', IntCol [10304468]),
      (''DATE OCC'', ObjCol [Some ''01/08/2020 12:00:00 AM'']), (''Date Rptd'', ObjCol [Some ''01/08/2020 12:00:00 AM'']),
      (''TIME OCC'', IntCol [2230]), (''Vict Age'', IntCol [36]), (''Vict Sex'', ObjCol [Some ''F'']),
      (''Vict Descent'', ObjCol [Some ''B'']), (''Mocodes'', ObjCol [Some ''0444 0913'']),
      (''Crm Cd Desc'', ObjCol [Some ''BATTERY - SIMPLE ASSAULT''])]\<rparr>)) \<and>
   get_col (clean_missing \<lparr>raw_idx = [0], raw_cols = [(''DR_NO'', IntCol [10304468]),
      (''DATE OCC'', ObjCol [Some ''01/08/2020 12:00:00 AM'']), (''Date Rptd'', ObjCol [Some ''01/08/2020 12:00:00 AM'']),
      (''TIME OCC'', IntCol [2230]), (''Vict Age'', IntCol [36]), (''Vict Sex'', ObjCol [Some ''F'']),
      (''Vict Descent'', ObjCol [Some ''B'']), (''Mocodes'', ObjCol [Some ''0444 0913'']),
      (''Crm Cd Desc'', ObjCol [Some ''BATTERY - SIMPLE ASSAULT''])]\<rparr>) ''DR_NO'' = Inr [Some (py_str_int 10304468)] \<and> distinct [Some (py_str_int 10304468)] \<and>
   (\<exists>df. clean_pipeline \<lparr>code_col = IntCol [444], description_col = [Some ''Pushed'']\<rparr> \<lparr>raw_idx = [0], raw_cols = [(''DR_NO'', IntCol [10304468]),
      (''DATE OCC'', ObjCol [Some ''01/08/2020 12:00:00 AM'']), (''Date Rptd'', ObjCol [Some ''01/08/2020 12:00:00 AM'']),
      (''TIME OCC'', IntCol [2230]), (''Vict Age'', IntCol [36]), (''Vict Sex'', ObjCol [Some ''F'']),
      (''Vict Descent'', ObjCol [Some ''B'']), (''Mocodes'', ObjCol [Some ''0444 0913'']),
      (''Crm Cd Desc'', ObjCol [Some ''BATTERY - SIMPLE ASSAULT''])]\<rparr> = Inr df \<and> no_null df \<and> idx df = [0..<1])"
proof -
  let ?rf = "\<lparr>raw_idx = [0], raw_cols = [(''DR_NO'', IntCol [10304468]),
      (''DATE OCC'', ObjCol [Some ''01/08/2020 12:00:00 AM'']), (''Date Rptd'', ObjCol [Some ''01/08/2020 12:00:00 AM'']),
      (''TIME OCC'', IntCol [2230]), (''Vict Age'', IntCol [36]), (''Vict Sex'', ObjCol [Some ''F'']),
      (''Vict Descent'', ObjCol [Some ''B'']), (''Mocodes'', ObjCol [Some ''0444 0913'']),
      (''Crm Cd Desc'', ObjCol [Some ''BATTERY - SIMPLE ASSAULT''])]\<rparr>"
  have h1: "raw_wf ?rf" by (simp add: raw_wf_def)
  have h2: "raw_idx ?rf = [0..<1]" by simp
  have h3: "0 < (1 :: nat)" by simp
  have h4: "set required_cols \<subseteq> set (map fst (raw_cols ?rf))" by (simp add: required_cols_def)
  have h5: "get_col (clean_missing ?rf) ''DR_NO'' = Inr [Some (py_str_int 10304468)]"
    by (simp add: get_col_def map_of_clean_missing)
  have h6: "distinct [Some (py_str_int 10304468)]" by simp
  show ?thesis using h1 h2 h3 h4 h5 h6 clean_pipeline_no_null[OF h1 h2 h3 h4 h5 h6, of "\<lparr>code_col = IntCol [444], description_col = [Some ''Pushed'']\<rparr>"] by blast
qed



end
