(* ===== verification/Spec2Isabelle.thy ===== *)
theory Spec2Isabelle
  imports Missing Dedup Time Demographics Category Mocodes Dates CrimeMap Predictive PointMap Metrics Eda Pipeline
begin

text \<open>
  Verification development of the LAPD crime-data pipeline of the repository
  (\<open>src/Scripts/\<close>). The core is \<open>Data Cleaning and Curation Pipeline.py\<close>, a linear
  pandas script in ten steps over one table, whose result is pickled; the other
  scripts read that pickle (\<open>Crime Map.py\<close>, \<open>EDA Pipeline.py\<close>,
  \<open>Predictive Analysis.py\<close>, \<open>map code.py\<close>), and \<open>Data Dictionary.py\<close> is a
  docstring. Every step is modelled as a total HOL function from a table to
  \<open>pd_error + table\<close>: a \<open>KeyError\<close>, \<open>TypeError\<close>, \<open>ValueError\<close> or
  \<open>InvalidIndexError\<close> that the pandas call would raise is an \<open>Inl\<close> value, and the
  steps compose with \<open>bindE\<close> in the order of the script. No step loops beyond a
  structural recursion over a list, so no fuel is needed: every function of the
  model is total and executable.

  Layout of the library (one theory per part, each importing what it calls):
  \<^item> \<open>Prelude\<close>: the Python primitives the scripts call (\<open>isspace\<close>, \<open>strip\<close>,
    \<open>split\<close>, \<open>lower\<close>, \<open>zfill\<close>, \<open>int()\<close>, \<open>str()\<close>, zero-padded digits) and
    dictionaries built from key/value lists, the last value of a repeated key
    winning (\<open>py_dict\<close>), with the lemmas the components share.
  \<^item> \<open>Frame\<close>: the table. A \<open>frame\<close> record holds the index labels and the named
    columns of \<open>string option\<close> cells (\<open>None\<close> is \<open>NaN\<close>); the raw table of
    \<open>read_csv\<close> keeps each column's dtype (\<open>raw_col\<close>). Column access, assignment,
    boolean masks, \<open>head\<close>, \<open>fillna\<close>, and \<open>pd.concat(axis=1)\<close> aligning by label
    (\<open>union_idx\<close>, \<open>reindex\<close>, \<open>concat_axis1\<close>), with the invariant \<open>frame_wf\<close>
    (distinct names, every column as long as the index) and \<open>no_null\<close>.
  \<^item> \<open>Missing\<close> (STEP 2, lines 26--31), \<open>Dedup\<close> (STEP 3, lines 38--43),
    \<open>Dates\<close> (STEP 4, lines 48--55), \<open>Time\<close> (STEP 5, lines 64--73),
    \<open>Demographics\<close> (STEP 6, lines 80--104), \<open>Mocodes\<close> (STEP 1's code table,
    lines 13--14, and STEP 7, lines 115--129), \<open>Category\<close> (STEP 8, lines
    146--291): one definition per statement of the step, then the step itself.
  \<^item> \<open>Counts\<close>: \<open>value_counts\<close>, which every reader of the table uses, with its
    keys, counts and order (a stable sort by decreasing count).
  \<^item> \<open>Reports\<close>: the summaries the cleaning script prints (lines 19--24, 107--109,
    137--142, 295--297) and STEP 9's \<open>head(5000)\<close> (line 306).
  \<^item> \<open>Pipeline\<close>: STEPS 2--8 composed (\<open>clean_pipeline\<close>) and the export
    (\<open>run_script\<close>), with the step lemmas stating what each step needs and keeps
    (\<open>pipe_inv\<close>: a well-formed table with distinct, present labels).
  \<^item> \<open>CrimeMap\<close> (\<open>Crime Map.py\<close> lines 26--87: the division counts, the merge
    into the boundaries, and the choropleth values and tooltips the map shows),
    \<open>Eda\<close> (\<open>EDA Pipeline.py\<close>, lines 18, 36--42, 64--70 and 100--243) and
    \<open>Predictive\<close> (\<open>Predictive Analysis.py\<close>, lines 29--49): the computations of the
    readers on the pickled table.
  \<^item> \<open>PointMap\<close> (\<open>map code.py\<close>, lines 21--58): \<open>dropna\<close>, \<open>sample(1000)\<close>, the
    circle markers with their colours and the heat map's coordinate list, as the
    two \<open>folium_map\<close> records the script saves.
  \<^item> \<open>Metrics\<close> (\<open>Predictive Analysis.py\<close>, lines 58--143): \<open>train_test_split\<close>,
    \<open>accuracy_score\<close>, \<open>confusion_matrix\<close> and its row normalisation, and
    \<open>classification_report\<close> as the rows of \<open>report_df\<close>, with the heatmap rows and
    the F1 series read from it. The forest's predictions are a parameter.
  \<^item> This theory: a property spanning STEP 2 and STEP 7.

  What the lemmas show, by group: the functional behaviour of each step on every
  branch (valid, out-of-range and float-text times; blank, missing and present
  cells; the age bins; on the table STEP 6 returns, the age override of the rows
  whose sex and descent are both unknown and the open sex normalisation; the
  category dict, a key listed once giving its label and any other text
  \<open>"Other"\<close>); invariants (no missing cell after STEP 2, the vocabulary of
  every derived column, frame well-formedness, the weekday advancing by one with
  each calendar day); the equivalence of the one-pass duplicate mask with its
  positional specification and of \<open>_days_before_year\<close>'s closed form with the
  count of days; round trips (12-hour time, MO codes across padding, dates through
  STEP 4 and back through the EDA re-parse, label encoding); the nanosecond
  \<open>Timestamp\<close> range (the seconds times \<open>10^9\<close> within \<open>2^63 - 1\<close> in absolute
  value: 1677-09-21 00:12:44 to 2262-04-11 23:47:16 for whole seconds), outside
  which STEP 4 writes \<open>"Unknown"\<close>; the liveness of the whole run on every
  well-formed input with the read columns, and, when no record is a duplicate, its
  null-free pickled table and an \<open>Output.csv\<close> of the first \<open>min 5000 n\<close> rows
  with no missing cell. For the readers: the EDA top-5 summary lists the most
  frequent values with their true counts; \<open>get_dummies\<close> sets exactly the
  indicator named after each present value; the point map draws exactly the first
  1000 rows of the sample permutation among the located rows, or raises
  \<open>ValueError\<close>; the split partitions the labels; the confusion matrix, its row
  normalisation (rows summing to 1, or all \<open>NaN\<close> for a label never in the test
  set), accuracy, F1 and report agree with one another (F1 as a harmonic mean
  equals \<open>2 tp / (2 tp + fp + fn)\<close>), and the report raises \<open>ValueError\<close> when a
  class is absent from both the test labels and the predictions. The crime map's
  choropleth, which reads the merged table as a dict, gives every division the
  count of the last matching row of \<open>value_counts\<close>, so that when two spellings of
  a division normalise alike only the last partial count is shown. The
  label-aligned concat of STEP 7 is the one defect the proofs expose in the
  cleaning: after STEP 3 drops a record the labels have a gap, and the concat
  misaligns the MO descriptions and adds rows of missing cells.

  Modelling choices: Python integers are \<open>int\<close>/\<open>nat\<close> (no machine word occurs;
  the 64-bit bound of \<open>datetime64[ns]\<close> is written out as an integer inequality);
  characters are HOL's 8-bit \<open>char\<close> and the string predicates follow CPython on
  code points 0--255; \<open>to_datetime\<close> is modelled with the format pandas infers
  from the LAPD export (\<open>%m/%d/%Y %I:%M:%S %p\<close>, and \<open>%m/%d/%Y\<close> for the EDA
  re-parse); \<open>pct_change\<close> is computed in \<open>rat\<close>, without float rounding; the
  order among equal counts of \<open>value_counts\<close> is the order of first appearance;
  the permutations \<open>sample(random_state=42)\<close> and \<open>train_test_split\<close> draw are
  parameters; the test size \<open>ceil(0.3 * n)\<close> is computed exactly as
  \<open>(3 n + 9) div 10\<close>, which the double product \<open>0.3 * n\<close> also gives (the double
  nearest 0.3 is below it by less than \<open>2^-55\<close>, too little to cross an integer
  for any \<open>n\<close> below \<open>2^50\<close>; the script uses \<open>n = 100000\<close>); metrics are exact
  rationals, a \<open>NaN\<close> of numpy being \<open>None\<close>.

  Not modelled: file reading and writing (\<open>read_csv\<close>, \<open>read_pickle\<close>,
  \<open>to_csv\<close>, \<open>to_pickle\<close>, the GeoJSON), whose results are the inputs and outputs
  of the model; the printing; the drawing of the maps (base map, geometry, colours and
  HTML, beyond the values they show); the plots; \<open>info\<close>, \<open>describe\<close> and
  \<open>select_dtypes\<close> of the EDA script, which read dtypes the frame model does not
  carry; the random forest of the model script (a library model; its
  predictions are a parameter of the metrics) and its feature importances; the dateutil fallback of \<open>to_datetime\<close> when the first value does
  not fit a format; \<open>Data Dictionary.py\<close>, which has no code.
\<close>

section \<open>Properties across steps\<close>

text \<open>
  STEP 2 and STEP 7 agree on missing MO codes: a \<open>Mocodes\<close> cell that is missing
  or blank in the raw table becomes \<open>"Unknown"\<close> in STEP 2, which STEP 7 expands to the
  single description \<open>"None"\<close>, whatever the codes file holds.
\<close>

theorem missing_mocodes_expand:
  assumes "case x of None \<Rightarrow> True | Some s \<Rightarrow> is_blank s"
  shows "expand_mocodes m (fillna ''Unknown'' (blank_to_na x)) = [Some ''None'']"
  using assms by (cases x) (simp_all add: blank_to_na_def fillna_def expand_mocodes_Unknown)

theorem missing_mocodes_expand_witness:
  "(case Some '' '' of None \<Rightarrow> True | Some s \<Rightarrow> is_blank s) \<and>
   expand_mocodes Map.empty (fillna ''Unknown'' (blank_to_na (Some '' ''))) = [Some ''None'']"
proof -
  have h: "case Some '' '' of None \<Rightarrow> True | Some s \<Rightarrow> is_blank s"
    by (simp add: is_blank_def py_isspace_def)
  show ?thesis using h missing_mocodes_expand[OF h, of Map.empty] by simp
qed

end
